(* ===== verification/Prelude.thy ===== *)
theory Prelude
  imports Main "HOL-Library.Word" "HOL-Library.Sublist"
begin

text \<open>
  Shared vocabulary of the development.

  \<^item> \<open>res\<close> is the outcome of a Rust call: a value, an error value, a panic, or no return
    at all.  A panic is an outcome of its own because the code under \<^verbatim>\<open>src/\<close> indexes
    slices and calls \<^verbatim>\<open>unwrap\<close>; \<open>Hang\<close> is the outcome of a loop that waits for
    messages which never come.
  \<^item> \<open>comp\<close> is a fallible computation over an explicit state (the part of the
    machine the component talks to); \<open>bindc\<close> is the \<^verbatim>\<open>?\<close> operator, \<open>matchc\<close> a
    \<^verbatim>\<open>match\<close> on a \<^verbatim>\<open>Result\<close>, \<open>for_each\<close> a \<^verbatim>\<open>for\<close> loop whose body may leave
    with \<^verbatim>\<open>?\<close>.
  \<^item> The string functions are the methods of Rust's \<^verbatim>\<open>str\<close> and the integer printing and
    parsing of \<^verbatim>\<open>core::num\<close> that the code uses.  A string is the list of its bytes.

  The collection \<open>comp_simps\<close> holds the definitions of the combinators;
  \<open>comp_Ok\<close> holds the rules that take a successful run apart.
\<close>

named_theorems comp_simps \<open>definitions of the combinators\<close>
named_theorems comp_Ok \<open>inversion of successful runs\<close>

section \<open>Outcomes and computations\<close>

datatype ('e, 'a) res = Ok 'a | Err 'e | Panic | Hang

type_synonym ('w, 'e, 'a) comp = "'w \<Rightarrow> ('e, 'a) res \<times> 'w"

fun is_ok :: "('e, 'a) res \<Rightarrow> bool" where
  "is_ok (Ok _) = True"
| "is_ok _ = False"

fun bind_res :: "('e, 'a) res \<Rightarrow> ('a \<Rightarrow> ('e, 'b) res) \<Rightarrow> ('e, 'b) res" where
  "bind_res (Ok x) f = f x"
| "bind_res (Err e) f = Err e"
| "bind_res Panic f = Panic"
| "bind_res Hang f = Hang"

fun map_err :: "('e \<Rightarrow> 'f) \<Rightarrow> ('e, 'a) res \<Rightarrow> ('f, 'a) res" where
  "map_err g (Ok x) = Ok x"
| "map_err g (Err e) = Err (g e)"
| "map_err g Panic = Panic"
| "map_err g Hang = Hang"

primrec mapM_res :: "('x \<Rightarrow> ('e, 'y) res) \<Rightarrow> 'x list \<Rightarrow> ('e, 'y list) res" where
  "mapM_res f [] = Ok []"
| "mapM_res f (x # xs) = bind_res (f x) (\<lambda>y. bind_res (mapM_res f xs) (\<lambda>ys. Ok (y # ys)))"

primrec fold_res :: "('x \<Rightarrow> 's \<Rightarrow> ('e, 's) res) \<Rightarrow> 'x list \<Rightarrow> 's \<Rightarrow> ('e, 's) res" where
  "fold_res f [] s = Ok s"
| "fold_res f (x # xs) s = bind_res (f x s) (fold_res f xs)"

definition retc :: "'a \<Rightarrow> ('w, 'e, 'a) comp" where
  "retc x w = (Ok x, w)"

definition failc :: "'e \<Rightarrow> ('w, 'e, 'a) comp" where
  "failc e w = (Err e, w)"

definition liftc :: "('e, 'a) res \<Rightarrow> ('w, 'e, 'a) comp" where
  "liftc r w = (r, w)"

definition matchc ::
  "('w, 'e, 'a) comp \<Rightarrow> ('a \<Rightarrow> ('w, 'f, 'b) comp) \<Rightarrow> ('e \<Rightarrow> ('w, 'f, 'b) comp) \<Rightarrow> ('w, 'f, 'b) comp" where
  "matchc m f h w =
     (case m w of
        (Ok x, w') \<Rightarrow> f x w'
      | (Err e, w') \<Rightarrow> h e w'
      | (Panic, w') \<Rightarrow> (Panic, w')
      | (Hang, w') \<Rightarrow> (Hang, w'))"

definition bindc ::
  "('w, 'e, 'a) comp \<Rightarrow> ('a \<Rightarrow> ('w, 'e, 'b) comp) \<Rightarrow> ('w, 'e, 'b) comp" where
  "bindc m f = matchc m f failc"

definition seqc :: "('w, 'e, unit) comp \<Rightarrow> ('w, 'e, 'b) comp \<Rightarrow> ('w, 'e, 'b) comp" where
  "seqc m n = bindc m (\<lambda>_. n)"

definition map_errc :: "('e \<Rightarrow> 'f) \<Rightarrow> ('w, 'e, 'a) comp \<Rightarrow> ('w, 'f, 'a) comp" where
  "map_errc g m = matchc m retc (\<lambda>e. failc (g e))"

primrec for_each :: "('x \<Rightarrow> ('w, 'e, unit) comp) \<Rightarrow> 'x list \<Rightarrow> ('w, 'e, unit) comp" where
  "for_each f [] = retc ()"
| "for_each f (x # xs) = seqc (f x) (for_each f xs)"

lemmas comp_defs [comp_simps] =
  retc_def failc_def liftc_def matchc_def bindc_def seqc_def map_errc_def

subsection \<open>Taking successful runs apart\<close>

lemma bind_res_Ok_iff [simp]:
  "bind_res m f = Ok y \<longleftrightarrow> (\<exists>x. m = Ok x \<and> f x = Ok y)"
  by (cases m) auto

lemma map_err_Ok_iff [simp]: "map_err g m = Ok y \<longleftrightarrow> m = Ok y"
  by (cases m) auto

lemma retc_iff [simp]: "retc x w = (r, w') \<longleftrightarrow> r = Ok x \<and> w' = w"
  by (auto simp: retc_def)

lemma failc_iff [simp]: "failc e w = (r, w') \<longleftrightarrow> r = Err e \<and> w' = w"
  by (auto simp: failc_def)

lemma liftc_iff [simp]: "liftc r w = (r', w') \<longleftrightarrow> r = r' \<and> w' = w"
  by (auto simp: liftc_def)

lemma matchc_OkI: "m w = (Ok x, w1) \<Longrightarrow> matchc m f h w = f x w1"
  by (simp add: matchc_def)

lemma matchc_ErrI: "m w = (Err e, w1) \<Longrightarrow> matchc m f h w = h e w1"
  by (simp add: matchc_def)

lemma bindc_OkI: "m w = (Ok x, w1) \<Longrightarrow> bindc m f w = f x w1"
  by (simp add: bindc_def matchc_OkI)

lemma bindc_ErrI: "m w = (Err e, w1) \<Longrightarrow> bindc m f w = (Err e, w1)"
  by (simp add: bindc_def matchc_ErrI failc_def)

lemma seqc_OkI: "m w = (Ok (), w1) \<Longrightarrow> seqc m n w = n w1"
  by (simp add: seqc_def bindc_OkI)

lemma bindc_Ok_iff [comp_Ok]:
  "bindc m f w = (Ok y, w2) \<longleftrightarrow> (\<exists>x w1. m w = (Ok x, w1) \<and> f x w1 = (Ok y, w2))"
  by (auto simp: bindc_def matchc_def failc_def split: prod.splits res.splits)

lemma seqc_Ok_iff [comp_Ok]:
  "seqc m n w = (Ok y, w2) \<longleftrightarrow> (\<exists>w1. m w = (Ok (), w1) \<and> n w1 = (Ok y, w2))"
  by (auto simp: seqc_def bindc_Ok_iff)

lemma map_errc_Ok_iff [comp_Ok]: "map_errc g m w = (Ok y, w2) \<longleftrightarrow> m w = (Ok y, w2)"
  by (auto simp: map_errc_def matchc_def failc_def retc_def split: prod.splits res.splits)

lemma map_errc_snd [simp]: "snd (map_errc g m w) = snd (m w)"
  by (auto simp: map_errc_def matchc_def failc_def retc_def split: prod.splits res.splits)

lemma map_errc_is_ok [simp]: "is_ok (fst (map_errc g m w)) = is_ok (fst (m w))"
  by (auto simp: map_errc_def matchc_def failc_def retc_def split: prod.splits res.splits)

lemma seqc_cases:
  assumes "seqc m n w = (r, w2)"
  obtains (cont) w1 where "m w = (Ok (), w1)" and "n w1 = (r, w2)"
  | (stop) r1 where "m w = (r1, w2)" and "\<not> is_ok r1" and "\<not> is_ok r"
proof (cases "m w")
  case (Pair r1 w1)
  show thesis
  proof (cases r1)
    case (Ok u)
    with assms Pair that(1) show thesis by (simp add: comp_defs)
  next
    case (Err e)
    with assms Pair that(2) show thesis by (auto simp: comp_defs)
  next
    case Panic
    with assms Pair that(2) show thesis by (auto simp: comp_defs)
  next
    case Hang
    with assms Pair that(2) show thesis by (auto simp: comp_defs)
  qed
qed

lemma bindc_cases:
  assumes "bindc m f w = (r, w2)"
  obtains (cont) x w1 where "m w = (Ok x, w1)" and "f x w1 = (r, w2)"
  | (stop) r1 where "m w = (r1, w2)" and "\<not> is_ok r1" and "\<not> is_ok r"
      and "r1 = Panic \<Longrightarrow> r = Panic" and "r1 = Hang \<Longrightarrow> r = Hang"
proof (cases "m w")
  case (Pair r1 w1)
  with assms that show thesis by (cases r1) (auto simp: comp_defs)
qed

lemma for_each_inv:
  assumes "for_each f xs w = (r, w')" and "P w"
    and "\<And>x w r w'. x \<in> set xs \<Longrightarrow> P w \<Longrightarrow> f x w = (r, w') \<Longrightarrow> P w'"
  shows "P w'"
  using assms
proof (induction xs arbitrary: w)
  case Nil
  then show ?case by simp
next
  case (Cons x xs)
  from Cons.prems(1) have "seqc (f x) (for_each f xs) w = (r, w')" by simp
  then show ?case
  proof (cases rule: seqc_cases)
    case (cont w1)
    from cont(1) Cons.prems(2,3) have "P w1" by (meson list.set_intros(1))
    with cont(2) Cons.IH Cons.prems(3) show ?thesis by (meson list.set_intros(2))
  next
    case (stop r1)
    with Cons.prems(2,3) show ?thesis by (meson list.set_intros(1))
  qed
qed

lemma for_each_append:
  "for_each f (xs @ ys) = seqc (for_each f xs) (for_each f ys)"
  by (induction xs) (auto simp: fun_eq_iff comp_defs split: prod.splits res.splits)

lemma mapM_res_Ok_length: "mapM_res f xs = Ok ys \<Longrightarrow> length ys = length xs"
  by (induction xs arbitrary: ys) auto

lemma mapM_res_Ok_iff: "mapM_res f xs = Ok ys \<longleftrightarrow> map f xs = map Ok ys"
  by (induction xs arbitrary: ys) (auto simp: Cons_eq_map_conv)

section \<open>Simulation by steps on an abstract state\<close>

text \<open>
  \<open>f\<close> abstracts the state of the machine.  \<open>runs f gs m\<close>: a successful run of
  \<open>m\<close> performs the steps \<open>gs\<close> on the abstract state, a run with any other outcome
  performs an initial part of them.  A step is partial: \<open>None\<close> is a step that cannot be
  taken.  \<open>reads f m\<close>: the computation leaves the abstract state alone.
\<close>

primrec steps :: "('s \<Rightarrow> 's option) list \<Rightarrow> 's \<Rightarrow> 's option" where
  "steps [] s = Some s"
| "steps (g # gs) s = Option.bind (g s) (steps gs)"

definition runs :: "('w \<Rightarrow> 's) \<Rightarrow> ('s \<Rightarrow> 's option) list \<Rightarrow> ('w, 'e, unit) comp \<Rightarrow> bool" where
  "runs f gs m \<longleftrightarrow>
     (\<forall>w r w'. m w = (r, w') \<longrightarrow>
        (if is_ok r then steps gs (f w) = Some (f w')
         else (\<exists>n. steps (take n gs) (f w) = Some (f w'))))"

definition reads :: "('w \<Rightarrow> 's) \<Rightarrow> ('w, 'e, 'a) comp \<Rightarrow> bool" where
  "reads f m \<longleftrightarrow> (\<forall>w. f (snd (m w)) = f w)"

lemma steps_append: "steps (gs @ hs) s = Option.bind (steps gs s) (steps hs)"
  by (induction gs arbitrary: s) (auto simp: bind_eq_Some_conv split: bind_split)

lemma runs_Ok: "runs f gs m \<Longrightarrow> m w = (Ok (), w') \<Longrightarrow> steps gs (f w) = Some (f w')"
  unfolding runs_def by fastforce

lemma runs_any: "runs f gs m \<Longrightarrow> m w = (r, w') \<Longrightarrow> \<exists>n. steps (take n gs) (f w) = Some (f w')"
  unfolding runs_def by (metis take_all le_refl)

lemma readsD: "reads f m \<Longrightarrow> m w = (r, w') \<Longrightarrow> f w' = f w"
  unfolding reads_def by (metis snd_conv)

lemma reads_retc [simp]: "reads f (retc x)" and reads_failc [simp]: "reads f (failc e)"
  by (simp_all add: reads_def retc_def failc_def)

lemma reads_matchc:
  "reads f m \<Longrightarrow> (\<And>x. reads f (g x)) \<Longrightarrow> (\<And>e. reads f (h e)) \<Longrightarrow> reads f (matchc m g h)"
  by (auto simp: reads_def matchc_def split: prod.split res.split) (metis snd_conv)+

lemma reads_map_errc [simp]: "reads f (map_errc g m) = reads f m"
  by (simp add: reads_def)

lemma reads_bindc: "reads f m \<Longrightarrow> (\<And>x. reads f (g x)) \<Longrightarrow> reads f (bindc m g)"
  unfolding bindc_def by (intro reads_matchc) simp_all

lemma reads_seqc: "reads f m \<Longrightarrow> reads f n \<Longrightarrow> reads f (seqc m n)"
  unfolding seqc_def by (intro reads_bindc)

lemma reads_for_each: "(\<And>x. x \<in> set xs \<Longrightarrow> reads f (b x)) \<Longrightarrow> reads f (for_each b xs)"
  by (induction xs) (auto intro: reads_seqc)

lemma reads_liftc [simp]: "reads f (liftc r)"
  by (simp add: reads_def liftc_def)

lemma reads_if: "(c \<Longrightarrow> reads f m) \<Longrightarrow> (\<not> c \<Longrightarrow> reads f n) \<Longrightarrow> reads f (if c then m else n)"
  by simp

lemmas reads_intros = reads_bindc reads_seqc reads_for_each reads_matchc reads_if

lemma reads_runs: "reads f m \<Longrightarrow> runs f [] m"
  by (auto simp: runs_def reads_def) (metis snd_conv)+

lemma runs_retc [simp]: "runs f [] (retc ())"
  by (simp add: runs_def)

lemma runs_map_errc: "runs f gs m \<Longrightarrow> runs f gs (map_errc g m)"
  by (force simp: runs_def map_errc_def matchc_def retc_def failc_def split: prod.splits res.splits)

lemma runs_seqc:
  assumes "runs f gs m" and "runs f hs n"
  shows "runs f (gs @ hs) (seqc m n)"
  unfolding runs_def
proof (intro allI impI)
  fix w r w'
  assume "seqc m n w = (r, w')"
  then show "if is_ok r then steps (gs @ hs) (f w) = Some (f w')
    else \<exists>k. steps (take k (gs @ hs)) (f w) = Some (f w')"
  proof (cases rule: seqc_cases)
    case (cont w1)
    have m: "steps gs (f w) = Some (f w1)" using runs_Ok[OF assms(1) cont(1)] .
    show ?thesis
    proof (cases "is_ok r")
      case True
      with assms(2) cont(2) m show ?thesis by (auto simp: runs_def steps_append)
    next
      case False
      obtain k where "steps (take k hs) (f w1) = Some (f w')"
        using runs_any[OF assms(2) cont(2)] ..
      with m have "steps (take (length gs + k) (gs @ hs)) (f w) = Some (f w')"
        by (simp add: steps_append)
      with False show ?thesis by (metis (full_types))
    qed
  next
    case (stop r1)
    then obtain k where "steps (take k gs) (f w) = Some (f w')"
      using runs_any[OF assms(1)] by blast
    then have "steps (take (min k (length gs)) (gs @ hs)) (f w) = Some (f w')"
      by (cases "k \<le> length gs") simp_all
    with stop(3) show ?thesis by (metis (full_types))
  qed
qed

lemma runs_for_each:
  "(\<And>x. x \<in> set xs \<Longrightarrow> runs f (gs x) (b x)) \<Longrightarrow> runs f (concat (map gs xs)) (for_each b xs)"
  by (induction xs) (auto intro: runs_seqc)

text \<open>A reflexive and transitive relation that every step keeps is kept by every run.\<close>

lemma steps_induct:
  assumes "steps gs s = Some s'" and "P s"
    and "\<And>g s s'. g \<in> set gs \<Longrightarrow> P s \<Longrightarrow> g s = Some s' \<Longrightarrow> P s'"
  shows "P s'"
  using assms by (induction gs arbitrary: s) (auto simp: bind_eq_Some_conv)

lemma steps_establish:
  assumes "steps gs s = Some s'" and "g \<in> set gs"
    and "\<And>s s'. g s = Some s' \<Longrightarrow> Q s'"
    and "\<And>h s s'. h \<in> set gs \<Longrightarrow> Q s \<Longrightarrow> h s = Some s' \<Longrightarrow> Q s'"
  shows "Q s'"
proof -
  from assms(2) obtain xs ys where gs: "gs = xs @ g # ys" by (auto dest: split_list)
  with assms(1) obtain s1 s2 where "g s1 = Some s2" and ys: "steps ys s2 = Some s'"
    by (auto simp: steps_append bind_eq_Some_conv)
  with assms(3) have "Q s2" by blast
  with ys show ?thesis by (rule steps_induct) (use assms(4) gs in auto)
qed

lemma steps_idle: "(\<And>g. g \<in> set gs \<Longrightarrow> g s = Some s) \<Longrightarrow> steps gs s = Some s"
proof (induction gs)
  case (Cons g gs)
  have "g s = Some s" and "steps gs s = Some s" using Cons by auto
  then show ?case by simp
qed simp

lemma runs_keeps:
  assumes "runs f gs m" and "m w = (r, w')" and "P (f w)"
    and "\<And>g s s'. g \<in> set gs \<Longrightarrow> P s \<Longrightarrow> g s = Some s' \<Longrightarrow> P s'"
  shows "P (f w')"
proof -
  obtain n where "steps (take n gs) (f w) = Some (f w')" using runs_any[OF assms(1,2)] ..
  then show ?thesis by (rule steps_induct) (use assms(3,4) in \<open>auto dest: in_set_takeD\<close>)
qed

section \<open>Strings\<close>

text \<open>\<^verbatim>\<open>[S]::join\<close>, \<^verbatim>\<open>str::split\<close>, \<^verbatim>\<open>str::split_terminator\<close> and \<^verbatim>\<open>str::contains\<close>.\<close>

fun join :: "string \<Rightarrow> string list \<Rightarrow> string" where
  "join sep [] = []"
| "join sep [x] = x"
| "join sep (x # y # xs) = x @ sep @ join sep (y # xs)"

fun split_by :: "(char \<Rightarrow> bool) \<Rightarrow> string \<Rightarrow> string list" where
  "split_by p [] = [[]]"
| "split_by p (c # cs) =
     (if p c then [] # split_by p cs
      else (case split_by p cs of [] \<Rightarrow> [[c]] | x # xs \<Rightarrow> (c # x) # xs))"

definition split_terminator :: "char \<Rightarrow> string \<Rightarrow> string list" where
  "split_terminator c s =
     (let xs = split_by (\<lambda>d. d = c) s in if last xs = [] then butlast xs else xs)"

fun str_contains :: "string \<Rightarrow> string \<Rightarrow> bool" where
  "str_contains pat [] = (pat = [])"
| "str_contains pat (c # cs) = (take (length pat) (c # cs) = pat \<or> str_contains pat cs)"

lemma str_contains_iff: "str_contains pat s \<longleftrightarrow> (\<exists>a b. s = a @ pat @ b)"
proof (induction s)
  case Nil
  then show ?case by simp
next
  case (Cons c cs)
  have pre: "take (length pat) (c # cs) = pat \<longleftrightarrow> (\<exists>b. c # cs = pat @ b)"
    by (metis append_eq_conv_conj append_take_drop_id)
  have "(\<exists>a b. c # cs = a @ pat @ b) \<longleftrightarrow>
        (\<exists>b. c # cs = pat @ b) \<or> (\<exists>a b. cs = a @ pat @ b)"
    by (metis append_Cons append_Nil list.exhaust list.inject)
  with pre Cons.IH show ?case by simp
qed

lemma split_by_nonempty [simp]: "split_by p s \<noteq> []"
  by (cases s) (auto split: list.splits)

lemma split_by_clean: "\<forall>c\<in>set s. \<not> p c \<Longrightarrow> split_by p s = [s]"
  by (induction s) auto

lemma split_by_append_sep:
  "\<forall>c\<in>set s. \<not> p c \<Longrightarrow> p d \<Longrightarrow> split_by p (s @ d # t) = s # split_by p t"
  by (induction s) auto

lemma split_by_join:
  assumes "p d" and "xs \<noteq> []" and "\<forall>x\<in>set xs. \<forall>c\<in>set x. \<not> p c"
  shows "split_by p (join [d] xs) = xs"
  using assms(2,3)
proof (induction xs rule: induct_list012)
  case 1
  then show ?case by simp
next
  case (2 x)
  then show ?case by (simp add: split_by_clean)
next
  case (3 x y zs)
  have "split_by p (x @ d # join [d] (y # zs)) = x # split_by p (join [d] (y # zs))"
    using "3.prems" assms(1) by (intro split_by_append_sep) auto
  with 3 show ?case by simp
qed

text \<open>A file of lines, each ended by \<open>c\<close>, splits into exactly its lines.\<close>

lemma split_terminator_lines:
  assumes "\<forall>x\<in>set xs. c \<notin> set x"
  shows "split_terminator c (concat (map (\<lambda>x. x @ [c]) xs)) = xs"
proof -
  have "split_by (\<lambda>d. d = c) (concat (map (\<lambda>x. x @ [c]) xs)) = xs @ [[]]"
    using assms
  proof (induction xs)
    case Nil
    then show ?case by simp
  next
    case (Cons x xs)
    then have "split_by (\<lambda>d. d = c) (x @ c # concat (map (\<lambda>x. x @ [c]) xs)) =
      x # split_by (\<lambda>d. d = c) (concat (map (\<lambda>x. x @ [c]) xs))"
      by (intro split_by_append_sep) auto
    with Cons show ?case by simp
  qed
  then show ?thesis by (simp add: split_terminator_def)
qed

text \<open>\<^verbatim>\<open>str::to_lowercase\<close> on ASCII; other bytes are left as they are.\<close>

definition ascii_lower :: "char \<Rightarrow> char" where
  "ascii_lower c = (let n = of_char c :: nat in if 65 \<le> n \<and> n \<le> 90 then char_of (n + 32) else c)"

definition to_lowercase :: "string \<Rightarrow> string" where
  "to_lowercase s = map ascii_lower s"

section \<open>Printing and parsing integers\<close>

definition digit_char :: "nat \<Rightarrow> char" where
  "digit_char d = ''0123456789abcdef'' ! d"

fun show_nat :: "nat \<Rightarrow> string" where
  "show_nat n = (if n < 10 then [digit_char n] else show_nat (n div 10) @ [digit_char (n mod 10)])"

declare show_nat.simps [simp del]

definition show_int :: "int \<Rightarrow> string" where
  "show_int i = (if i < 0 then ''-'' @ show_nat (nat (- i)) else show_nat (nat i))"

text \<open>\<^verbatim>\<open>format!("{:02x}", b)\<close> of a byte.\<close>

definition hex2 :: "8 word \<Rightarrow> string" where
  "hex2 b = [digit_char (unat b div 16), digit_char (unat b mod 16)]"

text \<open>\<^verbatim>\<open>char::to_digit\<close>.\<close>

definition to_digit :: "nat \<Rightarrow> char \<Rightarrow> nat option" where
  "to_digit radix c =
     (let n = of_char c :: nat;
          d = (if 48 \<le> n \<and> n \<le> 57 then Some (n - 48)
               else if 97 \<le> n \<and> n \<le> 122 then Some (n - 87)
               else if 65 \<le> n \<and> n \<le> 90 then Some (n - 55)
               else None)
      in case d of None \<Rightarrow> None | Some v \<Rightarrow> if v < radix then Some v else None)"

datatype parse_int_error = IntEmpty | IntInvalidDigit | IntPosOverflow | IntNegOverflow

fun show_parse_int_error :: "parse_int_error \<Rightarrow> string" where
  "show_parse_int_error IntEmpty = ''cannot parse integer from empty string''"
| "show_parse_int_error IntInvalidDigit = ''invalid digit found in string''"
| "show_parse_int_error IntPosOverflow = ''number too large to fit in target type''"
| "show_parse_int_error IntNegOverflow = ''number too small to fit in target type''"

fun parse_digits :: "nat \<Rightarrow> nat \<Rightarrow> nat \<Rightarrow> string \<Rightarrow> (parse_int_error, nat) res" where
  "parse_digits radix mx acc [] = Ok acc"
| "parse_digits radix mx acc (c # cs) =
     (case to_digit radix c of
        None \<Rightarrow> Err IntInvalidDigit
      | Some d \<Rightarrow>
          if acc * radix + d \<le> mx then parse_digits radix mx (acc * radix + d) cs
          else Err IntPosOverflow)"

text \<open>
  \<^verbatim>\<open>uN::from_str_radix\<close>: the empty string and a lone sign are errors, one leading
  \<^verbatim>\<open>+\<close> is accepted, a minus sign is an invalid digit.
\<close>

fun parse_uint :: "nat \<Rightarrow> nat \<Rightarrow> string \<Rightarrow> (parse_int_error, nat) res" where
  "parse_uint radix mx [] = Err IntEmpty"
| "parse_uint radix mx [c] =
     (if c = CHR ''+'' \<or> c = CHR ''-'' then Err IntInvalidDigit else parse_digits radix mx 0 [c])"
| "parse_uint radix mx (c # cs) =
     parse_digits radix mx 0 (if c = CHR ''+'' then cs else c # cs)"

definition parse_u8_hex :: "string \<Rightarrow> (parse_int_error, 8 word) res" where
  "parse_u8_hex s = map_res id word_of_nat (parse_uint 16 255 s)"

definition parse_u16 :: "string \<Rightarrow> (parse_int_error, 16 word) res" where
  "parse_u16 s = map_res id word_of_nat (parse_uint 10 65535 s)"

definition parse_u32 :: "string \<Rightarrow> (parse_int_error, 32 word) res" where
  "parse_u32 s = map_res id word_of_nat (parse_uint 10 4294967295 s)"

text \<open>\<^verbatim>\<open>i32::from_str\<close>; the magnitude of a negative number may be one larger.\<close>

definition parse_i32 :: "string \<Rightarrow> (parse_int_error, int) res" where
  "parse_i32 s =
     (case s of
        [] \<Rightarrow> Err IntEmpty
      | c # cs \<Rightarrow>
          if c = CHR ''-'' \<and> cs \<noteq> []
          then (case parse_digits 10 2147483648 0 cs of
                  Ok n \<Rightarrow> Ok (- int n)
                | Err IntPosOverflow \<Rightarrow> Err IntNegOverflow
                | Err e \<Rightarrow> Err e
                | Panic \<Rightarrow> Panic
                | Hang \<Rightarrow> Hang)
          else map_res id int (parse_uint 10 2147483647 s))"

text \<open>\<^verbatim>\<open>bool::from_str\<close>.\<close>

definition parse_bool :: "string \<Rightarrow> (string, bool) res" where
  "parse_bool s =
     (if s = ''true'' then Ok True
      else if s = ''false'' then Ok False
      else Err ''provided string was not `true` or `false`'')"

subsection \<open>Reading back what was printed\<close>

lemma nat_less_16_cases:
  "(d::nat) < 16 \<Longrightarrow> d = 0 \<or> d = 1 \<or> d = 2 \<or> d = 3 \<or> d = 4 \<or> d = 5 \<or> d = 6 \<or> d = 7 \<or>
     d = 8 \<or> d = 9 \<or> d = 10 \<or> d = 11 \<or> d = 12 \<or> d = 13 \<or> d = 14 \<or> d = 15"
  by presburger

lemma to_digit_digit_char: "d < 16 \<Longrightarrow> d < r \<Longrightarrow> to_digit r (digit_char d) = Some d"
  by (drule nat_less_16_cases, elim disjE) (simp_all add: digit_char_def to_digit_def)

lemma digit_char_not_sign:
  "d < 16 \<Longrightarrow> digit_char d \<noteq> CHR ''+'' \<and> digit_char d \<noteq> CHR ''-'' \<and> digit_char d \<noteq> CHR '':'' \<and>
     digit_char d \<noteq> CHR ''.'' \<and> digit_char d \<noteq> CHR '' '' \<and> digit_char d \<noteq> CHR '','' \<and>
     digit_char d \<noteq> CHR ''/'' \<and> digit_char d \<noteq> CHR 0x0A"
  by (drule nat_less_16_cases, elim disjE) (simp_all add: digit_char_def)

lemma show_nat_nonempty [simp]: "show_nat n \<noteq> []"
  by (subst show_nat.simps) simp

lemma show_nat_small: "n < 10 \<Longrightarrow> show_nat n = [digit_char n]"
  by (simp add: show_nat.simps)

lemma show_nat_chars: "c \<in> set (show_nat n) \<Longrightarrow> \<exists>d<10. c = digit_char d"
proof (induction n rule: show_nat.induct)
  case (1 n)
  show ?case
  proof (cases "n < 10")
    case True
    with "1.prems" show ?thesis by (auto simp: show_nat.simps[of n])
  next
    case False
    with "1.prems" have "c \<in> set (show_nat (n div 10)) \<or> c = digit_char (n mod 10)"
      by (auto simp: show_nat.simps[of n])
    with "1.IH" False show ?thesis by (auto intro: exI[of _ "n mod 10"])
  qed
qed

lemma parse_digits_append:
  "parse_digits r mx a (xs @ ys) = bind_res (parse_digits r mx a xs) (\<lambda>b. parse_digits r mx b ys)"
  by (induction xs arbitrary: a) (auto split: option.splits)

lemma parse_digits_show_nat: "n \<le> mx \<Longrightarrow> parse_digits 10 mx 0 (show_nat n) = Ok n"
proof (induction n rule: show_nat.induct)
  case (1 n)
  show ?case
  proof (cases "n < 10")
    case True
    with "1.prems" show ?thesis by (simp add: show_nat_small to_digit_digit_char)
  next
    case False
    with "1.IH" "1.prems" have "parse_digits 10 mx 0 (show_nat (n div 10)) = Ok (n div 10)"
      by simp
    moreover have "n div 10 * 10 + n mod 10 = n" by simp
    ultimately show ?thesis
      using False "1.prems"
      by (simp add: show_nat.simps[of n] parse_digits_append to_digit_digit_char)
  qed
qed

lemma parse_uint_no_sign:
  "s \<noteq> [] \<Longrightarrow> hd s \<noteq> CHR ''+'' \<Longrightarrow> hd s \<noteq> CHR ''-'' \<Longrightarrow> parse_uint r mx s = parse_digits r mx 0 s"
  by (cases "(r, mx, s)" rule: parse_uint.cases) auto

lemma parse_uint_show_nat: "n \<le> mx \<Longrightarrow> parse_uint 10 mx (show_nat n) = Ok n"
proof -
  assume n: "n \<le> mx"
  obtain d where "d < 10" "hd (show_nat n) = digit_char d"
    using show_nat_chars[of "hd (show_nat n)" n] by auto
  then have "hd (show_nat n) \<noteq> CHR ''+'' \<and> hd (show_nat n) \<noteq> CHR ''-''"
    using digit_char_not_sign[of d] by simp
  with n show ?thesis by (simp add: parse_uint_no_sign parse_digits_show_nat)
qed

lemma parse_u16_show: "parse_u16 (show_nat (unat p)) = Ok p"
proof -
  have "unat p \<le> 65535" using unsigned_less[of p, where ?'a = nat] by simp
  then show ?thesis by (simp add: parse_u16_def parse_uint_show_nat)
qed

lemma parse_u32_show: "parse_u32 (show_nat (unat p)) = Ok p"
proof -
  have "unat p \<le> 4294967295" using unsigned_less[of p, where ?'a = nat] by simp
  then show ?thesis by (simp add: parse_u32_def parse_uint_show_nat)
qed

lemma hex2_clean:
  "c \<in> set (hex2 b) \<Longrightarrow> c \<noteq> CHR '':'' \<and> c \<noteq> CHR ''-''"
proof -
  assume "c \<in> set (hex2 b)"
  moreover have "unat b < 256" using unsigned_less[of b, where ?'a = nat] by simp
  ultimately have "c = digit_char (unat b div 16) \<or> c = digit_char (unat b mod 16)"
    and "unat b div 16 < 16" and "unat b mod 16 < 16" by (auto simp: hex2_def)
  then obtain d where "d < 16" "c = digit_char d" by blast
  then show ?thesis using digit_char_not_sign[of d] by simp
qed

lemma parse_u8_hex_hex2: "parse_u8_hex (hex2 b) = Ok b"
proof -
  have b: "unat b < 256" using unsigned_less[of b, where ?'a = nat] by simp
  define h l where "h = unat b div 16" and "l = unat b mod 16"
  have hl: "h < 16" "l < 16" "h * 16 + l = unat b" using b by (auto simp: h_def l_def)
  have "parse_uint 16 255 [digit_char h, digit_char l] = Ok (unat b)"
    using hl b digit_char_not_sign[of h] to_digit_digit_char[of h 16] to_digit_digit_char[of l 16]
    by simp
  then show ?thesis by (simp add: parse_u8_hex_def hex2_def h_def l_def)
qed

end
