(* ===== verification/Errors.thy ===== *)
theory Errors
  imports Prelude
begin

text \<open>
  \<^verbatim>\<open>src/error/mod.rs\<close>: the error type of the program, wrapping of errors into chains,
  the flattened error list that tear-down operations collect, printing and exit codes.

  Errors of other crates are represented by what the program reads of them: the printed text,
  the \<^verbatim>\<open>io::ErrorKind\<close>, the netlink error code, the variant of a sysctl error.  How
  a \<^verbatim>\<open>tonic::Status\<close> prints is a parameter of \<open>display\<close>.
\<close>

section \<open>Errors of the standard library and of other crates\<close>

datatype io_kind = NotFound | AlreadyExists | PermissionDenied | ConnectionRefused | OtherKind

datatype io_error = IoError (ioe_kind: io_kind) (ioe_msg: string)

definition io_other :: "string \<Rightarrow> io_error" where
  "io_other msg = IoError OtherKind msg"

datatype sysctl_error =
    SysctlNotFound string
  | SysctlIo "int option" string
  | SysctlOther string

fun sysctl_text :: "sysctl_error \<Rightarrow> string" where
  "sysctl_text (SysctlNotFound s) = s"
| "sysctl_text (SysctlIo _ s) = s"
| "sysctl_text (SysctlOther s) = s"

datatype nl_error = NlError (nl_code: int) (nl_text: string)

datatype code =
    CodeUnknown | CodeInvalidArgument | CodeDeadlineExceeded | CodeNotFound | CodeAborted
  | CodeInternal | CodeOther nat

datatype status = Status (status_code: code) (status_msg: string)

section \<open>The program's own error type\<close>

datatype netavark_error =
    Message string
  | ExitCode string int
  | Chain string netavark_error
  | Io io_error
  | Dbus string
  | DbusVariant string
  | Sysctl sysctl_error
  | Serde string
  | Netlink nl_error
  | DHCPProxy status
  | ErrList "netavark_error list"

type_synonym ('w, 'a) ncomp = "('w, netavark_error, 'a) comp"
type_synonym 'a nres = "(netavark_error, 'a) res"

definition wrap :: "string \<Rightarrow> netavark_error \<Rightarrow> netavark_error" where
  "wrap msg chained = Chain msg chained"

fun errorlist_push :: "netavark_error list \<Rightarrow> netavark_error \<Rightarrow> netavark_error list" where
  "errorlist_push es (ErrList xs) = es @ xs"
| "errorlist_push es err = es @ [err]"

definition errorlist_is_empty :: "netavark_error list \<Rightarrow> bool" where
  "errorlist_is_empty es = (es = [])"

fun get_exit_code :: "netavark_error \<Rightarrow> int" where
  "get_exit_code (ExitCode _ i) = i"
| "get_exit_code _ = 1"

fun unwrap_error :: "netavark_error \<Rightarrow> netavark_error" where
  "unwrap_error (Chain _ inner) = unwrap_error inner"
| "unwrap_error e = e"

fun display :: "(status \<Rightarrow> string) \<Rightarrow> netavark_error \<Rightarrow> string" where
  "display sh (Message s) = s"
| "display sh (ExitCode s _) = s"
| "display sh (Chain s e) = s @ '': '' @ display sh e"
| "display sh (Io e) = ''IO error: '' @ ioe_msg e"
| "display sh (Dbus e) = ''DBus error: '' @ e"
| "display sh (DbusVariant e) = ''DBus Variant Error: '' @ e"
| "display sh (Sysctl e) = ''Sysctl error: '' @ sysctl_text e"
| "display sh (Serde e) = ''JSON Decoding error: '' @ e"
| "display sh (Netlink e) = ''Netlink error: '' @ nl_text e"
| "display sh (DHCPProxy e) = ''dhcp proxy error: '' @ sh e"
| "display sh (ErrList [e]) = display sh e"
| "display sh (ErrList es) =
     ''netavark encountered multiple errors:'' @ concat (map (\<lambda>e. CHR 0x0A # CHR 0x09 # ''- '' @ display sh e) es)"

text \<open>
  The JSON line the caller of netavark reads; \<open>to_json\<close> is \<^verbatim>\<open>serde_json::to_string\<close>.
\<close>

record json_error =
  je_error :: string

definition print_json ::
  "(status \<Rightarrow> string) \<Rightarrow> (json_error \<Rightarrow> (string, string) res) \<Rightarrow> (string \<Rightarrow> ('w, 'e, unit) comp) \<Rightarrow>
     netavark_error \<Rightarrow> ('w, 'e, unit) comp" where
  "print_json sh to_json println e =
     (let j = \<lparr>je_error = display sh e\<rparr>
      in println (case to_json j of Ok s \<Rightarrow> s | _ \<Rightarrow> ''Failed to serialize error message: '' @ je_error j))"

text \<open>\<^verbatim>\<open>ErrorWrap::wrap\<close>: wrap the error of a result.\<close>

abbreviation wrapc :: "string \<Rightarrow> ('w, 'a) ncomp \<Rightarrow> ('w, 'a) ncomp" where
  "wrapc msg \<equiv> map_errc (wrap msg)"

section \<open>Properties\<close>

fun is_chain :: "netavark_error \<Rightarrow> bool" where
  "is_chain (Chain _ _) = True"
| "is_chain _ = False"

fun is_list :: "netavark_error \<Rightarrow> bool" where
  "is_list (ErrList _) = True"
| "is_list _ = False"

definition flat :: "netavark_error list \<Rightarrow> bool" where
  "flat es = list_all (\<lambda>e. \<not> is_list e) es"

fun list_flat :: "netavark_error \<Rightarrow> bool" where
  "list_flat (ErrList es) = flat es"
| "list_flat _ = True"

text \<open>The single errors in an error and in what an operation returned; a list counts as its members.\<close>

definition members :: "netavark_error \<Rightarrow> netavark_error list" where
  "members e = (case e of ErrList es \<Rightarrow> es | _ \<Rightarrow> [e])"

fun error_items :: "'a nres \<Rightarrow> netavark_error list" where
  "error_items (Err e) = members e"
| "error_items r = []"

lemma push_members: "errorlist_push es e = es @ members e"
  by (cases e) (simp_all add: members_def)

lemma unwrap_error_not_chain: "\<not> is_chain (unwrap_error e)"
  by (induction e rule: unwrap_error.induct) auto

lemma unwrap_error_wrap [simp]: "unwrap_error (wrap msg e) = unwrap_error e"
  by (simp add: wrap_def)

lemma unwrap_error_idem: "unwrap_error (unwrap_error e) = unwrap_error e"
  by (induction e rule: unwrap_error.induct) auto

lemma display_wrap [simp]: "display sh (wrap msg e) = msg @ '': '' @ display sh e"
  by (simp add: wrap_def)

lemma flat_push: "flat es \<Longrightarrow> list_flat e \<Longrightarrow> flat (errorlist_push es e)"
  by (cases e) (auto simp: flat_def)

lemma push_nonempty: "e \<noteq> ErrList [] \<Longrightarrow> errorlist_push es e \<noteq> []"
  by (cases e) auto

lemma push_prefix: "\<exists>ys. errorlist_push es e = es @ ys"
  by (cases e) auto

lemma push_fold_set:
  "set (foldl errorlist_push es errs) =
     set es \<union> (\<Union>e\<in>set errs. case e of ErrList xs \<Rightarrow> set xs | _ \<Rightarrow> {e})"
proof (induction errs arbitrary: es)
  case Nil
  then show ?case by simp
next
  case (Cons e errs)
  have "set (errorlist_push es e) = set es \<union> (case e of ErrList xs \<Rightarrow> set xs | _ \<Rightarrow> {e})"
    by (cases e) auto
  with Cons show ?case by (simp add: Un_assoc)
qed

lemma flat_fold: "flat es \<Longrightarrow> list_all list_flat errs \<Longrightarrow> flat (foldl errorlist_push es errs)"
  by (induction errs arbitrary: es) (auto simp: flat_push)

end
