(* ===== verification/Std_Net.thy ===== *)
theory Std_Net
  imports Prelude
begin

unbundle bit_operations_syntax

text \<open>
  The part of \<^verbatim>\<open>std::net\<close> the program uses: IP addresses, how they print and how they are
  parsed.  The parser follows the recursive descent of the standard library
  (\<^verbatim>\<open>core::net::parser\<close>), which matters here because the program parses the addresses that
  other parts of it print (lease fields, host addresses of port mappings, prefixes).

  Networks (\<^verbatim>\<open>ipnet::IpNet\<close>) come from another crate: the data type has the two
  constructors the source matches on, the operations are the record \<open>ipnet_lib\<close> that is passed
  to the definitions using them, and the locale \<open>ipnet_laws\<close> states what the program
  relies on.  \<open>ipnet_ref\<close> is an executable instance.
\<close>

section \<open>Addresses\<close>

datatype ipv4_addr = Ipv4Addr "8 word" "8 word" "8 word" "8 word"

datatype ipv6_addr =
  Ipv6Addr "16 word" "16 word" "16 word" "16 word" "16 word" "16 word" "16 word" "16 word"

datatype ip_addr = V4 ipv4_addr | V6 ipv6_addr

fun is_ipv6 :: "ip_addr \<Rightarrow> bool" where
  "is_ipv6 (V4 _) = False"
| "is_ipv6 (V6 _) = True"

fun octets4 :: "ipv4_addr \<Rightarrow> 8 word list" where
  "octets4 (Ipv4Addr a b c d) = [a, b, c, d]"

text \<open>\<^verbatim>\<open>u32::from(Ipv4Addr)\<close>: big endian.\<close>

fun v4_u32 :: "ipv4_addr \<Rightarrow> 32 word" where
  "v4_u32 (Ipv4Addr a b c d) =
     (push_bit 24 (ucast a) OR push_bit 16 (ucast b) OR push_bit 8 (ucast c) OR ucast d)"

fun segments :: "ipv6_addr \<Rightarrow> 16 word list" where
  "segments (Ipv6Addr a b c d e f g h) = [a, b, c, d, e, f, g, h]"

fun ipv6_of_segments :: "16 word list \<Rightarrow> ipv6_addr option" where
  "ipv6_of_segments [a, b, c, d, e, f, g, h] = Some (Ipv6Addr a b c d e f g h)"
| "ipv6_of_segments _ = None"

definition seg_octets :: "16 word \<Rightarrow> 8 word list" where
  "seg_octets s = [ucast (drop_bit 8 s), ucast s]"

definition octets6 :: "ipv6_addr \<Rightarrow> 8 word list" where
  "octets6 a = concat (map seg_octets (segments a))"

definition v4_unspecified :: "ipv4_addr \<Rightarrow> bool" where
  "v4_unspecified a = (a = Ipv4Addr 0 0 0 0)"

definition v6_unspecified :: "ipv6_addr \<Rightarrow> bool" where
  "v6_unspecified a = (a = Ipv6Addr 0 0 0 0 0 0 0 0)"

section \<open>Printing\<close>

fun show_ipv4 :: "ipv4_addr \<Rightarrow> string" where
  "show_ipv4 (Ipv4Addr a b c d) =
     show_nat (unat a) @ ''.'' @ show_nat (unat b) @ ''.'' @ show_nat (unat c) @ ''.'' @ show_nat (unat d)"

fun show_hex :: "nat \<Rightarrow> string" where
  "show_hex n = (if n < 16 then [digit_char n] else show_hex (n div 16) @ [digit_char (n mod 16)])"

declare show_hex.simps [simp del]

text \<open>
  The longest run of zero segments: the loop keeps the current run and the longest one, as
  pairs of start and length, and replaces the longest only by a strictly longer one.
\<close>

fun zero_runs :: "nat \<Rightarrow> nat \<times> nat \<Rightarrow> nat \<times> nat \<Rightarrow> 16 word list \<Rightarrow> nat \<times> nat" where
  "zero_runs i cur longest [] = longest"
| "zero_runs i (cs, cl) (ls, ll) (s # ss) =
     (if s = 0
      then let cs' = (if cl = 0 then i else cs); cl' = cl + 1
           in zero_runs (i + 1) (cs', cl') (if cl' > ll then (cs', cl') else (ls, ll)) ss
      else zero_runs (i + 1) (0, 0) (ls, ll) ss)"

definition fmt_subslice :: "16 word list \<Rightarrow> string" where
  "fmt_subslice ss = join '':'' (map (\<lambda>s. show_hex (unat s)) ss)"

definition ipv4_of_segs :: "16 word \<Rightarrow> 16 word \<Rightarrow> ipv4_addr" where
  "ipv4_of_segs x y = Ipv4Addr (ucast (drop_bit 8 x)) (ucast x) (ucast (drop_bit 8 y)) (ucast y)"

definition show_ipv6 :: "ipv6_addr \<Rightarrow> string" where
  "show_ipv6 a =
     (let ss = segments a in
      if take 6 ss = [0, 0, 0, 0, 0, 0xFFFF]
      then ''::ffff:'' @ show_ipv4 (ipv4_of_segs (ss ! 6) (ss ! 7))
      else let (st, len) = zero_runs 0 (0, 0) (0, 0) ss in
           if len > 1 then fmt_subslice (take st ss) @ ''::'' @ fmt_subslice (drop (st + len) ss)
           else fmt_subslice ss)"

fun show_ip :: "ip_addr \<Rightarrow> string" where
  "show_ip (V4 a) = show_ipv4 a"
| "show_ip (V6 a) = show_ipv6 a"

section \<open>Parsing\<close>

fun read_digits :: "nat \<Rightarrow> nat \<Rightarrow> nat \<Rightarrow> nat \<Rightarrow> nat \<Rightarrow> string \<Rightarrow> (nat \<times> nat \<times> string) option" where
  "read_digits r mx md acc cnt [] = Some (acc, cnt, [])"
| "read_digits r mx md acc cnt (c # cs) =
     (case to_digit r c of
        None \<Rightarrow> Some (acc, cnt, c # cs)
      | Some d \<Rightarrow>
          if mx < acc * r + d then None
          else if md < cnt + 1 then None
          else read_digits r mx md (acc * r + d) (cnt + 1) cs)"

definition read_number :: "nat \<Rightarrow> nat \<Rightarrow> nat \<Rightarrow> bool \<Rightarrow> string \<Rightarrow> (nat \<times> string) option" where
  "read_number r mx md allow_zero_prefix s =
     (case read_digits r mx md 0 0 s of
        None \<Rightarrow> None
      | Some (v, n, rest) \<Rightarrow>
          if n = 0 then None
          else if \<not> allow_zero_prefix \<and> hd s = CHR ''0'' \<and> 1 < n then None
          else Some (v, rest))"

fun read_given_char :: "char \<Rightarrow> string \<Rightarrow> string option" where
  "read_given_char c [] = None"
| "read_given_char c (d # ds) = (if d = c then Some ds else None)"

definition read_octet :: "string \<Rightarrow> (8 word \<times> string) option" where
  "read_octet s = map_option (\<lambda>(v, rest). (word_of_nat v, rest)) (read_number 10 255 3 False s)"

definition read_dot_octet :: "string \<Rightarrow> (8 word \<times> string) option" where
  "read_dot_octet s = Option.bind (read_given_char CHR ''.'' s) read_octet"

definition read_ipv4 :: "string \<Rightarrow> (ipv4_addr \<times> string) option" where
  "read_ipv4 s =
     Option.bind (read_octet s) (\<lambda>(a, s1).
     Option.bind (read_dot_octet s1) (\<lambda>(b, s2).
     Option.bind (read_dot_octet s2) (\<lambda>(c, s3).
     Option.bind (read_dot_octet s3) (\<lambda>(d, s4). Some (Ipv4Addr a b c d, s4)))))"

text \<open>\<^verbatim>\<open>read_separator\<close>: a separator is expected before every element but the first.\<close>

definition read_sep :: "nat \<Rightarrow> string \<Rightarrow> string option" where
  "read_sep i s = (if 0 < i then read_given_char CHR '':'' s else Some s)"

fun read_groups :: "nat \<Rightarrow> nat \<Rightarrow> string \<Rightarrow> 16 word list \<times> bool \<times> string" where
  "read_groups i 0 s = ([], False, s)"
| "read_groups i (Suc k) s =
     (case (if 0 < k then Option.bind (read_sep i s) read_ipv4 else None) of
        Some (Ipv4Addr a b c d, rest) \<Rightarrow>
          ([push_bit 8 (ucast a) OR ucast b, push_bit 8 (ucast c) OR ucast d], True, rest)
      | None \<Rightarrow>
          (case Option.bind (read_sep i s) (read_number 16 65535 4 True) of
             None \<Rightarrow> ([], False, s)
           | Some (g, rest) \<Rightarrow>
               (let (gs, b, s') = read_groups (i + 1) k rest in (word_of_nat g # gs, b, s'))))"

definition read_ipv6 :: "string \<Rightarrow> (ipv6_addr \<times> string) option" where
  "read_ipv6 s =
     (let (head, head_ipv4, s1) = read_groups 0 8 s in
      if length head = 8 then map_option (\<lambda>a. (a, s1)) (ipv6_of_segments head)
      else if head_ipv4 then None
      else Option.bind (read_given_char CHR '':'' s1) (\<lambda>s2.
           Option.bind (read_given_char CHR '':'' s2) (\<lambda>s3.
             let (tail, _, s4) = read_groups 0 (8 - (length head + 1)) s3 in
             map_option (\<lambda>a. (a, s4))
               (ipv6_of_segments (head @ replicate (8 - length head - length tail) 0 @ tail)))))"

definition parse_ipv4 :: "string \<Rightarrow> (string, ipv4_addr) res" where
  "parse_ipv4 s =
     (if 15 < length s then Err ''invalid IPv4 address syntax''
      else case read_ipv4 s of
             Some (a, []) \<Rightarrow> Ok a
           | _ \<Rightarrow> Err ''invalid IPv4 address syntax'')"

definition parse_ipv6 :: "string \<Rightarrow> (string, ipv6_addr) res" where
  "parse_ipv6 s =
     (case read_ipv6 s of Some (a, []) \<Rightarrow> Ok a | _ \<Rightarrow> Err ''invalid IPv6 address syntax'')"

definition read_ip :: "string \<Rightarrow> (ip_addr \<times> string) option" where
  "read_ip s =
     (case read_ipv4 s of
        Some (a, rest) \<Rightarrow> Some (V4 a, rest)
      | None \<Rightarrow> map_option (\<lambda>(a, rest). (V6 a, rest)) (read_ipv6 s))"

definition parse_ip :: "string \<Rightarrow> (string, ip_addr) res" where
  "parse_ip s =
     (case read_ip s of Some (a, []) \<Rightarrow> Ok a | _ \<Rightarrow> Err ''invalid IP address syntax'')"

section \<open>Printed addresses parse back\<close>

lemma to_digit_sep [simp]:
  "to_digit 10 CHR ''.'' = None" "to_digit 10 CHR '':'' = None" "to_digit 16 CHR '':'' = None"
  "to_digit 16 CHR ''.'' = None" "to_digit 10 CHR ''/'' = None" "to_digit 16 CHR ''/'' = None"
  by (simp_all add: to_digit_def)

definition stops :: "nat \<Rightarrow> string \<Rightarrow> bool" where
  "stops r s = (case s of [] \<Rightarrow> True | c # _ \<Rightarrow> to_digit r c = None)"

lemma stops_simps [simp]:
  "stops r []" "stops r (c # s) \<longleftrightarrow> to_digit r c = None"
  by (simp_all add: stops_def)

lemma read_digits_stops: "stops r s \<Longrightarrow> read_digits r mx md acc cnt s = Some (acc, cnt, s)"
  by (cases s) auto

lemma digit_char_zero_iff: "d < 16 \<Longrightarrow> digit_char d = CHR ''0'' \<longleftrightarrow> d = 0"
  by (drule nat_less_16_cases, elim disjE) (simp_all add: digit_char_def)

lemma show_nat_two: "10 \<le> n \<Longrightarrow> n < 100 \<Longrightarrow> show_nat n = [digit_char (n div 10), digit_char (n mod 10)]"
  by (subst show_nat.simps) (simp add: show_nat_small)

lemma show_nat_three:
  "100 \<le> n \<Longrightarrow> n < 1000 \<Longrightarrow>
     show_nat n = [digit_char (n div 100), digit_char (n div 10 mod 10), digit_char (n mod 10)]"
  by (subst show_nat.simps) (simp add: show_nat_two div_mult2_eq[symmetric])

lemma div_recompose: "(n::nat) div (a * b) * b + n div a mod b = n div a"
  by (simp add: div_mult2_eq)

lemma read_number_octet:
  assumes "n < 256" and "stops 10 s"
  shows "read_number 10 255 3 False (show_nat n @ s) = Some (n, s)"
proof -
  consider "n < 10" | "10 \<le> n" "n < 100" | "100 \<le> n" "n < 1000" using assms(1) by linarith
  then show ?thesis
  proof cases
    case 1
    with assms show ?thesis
      by (simp add: read_number_def show_nat_small to_digit_digit_char read_digits_stops)
  next
    case 2
    then have "0 < n div 10" "n div 10 \<le> 255" by auto
    with 2 assms show ?thesis
      by (simp add: read_number_def show_nat_two to_digit_digit_char read_digits_stops digit_char_zero_iff)
  next
    case 3
    have e: "n div 100 * 10 + n div 10 mod 10 = n div 10" using div_recompose[of n 10 10] by simp
    have "n div 100 < 10" "n div 100 \<noteq> 0" "n div 10 \<le> 255" using 3 assms by auto
    with 3 assms e show ?thesis
      by (simp add: read_number_def show_nat_three to_digit_digit_char read_digits_stops digit_char_zero_iff)
  qed
qed

lemma unat_u8_less [simp]: "unat (w :: 8 word) < 256"
  using unsigned_less[of w, where ?'a = nat] by simp

lemma unat_u16_less [simp]: "unat (w :: 16 word) < 65536"
  using unsigned_less[of w, where ?'a = nat] by simp

lemma read_octet_show: "stops 10 s \<Longrightarrow> read_octet (show_nat (unat w) @ s) = Some (w, s)"
  by (simp add: read_octet_def read_number_octet)

lemma read_ipv4_show:
  assumes "stops 10 s"
  shows "read_ipv4 (show_ipv4 a @ s) = Some (a, s)"
proof (cases a)
  case (Ipv4Addr x y z w)
  with assms show ?thesis by (simp add: read_ipv4_def read_dot_octet_def read_octet_show)
qed

lemma length_show_octet: "length (show_nat (unat (w :: 8 word))) \<le> 3"
proof -
  have "unat w < 256" by simp
  then consider "unat w < 10" | "10 \<le> unat w" "unat w < 100" | "100 \<le> unat w" "unat w < 1000"
    by linarith
  then show ?thesis by cases (simp_all add: show_nat_small show_nat_two show_nat_three)
qed

lemma length_show_ipv4: "length (show_ipv4 a) \<le> 15"
proof (cases a)
  case (Ipv4Addr x y z w)
  then show ?thesis
    using length_show_octet[of x] length_show_octet[of y] length_show_octet[of z] length_show_octet[of w]
    by simp
qed

lemma parse_ipv4_show: "parse_ipv4 (show_ipv4 a) = Ok a"
  using read_ipv4_show[of "[]" a] length_show_ipv4[of a] by (simp add: parse_ipv4_def not_less)

lemma parse_ip_show_v4: "parse_ip (show_ipv4 a) = Ok (V4 a)"
  using read_ipv4_show[of "[]" a] by (simp add: parse_ip_def read_ip_def)

subsection \<open>Version 6\<close>

lemma show_hex_one: "n < 16 \<Longrightarrow> show_hex n = [digit_char n]"
  by (subst show_hex.simps) simp

lemma show_hex_two: "16 \<le> n \<Longrightarrow> n < 256 \<Longrightarrow> show_hex n = [digit_char (n div 16), digit_char (n mod 16)]"
  by (subst show_hex.simps) (simp add: show_hex_one)

lemma show_hex_three:
  "256 \<le> n \<Longrightarrow> n < 4096 \<Longrightarrow>
     show_hex n = [digit_char (n div 256), digit_char (n div 16 mod 16), digit_char (n mod 16)]"
  by (subst show_hex.simps) (simp add: show_hex_two div_mult2_eq[symmetric])

lemma show_hex_four:
  "4096 \<le> n \<Longrightarrow> n < 65536 \<Longrightarrow>
     show_hex n = [digit_char (n div 4096), digit_char (n div 256 mod 16), digit_char (n div 16 mod 16),
                   digit_char (n mod 16)]"
  by (subst show_hex.simps) (simp add: show_hex_three div_mult2_eq[symmetric])

lemma read_number_group:
  assumes "n < 65536" and "stops 16 s"
  shows "read_number 16 65535 4 True (show_hex n @ s) = Some (n, s)"
proof -
  have e1: "n div 256 * 16 + n div 16 mod 16 = n div 16" using div_recompose[of n 16 16] by simp
  have e2: "n div 4096 * 16 + n div 256 mod 16 = n div 256" using div_recompose[of n 256 16] by simp
  consider "n < 16" | "16 \<le> n" "n < 256" | "256 \<le> n" "n < 4096" | "4096 \<le> n" "n < 65536"
    using assms(1) by linarith
  then show ?thesis
  proof cases
    case 1
    with assms show ?thesis
      by (simp add: read_number_def show_hex_one to_digit_digit_char read_digits_stops)
  next
    case 2
    then have "n div 16 < 16" by auto
    with 2 assms show ?thesis
      by (simp add: read_number_def show_hex_two to_digit_digit_char read_digits_stops)
  next
    case 3
    then have "n div 256 < 16" "n div 16 < 256" by auto
    with 3 assms e1 show ?thesis
      by (simp add: read_number_def show_hex_three to_digit_digit_char read_digits_stops)
  next
    case 4
    then have "n div 4096 < 16" "n div 256 < 256" "n div 16 < 4096" by auto
    with 4 assms e1 e2 show ?thesis
      by (simp add: read_number_def show_hex_four to_digit_digit_char read_digits_stops)
  qed
qed

text \<open>
  A run of hexadecimal digits that does not end in a dot is no IPv4 address, so the attempt to
  read an embedded one fails and the group is read.
\<close>

definition is_digit :: "nat \<Rightarrow> char \<Rightarrow> bool" where
  "is_digit r c = (to_digit r c \<noteq> None)"

lemma read_digits_rest:
  "read_digits r mx md acc cnt s = Some (v, n, rest) \<Longrightarrow> rest = dropWhile (is_digit r) s"
  by (induction s arbitrary: acc cnt) (auto simp: is_digit_def split: option.splits if_splits)

lemma read_ipv4_None:
  assumes "dropWhile (is_digit 10) s = [] \<or> hd (dropWhile (is_digit 10) s) \<noteq> CHR ''.''"
  shows "read_ipv4 s = None"
proof -
  have "read_dot_octet rest = None" if "read_octet s = Some (a, rest)" for a rest
  proof -
    from that have "rest = dropWhile (is_digit 10) s"
      by (auto simp: read_octet_def read_number_def split: option.splits if_splits dest: read_digits_rest)
    with assms show ?thesis by (cases "dropWhile (is_digit 10) s") (auto simp: read_dot_octet_def)
  qed
  then show ?thesis by (cases "read_octet s") (auto simp: read_ipv4_def)
qed

lemma show_hex_digits: "c \<in> set (show_hex n) \<Longrightarrow> to_digit 16 c \<noteq> None"
proof (induction n rule: show_hex.induct)
  case (1 n)
  then show ?case
    by (cases "n < 16") (auto simp: show_hex.simps[of n] to_digit_digit_char)
qed

lemma show_hex_nonempty [simp]: "show_hex n \<noteq> []"
  by (subst show_hex.simps) simp

lemma hex_not_dot: "c \<in> set (show_hex n) \<Longrightarrow> c \<noteq> CHR ''.''"
  using show_hex_digits[of c n] by auto

lemma read_ipv4_hex:
  assumes "s = [] \<or> hd s = CHR '':''"
  shows "read_ipv4 (show_hex n @ s) = None"
proof (rule read_ipv4_None)
  let ?d = "dropWhile (is_digit 10)"
  show "?d (show_hex n @ s) = [] \<or> hd (?d (show_hex n @ s)) \<noteq> CHR ''.''"
  proof (cases "\<forall>c\<in>set (show_hex n). is_digit 10 c")
    case True
    then have "?d (show_hex n @ s) = ?d s" by simp
    with assms show ?thesis by (cases s) (auto simp: is_digit_def)
  next
    case False
    then have "?d (show_hex n @ s) = ?d (show_hex n) @ s" and ne: "?d (show_hex n) \<noteq> []"
      by (auto simp: dropWhile_append1)
    moreover have "hd (?d (show_hex n)) \<in> set (show_hex n)"
      using ne by (meson hd_in_set set_dropWhileD)
    ultimately show ?thesis using hex_not_dot by auto
  qed
qed

lemma stops_colon: "s = [] \<or> hd s = CHR '':'' \<Longrightarrow> stops 16 s"
  by (cases s) auto

lemma read_groups_one:
  assumes "s = [] \<or> hd s = CHR '':''"
  shows "read_groups i (Suc k) ((if 0 < i then '':'' else []) @ show_hex (unat g) @ s) =
     (let (gs, b, s') = read_groups (Suc i) k s in (g # gs, b, s'))"
proof -
  have "read_sep i ((if 0 < i then '':'' else []) @ show_hex (unat g) @ s) = Some (show_hex (unat g) @ s)"
    by (simp add: read_sep_def)
  then show ?thesis
    using assms by (simp add: read_ipv4_hex read_number_group stops_colon split: prod.splits)
qed

text \<open>What follows the groups must not start with a colon and a further group.\<close>

definition groups_end :: "string \<Rightarrow> bool" where
  "groups_end s = (s = [] \<or> (\<exists>t. s = CHR '':'' # CHR '':'' # t))"

lemma read_number_colon: "read_number 16 65535 4 True (CHR '':'' # t) = None"
  by (simp add: read_number_def)

lemma read_number_Nil: "read_number 16 65535 4 True [] = None"
  by (simp add: read_number_def)

lemma read_ipv4_stop: "s = [] \<or> hd s = CHR '':'' \<Longrightarrow> read_ipv4 s = None"
  by (rule read_ipv4_None) (cases s; auto simp: is_digit_def)

lemma read_groups_end: "groups_end s \<Longrightarrow> read_groups i k s = ([], False, s)"
proof (cases k)
  case (Suc k')
  assume "groups_end s"
  then consider "s = []" | t where "s = CHR '':'' # CHR '':'' # t" by (auto simp: groups_end_def)
  then show ?thesis
    by cases (simp_all add: Suc read_sep_def read_ipv4_stop read_number_Nil read_number_colon)
qed simp

lemma groups_end_colon: "groups_end s \<Longrightarrow> s = [] \<or> hd s = CHR '':''"
  by (auto simp: groups_end_def)

lemma read_groups_tail:
  assumes "groups_end s" and "length gs \<le> k" and "0 < i"
  shows "read_groups i k (concat (map (\<lambda>g. CHR '':'' # show_hex (unat g)) gs) @ s) = (gs, False, s)"
  using assms
proof (induction gs arbitrary: i k)
  case Nil
  then show ?case by (simp add: read_groups_end)
next
  case (Cons g gs)
  then obtain k' where k: "k = Suc k'" "length gs \<le> k'" by (cases k) auto
  let ?s = "concat (map (\<lambda>g. CHR '':'' # show_hex (unat g)) gs) @ s"
  have "?s = [] \<or> hd ?s = CHR '':''"
    using groups_end_colon[OF Cons.prems(1)] by (cases gs) auto
  from read_groups_one[OF this, of i k' g] Cons.prems k show ?case
    by (simp add: Cons.IH[OF Cons.prems(1) k(2)])
qed

lemma fmt_subslice_Cons:
  "fmt_subslice (g # gs) = show_hex (unat g) @ concat (map (\<lambda>g. CHR '':'' # show_hex (unat g)) gs)"
  by (induction gs arbitrary: g) (auto simp: fmt_subslice_def)

lemma read_groups_fmt:
  assumes "groups_end s" and "length gs \<le> k"
  shows "read_groups 0 k (fmt_subslice gs @ s) = (gs, False, s)"
proof (cases gs)
  case Nil
  then show ?thesis using assms by (simp add: fmt_subslice_def read_groups_end)
next
  case (Cons g gs')
  with assms obtain k' where k: "k = Suc k'" "length gs' \<le> k'" by (cases k) auto
  let ?s = "concat (map (\<lambda>g. CHR '':'' # show_hex (unat g)) gs') @ s"
  have "?s = [] \<or> hd ?s = CHR '':''"
    using groups_end_colon[OF assms(1)] by (cases gs') auto
  from read_groups_one[OF this, of 0 k' g] read_groups_tail[OF assms(1) k(2), of 1] Cons k
  show ?thesis by (simp add: fmt_subslice_Cons)
qed

lemma zero_runs_spec:
  assumes "ss = pre @ suf" and "length pre = i"
    and "cl = 0 \<or> cs + cl = i" and "\<And>j. cs \<le> j \<Longrightarrow> j < cs + cl \<Longrightarrow> ss ! j = 0"
    and "ls + ll \<le> i" and "\<And>j. ls \<le> j \<Longrightarrow> j < ls + ll \<Longrightarrow> ss ! j = 0"
    and "zero_runs i (cs, cl) (ls, ll) suf = (st, len)"
  shows "st + len \<le> length ss \<and> (\<forall>j. st \<le> j \<longrightarrow> j < st + len \<longrightarrow> ss ! j = 0)"
  using assms
proof (induction suf arbitrary: i pre cs cl ls ll)
  case Nil
  then show ?case by auto
next
  case (Cons s suf)
  have ssi: "ss ! i = s" using Cons.prems(1,2) by (simp add: nth_append)
  have pre': "ss = (pre @ [s]) @ suf" "length (pre @ [s]) = i + 1" using Cons.prems(1,2) by auto
  show ?case
  proof (cases "s = 0")
    case True
    define cs' where "cs' = (if cl = 0 then i else cs)"
    have end': "cs' + (cl + 1) = i + 1" using Cons.prems(3) by (auto simp: cs'_def)
    have zero': "ss ! j = 0" if "cs' \<le> j" "j < cs' + (cl + 1)" for j
    proof (cases "j = i")
      case True
      with ssi \<open>s = 0\<close> show ?thesis by simp
    next
      case False
      with that end' have "cl \<noteq> 0" "cs \<le> j" "j < cs + cl" by (auto simp: cs'_def split: if_splits)
      with Cons.prems(4) show ?thesis by blast
    qed
    obtain ls' ll' where l': "(if cl + 1 > ll then (cs', cl + 1) else (ls, ll)) = (ls', ll')"
      by (metis surj_pair)
    have "ls' + ll' \<le> i + 1" and "\<And>j. ls' \<le> j \<Longrightarrow> j < ls' + ll' \<Longrightarrow> ss ! j = 0"
      using l' end' zero' Cons.prems(5,6) by (auto split: if_splits)
    moreover have "zero_runs (i + 1) (cs', cl + 1) (ls', ll') suf = (st, len)"
      using Cons.prems(7) True by (simp add: Let_def cs'_def flip: l') (auto split: if_splits)
    ultimately show ?thesis using Cons.IH[OF pre'] end' zero' by blast
  next
    case False
    then have "zero_runs (i + 1) (0, 0) (ls, ll) suf = (st, len)" using Cons.prems(7) by simp
    with Cons.IH[OF pre', of 0 0 ls ll] Cons.prems(5,6) show ?thesis by simp
  qed
qed

lemma zero_runs_split:
  assumes "zero_runs 0 (0, 0) (0, 0) ss = (st, len)"
  shows "ss = take st ss @ replicate len 0 @ drop (st + len) ss" and "st + len \<le> length ss"
proof -
  have *: "st + len \<le> length ss" "\<And>j. st \<le> j \<Longrightarrow> j < st + len \<Longrightarrow> ss ! j = 0"
    using zero_runs_spec[of ss "[]" ss 0 0 0 0 0 st len] assms by auto
  then have "take len (drop st ss) = replicate len 0"
    by (intro nth_equalityI) auto
  then show "ss = take st ss @ replicate len 0 @ drop (st + len) ss"
    by (metis add.commute append_take_drop_id drop_drop)
  show "st + len \<le> length ss" by (fact *)
qed

lemma seg_recombine:
  "push_bit 8 (ucast (ucast (drop_bit 8 x) :: 8 word)) OR ucast (ucast x :: 8 word) = (x :: 16 word)"
  by (rule bit_word_eqI) (auto simp: bit_simps)

lemma ipv6_of_segments_segments [simp]: "ipv6_of_segments (segments a) = Some a"
  by (cases a) simp

lemma length_segments [simp]: "length (segments a) = 8"
  by (cases a) simp

lemma read_groups_v4:
  "0 < k \<Longrightarrow> read_groups (Suc i) (Suc k) (CHR '':'' # show_ipv4 (ipv4_of_segs x y)) = ([x, y], True, [])"
  using read_ipv4_show[of "[]" "ipv4_of_segs x y"]
  by (simp add: read_sep_def) (simp add: ipv4_of_segs_def seg_recombine)

lemma read_mapped:
  "read_groups 0 7 (''ffff:'' @ show_ipv4 (ipv4_of_segs x y)) = ([0xFFFF, x, y], True, [])"
proof -
  let ?v = "CHR '':'' # show_ipv4 (ipv4_of_segs x y)"
  have "show_hex (unat (0xFFFF :: 16 word)) = ''ffff''" by (simp add: show_hex_four digit_char_def)
  moreover have "read_groups 0 7 (show_hex (unat (0xFFFF :: 16 word)) @ ?v) =
      (let (gs, b, s') = read_groups 1 6 ?v in (0xFFFF # gs, b, s'))"
    using read_groups_one[of ?v 0 6 "0xFFFF"] by simp
  moreover have "read_groups 1 6 ?v = ([x, y], True, [])"
    using read_groups_v4[of 5 0 x y] by simp
  ultimately show ?thesis by simp
qed

lemma read_ipv6_show: "read_ipv6 (show_ipv6 a) = Some (a, [])"
proof -
  let ?ss = "segments a"
  consider (mapped) "take 6 ?ss = [0, 0, 0, 0, 0, 0xFFFF]"
    | (plain) "take 6 ?ss \<noteq> [0, 0, 0, 0, 0, 0xFFFF]" by blast
  then show ?thesis
  proof cases
    case mapped
    let ?v4 = "show_ipv4 (ipv4_of_segs (?ss ! 6) (?ss ! 7))"
    have ss: "?ss = [0, 0, 0, 0, 0, 0xFFFF, ?ss ! 6, ?ss ! 7]" using mapped by (cases a) simp
    have h: "read_groups 0 8 (''::ffff:'' @ ?v4) = ([], False, ''::ffff:'' @ ?v4)"
      by (intro read_groups_end) (simp add: groups_end_def)
    have rep: "replicate (8 - 0 - 3) 0 @ [0xFFFF, ?ss ! 6, ?ss ! 7] = ?ss"
      by (subst (3) ss) (simp add: numeral_eq_Suc)
    have "show_ipv6 a = ''::ffff:'' @ ?v4" using mapped by (simp add: show_ipv6_def Let_def)
    with h read_mapped[of "?ss ! 6" "?ss ! 7"] rep show ?thesis by (simp add: read_ipv6_def)
  next
    case plain
    obtain st len where z: "zero_runs 0 (0, 0) (0, 0) ?ss = (st, len)" by (metis surj_pair)
    note zs = zero_runs_split[OF z]
    show ?thesis
    proof (cases "len > 1")
      case True
      let ?hd = "take st ?ss" and ?tl = "drop (st + len) ?ss"
      have show_eq: "show_ipv6 a = fmt_subslice ?hd @ ''::'' @ fmt_subslice ?tl"
        using plain z True by (simp add: show_ipv6_def Let_def)
      have len_hd: "length ?hd = st" "length ?tl = 8 - (st + len)" using zs(2) by auto
      have h: "read_groups 0 8 (fmt_subslice ?hd @ ''::'' @ fmt_subslice ?tl) =
          (?hd, False, ''::'' @ fmt_subslice ?tl)"
        using zs(2) by (intro read_groups_fmt) (auto simp: groups_end_def)
      have t: "read_groups 0 (8 - (st + 1)) (fmt_subslice ?tl) = (?tl, False, [])"
        using read_groups_fmt[of "[]" ?tl "8 - (st + 1)"] len_hd True by (simp add: groups_end_def)
      have "8 - st - length ?tl = len" using zs(2) len_hd by simp
      with h t show_eq len_hd zs True show ?thesis
        by (simp add: read_ipv6_def flip: zs(1))
    next
      case False
      then have "show_ipv6 a = fmt_subslice ?ss" using plain z by (simp add: show_ipv6_def Let_def)
      moreover have "read_groups 0 8 (fmt_subslice ?ss @ []) = (?ss, False, [])"
        by (intro read_groups_fmt) (auto simp: groups_end_def)
      ultimately show ?thesis by (simp add: read_ipv6_def)
    qed
  qed
qed

lemma show_ipv6_no_dot_head: "read_ipv4 (show_ipv6 a) = None"
proof -
  let ?ss = "segments a"
  obtain st len where z: "zero_runs 0 (0, 0) (0, 0) ?ss = (st, len)" by (metis surj_pair)
  have fmt: "read_ipv4 (fmt_subslice gs @ s) = None" if "groups_end s" for gs s
  proof (cases gs)
    case Nil
    with groups_end_colon[OF that] show ?thesis by (simp add: fmt_subslice_def read_ipv4_stop)
  next
    case (Cons g gs')
    let ?s = "concat (map (\<lambda>g. CHR '':'' # show_hex (unat g)) gs') @ s"
    have "?s = [] \<or> hd ?s = CHR '':''" using groups_end_colon[OF that] by (cases gs') auto
    then show ?thesis by (simp add: Cons fmt_subslice_Cons read_ipv4_hex)
  qed
  show ?thesis
    using fmt[of "''::'' @ fmt_subslice (drop (st + len) ?ss)" "take st ?ss"] fmt[of "[]" ?ss] z
    by (auto simp: show_ipv6_def Let_def groups_end_def read_ipv4_stop)
qed

lemma parse_ip_show: "parse_ip (show_ip a) = Ok a"
proof (cases a)
  case (V4 b)
  then show ?thesis by (simp add: parse_ip_show_v4)
next
  case (V6 b)
  then show ?thesis by (simp add: parse_ip_def read_ip_def show_ipv6_no_dot_head read_ipv6_show)
qed

section \<open>Networks: the ipnet crate\<close>

datatype ip_net = NetV4 ipv4_addr "8 word" | NetV6 ipv6_addr "8 word"

fun net_addr :: "ip_net \<Rightarrow> ip_addr" where
  "net_addr (NetV4 a _) = V4 a"
| "net_addr (NetV6 a _) = V6 a"

fun net_prefix_len :: "ip_net \<Rightarrow> 8 word" where
  "net_prefix_len (NetV4 _ p) = p"
| "net_prefix_len (NetV6 _ p) = p"

fun mk_net :: "ip_addr \<Rightarrow> 8 word \<Rightarrow> ip_net" where
  "mk_net (V4 a) p = NetV4 a p"
| "mk_net (V6 a) p = NetV6 a p"

fun max_prefix :: "ip_addr \<Rightarrow> nat" where
  "max_prefix (V4 _) = 32"
| "max_prefix (V6 _) = 128"

abbreviation net_is_ipv6 :: "ip_net \<Rightarrow> bool" where
  "net_is_ipv6 n \<equiv> is_ipv6 (net_addr n)"

record ipnet_lib =
  ipnet_new :: "ip_addr \<Rightarrow> 8 word \<Rightarrow> (string, ip_net) res"
  ipnet_network :: "ip_net \<Rightarrow> ip_addr"
  ipnet_broadcast :: "ipv4_addr \<Rightarrow> 8 word \<Rightarrow> ipv4_addr"
  ipnet_to_string :: "ip_net \<Rightarrow> string"
  ipnet_from_str :: "string \<Rightarrow> (string, ip_net) res"

locale ipnet_laws =
  fixes lib :: ipnet_lib
  assumes new_ok: "unat p \<le> max_prefix ip \<Longrightarrow> ipnet_new lib ip p = Ok (mk_net ip p)"
    and new_err: "max_prefix ip < unat p \<Longrightarrow> \<exists>e. ipnet_new lib ip p = Err e"
    and to_string_def: "ipnet_to_string lib n = show_ip (net_addr n) @ ''/'' @ show_nat (unat (net_prefix_len n))"
    and from_str_ok: "unat p \<le> max_prefix ip \<Longrightarrow>
          ipnet_from_str lib (show_ip ip @ ''/'' @ show_nat (unat p)) = Ok (mk_net ip p)"
    and from_str_err: "max_prefix ip < unat p \<Longrightarrow>
          \<exists>e. ipnet_from_str lib (show_ip ip @ ''/'' @ show_nat (unat p)) = Err e"
    and network_family: "is_ipv6 (ipnet_network lib n) = net_is_ipv6 n"
begin

lemma new_Ok_iff: "ipnet_new lib ip p = Ok n \<longleftrightarrow> unat p \<le> max_prefix ip \<and> n = mk_net ip p"
  using new_ok[of p ip] new_err[of ip p] by (cases "unat p \<le> max_prefix ip") auto

lemma new_not_panic: "ipnet_new lib ip p \<noteq> Panic"
  using new_ok[of p ip] new_err[of ip p] by (cases "unat p \<le> max_prefix ip") auto

lemma to_string_roundtrip:
  "unat (net_prefix_len n) \<le> max_prefix (net_addr n) \<Longrightarrow>
     ipnet_from_str lib (ipnet_to_string lib n) = Ok n"
  using from_str_ok[of "net_prefix_len n" "net_addr n"] by (cases n) (simp_all add: to_string_def)

end

lemma mk_net_simps [simp]:
  "net_addr (mk_net ip p) = ip" "net_prefix_len (mk_net ip p) = p"
  "mk_net (net_addr n) (net_prefix_len n) = n"
  by (cases ip; simp)+ (cases n; simp)

subsection \<open>An executable instance\<close>

definition mask_bits :: "nat \<Rightarrow> nat \<Rightarrow> nat \<Rightarrow> 'a::len word" where
  "mask_bits width i p = push_bit (width - min width (p - width * i)) (- 1)"

fun mask_net :: "ip_net \<Rightarrow> ip_addr" where
  "mask_net (NetV4 (Ipv4Addr a b c d) p) =
     (let m = (\<lambda>i. mask_bits 8 i (unat p))
      in V4 (Ipv4Addr (a AND m 0) (b AND m 1) (c AND m 2) (d AND m 3)))"
| "mask_net (NetV6 (Ipv6Addr a b c d e f g h) p) =
     (let m = (\<lambda>i. mask_bits 16 i (unat p))
      in V6 (Ipv6Addr (a AND m 0) (b AND m 1) (c AND m 2) (d AND m 3)
                      (e AND m 4) (f AND m 5) (g AND m 6) (h AND m 7)))"

fun broadcast_ref :: "ipv4_addr \<Rightarrow> 8 word \<Rightarrow> ipv4_addr" where
  "broadcast_ref (Ipv4Addr a b c d) p =
     (let m = (\<lambda>i. NOT (mask_bits 8 i (unat p)))
      in Ipv4Addr (a OR m 0) (b OR m 1) (c OR m 2) (d OR m 3))"

definition new_ref :: "ip_addr \<Rightarrow> 8 word \<Rightarrow> (string, ip_net) res" where
  "new_ref ip p = (if unat p \<le> max_prefix ip then Ok (mk_net ip p) else Err ''invalid IP prefix length'')"

definition to_string_ref :: "ip_net \<Rightarrow> string" where
  "to_string_ref n = show_ip (net_addr n) @ ''/'' @ show_nat (unat (net_prefix_len n))"

definition from_str_ref :: "string \<Rightarrow> (string, ip_net) res" where
  "from_str_ref s =
     (case split_by (\<lambda>c. c = CHR ''/'') s of
        [a, p] \<Rightarrow>
          bind_res (parse_ip a) (\<lambda>ip.
          bind_res (map_err show_parse_int_error (parse_uint 10 255 p)) (\<lambda>n. new_ref ip (word_of_nat n)))
      | _ \<Rightarrow> Err ''invalid IP address syntax'')"

definition ipnet_ref :: ipnet_lib where
  "ipnet_ref = \<lparr>ipnet_new = new_ref, ipnet_network = mask_net, ipnet_broadcast = broadcast_ref,
                ipnet_to_string = to_string_ref, ipnet_from_str = from_str_ref\<rparr>"

lemma ipnet_ref_simps [simp]:
  "ipnet_new ipnet_ref = new_ref" "ipnet_network ipnet_ref = mask_net"
  "ipnet_broadcast ipnet_ref = broadcast_ref" "ipnet_to_string ipnet_ref = to_string_ref"
  "ipnet_from_str ipnet_ref = from_str_ref"
  by (simp_all add: ipnet_ref_def)

text \<open>The characters a printed address is made of.\<close>

definition addr_char :: "char \<Rightarrow> bool" where
  "addr_char c \<longleftrightarrow> to_digit 16 c \<noteq> None \<or> c = CHR ''.'' \<or> c = CHR '':''"

lemma show_nat_addr_chars: "list_all addr_char (show_nat n)"
  using show_nat_chars by (fastforce simp: list_all_iff addr_char_def to_digit_digit_char)

lemma show_hex_addr_chars: "list_all addr_char (show_hex n)"
  using show_hex_digits by (auto simp: list_all_iff addr_char_def)

lemma addr_char_sep [simp]: "addr_char CHR ''.''" "addr_char CHR '':''" "addr_char CHR ''f''"
  by (simp_all add: addr_char_def to_digit_def)

lemma show_ipv4_addr_chars: "list_all addr_char (show_ipv4 a)"
  by (cases a) (simp add: show_nat_addr_chars)

lemma fmt_subslice_addr_chars: "list_all addr_char (fmt_subslice gs)"
proof (cases gs)
  case Nil
  then show ?thesis by (simp add: fmt_subslice_def)
next
  case (Cons g gs')
  have "list_all addr_char (concat (map (\<lambda>h. CHR '':'' # show_hex (unat h)) hs))" for hs :: "16 word list"
    by (induction hs) (auto simp: show_hex_addr_chars)
  with Cons show ?thesis by (simp add: fmt_subslice_Cons show_hex_addr_chars)
qed

lemma show_ip_addr_chars: "list_all addr_char (show_ip a)"
  by (cases a)
    (auto simp: show_ipv4_addr_chars fmt_subslice_addr_chars show_ipv6_def Let_def split: prod.splits)

lemma show_nat_no_slash: "CHR ''/'' \<notin> set (show_nat n)"
  using show_nat_addr_chars[of n] by (auto simp: list_all_iff addr_char_def to_digit_def)

lemma show_ip_no_slash: "CHR ''/'' \<notin> set (show_ip a)"
  using show_ip_addr_chars[of a] by (auto simp: list_all_iff addr_char_def to_digit_def)

lemma from_str_ref_show: "from_str_ref (show_ip ip @ ''/'' @ show_nat (unat p)) = new_ref ip p"
proof -
  have "split_by (\<lambda>c. c = CHR ''/'') (show_ip ip @ CHR ''/'' # show_nat (unat p)) =
      [show_ip ip, show_nat (unat p)]"
    using show_ip_no_slash[of ip] show_nat_no_slash[of "unat p"]
    by (subst split_by_append_sep) (auto intro!: split_by_clean)
  moreover have "unat p \<le> 255" using unat_u8_less[of p] by linarith
  ultimately show ?thesis by (simp add: from_str_ref_def parse_ip_show parse_uint_show_nat)
qed

lemma mask_net_family: "is_ipv6 (mask_net n) = net_is_ipv6 n"
  by (cases n rule: mask_net.cases) (simp_all add: Let_def)

interpretation ipnet: ipnet_laws ipnet_ref
  by unfold_locales (auto simp: new_ref_def to_string_ref_def from_str_ref_show[simplified] mask_net_family)

end
