(* ===== verification/Net_Types.thy ===== *)
theory Net_Types
  imports Std_Net
begin

text \<open>
  The data the program is configured with and the data it returns:
  \<^verbatim>\<open>src/network/types.rs\<close>, \<^verbatim>\<open>src/network/internal_types.rs\<close> and the constants of
  \<^verbatim>\<open>src/network/constants.rs\<close>.  Each struct is a record with the source's fields (prefixed,
  since record fields are global names).  A hash map that is only looked up is a map; the map
  \<^verbatim>\<open>network_info\<close>, which the commands iterate over, is the list of its entries in
  iteration order.
\<close>

section \<open>Configuration\<close>

record lease_range =
  lr_end_ip :: "string option"
  lr_start_ip :: "string option"

record subnet =
  sub_gateway :: "ip_addr option"
  sub_lease_range :: "lease_range option"
  sub_subnet :: ip_net

record network =
  n_dns_enabled :: bool
  n_driver :: string
  n_id :: string
  n_internal :: bool
  n_ipv6_enabled :: bool
  n_name :: string
  n_network_interface :: "string option"
  n_options :: "(string \<rightharpoonup> string) option"
  n_ipam_options :: "(string \<rightharpoonup> string) option"
  n_subnets :: "subnet list option"
  n_network_dns_servers :: "ip_addr list option"

record per_network_options =
  pn_aliases :: "string list option"
  pn_interface_name :: string
  pn_static_ips :: "ip_addr list option"
  pn_static_mac :: "string option"

record port_mapping =
  pm_container_port :: "16 word"
  pm_host_ip :: string
  pm_host_port :: "16 word"
  pm_protocol :: string
  pm_range :: "16 word"

record network_options =
  no_container_id :: string
  no_container_name :: string
  no_networks :: "string \<rightharpoonup> per_network_options"
  no_network_info :: "(string \<times> network) list"
  no_port_mappings :: "port_mapping list option"
  no_dns_servers :: "ip_addr list option"

section \<open>Results\<close>

record net_address =
  na_gateway :: "ip_addr option"
  na_ipnet :: ip_net

record net_interface =
  ni_mac_address :: string
  ni_subnets :: "net_address list option"

record status_block =
  sb_dns_search_domains :: "string list option"
  sb_dns_server_ips :: "ip_addr list option"
  sb_interfaces :: "(string \<rightharpoonup> net_interface) option"

record network_plugin_exec =
  npe_container_id :: string
  npe_container_name :: string
  npe_port_mappings :: "port_mapping list option"
  npe_network :: network
  npe_network_options :: per_network_options

section \<open>Internal types\<close>

record setup_network =
  sn_net :: network
  sn_network_hash_name :: string
  sn_isolation :: bool

record teardown_network =
  tn_config :: setup_network
  tn_complete_teardown :: bool

record port_forward_config =
  pf_container_id :: string
  pf_port_mappings :: "port_mapping list option"
  pf_network_name :: string
  pf_network_hash_name :: string
  pf_container_ip_v4 :: "ip_addr option"
  pf_subnet_v4 :: "ip_net option"
  pf_container_ip_v6 :: "ip_addr option"
  pf_subnet_v6 :: "ip_net option"
  pf_dns_port :: "16 word"
  pf_dns_server_ips :: "ip_addr list"

record teardown_port_forward =
  tpf_config :: port_forward_config
  tpf_complete_teardown :: bool

record ipam_addresses =
  ia_container_addresses :: "ip_net list"
  ia_dhcp_enabled :: bool
  ia_gateway_addresses :: "ip_net list"
  ia_ipv6_enabled :: bool
  ia_net_addresses :: "net_address list"
  ia_nameservers :: "ip_addr list"

section \<open>Constants\<close>

definition PODMAN_DEFAULT_SEARCH_DOMAIN :: string where
  "PODMAN_DEFAULT_SEARCH_DOMAIN = ''dns.podman''"

definition IPAM_HOSTLOCAL :: string where "IPAM_HOSTLOCAL = ''host-local''"
definition IPAM_DHCP :: string where "IPAM_DHCP = ''dhcp''"
definition IPAM_NONE :: string where "IPAM_NONE = ''none''"

definition DRIVER_BRIDGE :: string where "DRIVER_BRIDGE = ''bridge''"
definition DRIVER_IPVLAN :: string where "DRIVER_IPVLAN = ''ipvlan''"
definition DRIVER_MACVLAN :: string where "DRIVER_MACVLAN = ''macvlan''"

definition OPTION_ISOLATE :: string where "OPTION_ISOLATE = ''isolate''"
definition OPTION_MTU :: string where "OPTION_MTU = ''mtu''"
definition OPTION_MODE :: string where "OPTION_MODE = ''mode''"
definition OPTION_METRIC :: string where "OPTION_METRIC = ''metric''"

definition DEFAULT_METRIC :: "32 word" where "DEFAULT_METRIC = 100"

definition NO_CONTAINER_INTERFACE_ERROR :: string where
  "NO_CONTAINER_INTERFACE_ERROR = ''no container interface name given''"

lemmas const_defs =
  PODMAN_DEFAULT_SEARCH_DOMAIN_def IPAM_HOSTLOCAL_def IPAM_DHCP_def IPAM_NONE_def
  DRIVER_BRIDGE_def DRIVER_IPVLAN_def DRIVER_MACVLAN_def
  OPTION_ISOLATE_def OPTION_MTU_def OPTION_MODE_def OPTION_METRIC_def
  DEFAULT_METRIC_def NO_CONTAINER_INTERFACE_ERROR_def

end
