(* ===== verification/Varktables.thy ===== *)
theory Varktables
  imports Errors Net_Types "HOL-Library.AList"
begin

text \<open>
  \<^verbatim>\<open>src/firewall/varktables\<close>: chains and rules as data, and the functions that bring them
  into the kernel's tables through the \<^verbatim>\<open>iptables\<close> crate.

  The crate is the record \<open>iptables\<close>, a parameter; the first argument of each operation
  is the connection, IPv6 or not.  What the program relies on is the locale
  \<open>iptables_laws\<close>: there is a table contents \<open>tab\<close>, rules are compared after
  the command has parsed them (\<open>norm\<close>), a failed command changes nothing.  Inside the
  locale the functions of this theory are shown to implement operations on table contents
  (\<open>put_rule\<close>, \<open>drop_rule\<close>, \<open>make_chain\<close>).
\<close>

section \<open>The iptables command\<close>

datatype chain_key = Key (key_v6: bool) (key_table: string) (key_chain: string)

type_synonym 'r tables = "chain_key \<Rightarrow> 'r list option"

record 'w iptables =
  ipt_exists :: "bool \<Rightarrow> string \<Rightarrow> string \<Rightarrow> string \<Rightarrow> ('w, string, bool) comp"
  ipt_append :: "bool \<Rightarrow> string \<Rightarrow> string \<Rightarrow> string \<Rightarrow> ('w, string, unit) comp"
  ipt_insert :: "bool \<Rightarrow> string \<Rightarrow> string \<Rightarrow> string \<Rightarrow> int \<Rightarrow> ('w, string, unit) comp"
  ipt_delete :: "bool \<Rightarrow> string \<Rightarrow> string \<Rightarrow> string \<Rightarrow> ('w, string, unit) comp"
  ipt_new_chain :: "bool \<Rightarrow> string \<Rightarrow> string \<Rightarrow> ('w, string, unit) comp"
  ipt_delete_chain :: "bool \<Rightarrow> string \<Rightarrow> string \<Rightarrow> ('w, string, unit) comp"
  ipt_list :: "bool \<Rightarrow> string \<Rightarrow> string \<Rightarrow> ('w, string, string list) comp"
  ipt_list_chains :: "bool \<Rightarrow> string \<Rightarrow> ('w, string, string list) comp"

section \<open>Helpers\<close>

definition append_unique :: "'w iptables \<Rightarrow> bool \<Rightarrow> string \<Rightarrow> string \<Rightarrow> string \<Rightarrow> ('w, unit) ncomp" where
  "append_unique ipt driver table chain rule =
     bindc (map_errc Message (ipt_exists ipt driver table chain rule)) (\<lambda>exists.
       if exists then retc ()
       else map_errc (\<lambda>e. Message (''unable to append rule '' @ [CHR 0x27] @ rule @ [CHR 0x27] @
                '' to table '' @ [CHR 0x27] @ table @ [CHR 0x27] @ '': '' @ e))
              (ipt_append ipt driver table chain rule))"

definition chain_exists :: "'w iptables \<Rightarrow> bool \<Rightarrow> string \<Rightarrow> string \<Rightarrow> ('w, bool) ncomp" where
  "chain_exists ipt driver table chain =
     bindc (map_errc Message (ipt_list_chains ipt driver table)) (\<lambda>c. retc (list_ex (\<lambda>i. i = chain) c))"

definition add_chain_unique :: "'w iptables \<Rightarrow> bool \<Rightarrow> string \<Rightarrow> string \<Rightarrow> ('w, unit) ncomp" where
  "add_chain_unique ipt driver table new_chain =
     bindc (chain_exists ipt driver table new_chain) (\<lambda>exists.
       if exists then retc () else map_errc Message (ipt_new_chain ipt driver table new_chain))"

definition remove_if_rule_exists ::
  "'w iptables \<Rightarrow> bool \<Rightarrow> string \<Rightarrow> string \<Rightarrow> string \<Rightarrow> ('w, unit) ncomp" where
  "remove_if_rule_exists ipt driver table chain rule =
     bindc (map_errc Message (ipt_exists ipt driver table chain rule)) (\<lambda>exists.
       if \<not> exists then retc ()
       else map_errc (\<lambda>e. Message (''failed to remove rule '' @ [CHR 0x27] @ rule @ [CHR 0x27] @
                '' from table '' @ [CHR 0x27] @ chain @ [CHR 0x27] @ '': '' @ e))
              (ipt_delete ipt driver table chain rule))"

section \<open>Chains and rules\<close>

datatype teardown_policy = OnComplete | Never

record vark_rule =
  vr_rule :: string
  vr_td_policy :: "teardown_policy option"
  vr_position :: "int option"

record vark_chain =
  vc_chain_name :: string
  vc_create :: bool
  vc_driver :: bool
  vc_rules :: "vark_rule list"
  vc_table :: string
  vc_td_policy :: "teardown_policy option"

definition vark_rule_new :: "string \<Rightarrow> teardown_policy option \<Rightarrow> vark_rule" where
  "vark_rule_new rule policy = \<lparr>vr_rule = rule, vr_td_policy = policy, vr_position = None\<rparr>"

definition vark_chain_new :: "bool \<Rightarrow> string \<Rightarrow> string \<Rightarrow> teardown_policy option \<Rightarrow> vark_chain" where
  "vark_chain_new driver table chain_name td_policy =
     \<lparr>vc_chain_name = chain_name, vc_create = False, vc_driver = driver, vc_rules = [],
      vc_table = table, vc_td_policy = td_policy\<rparr>"

definition build_rule :: "vark_rule \<Rightarrow> vark_chain \<Rightarrow> vark_chain" where
  "build_rule rule c = c\<lparr>vc_rules := vc_rules c @ [rule]\<rparr>"

definition add_rule :: "'w iptables \<Rightarrow> vark_chain \<Rightarrow> vark_rule \<Rightarrow> ('w, unit) ncomp" where
  "add_rule ipt c rule =
     (case vr_position rule of
        None \<Rightarrow> append_unique ipt (vc_driver c) (vc_table c) (vc_chain_name c) (vr_rule rule)
      | Some pos \<Rightarrow>
          bindc (map_errc Message (ipt_exists ipt (vc_driver c) (vc_table c) (vc_chain_name c) (vr_rule rule)))
            (\<lambda>exists. if \<not> exists
                      then map_errc Message
                             (ipt_insert ipt (vc_driver c) (vc_table c) (vc_chain_name c) (vr_rule rule) pos)
                      else retc ()))"

definition add_rules :: "'w iptables \<Rightarrow> vark_chain \<Rightarrow> ('w, unit) ncomp" where
  "add_rules ipt c = for_each (add_rule ipt c) (vc_rules c)"

definition skips_removal :: "bool \<Rightarrow> vark_rule \<Rightarrow> bool" where
  "skips_removal complete_teardown rule =
     (case vr_td_policy rule of
        None \<Rightarrow> False
      | Some policy \<Rightarrow> policy = Never \<or> \<not> complete_teardown)"

definition remove_rules :: "'w iptables \<Rightarrow> bool \<Rightarrow> vark_chain \<Rightarrow> ('w, unit) ncomp" where
  "remove_rules ipt complete_teardown c =
     for_each (\<lambda>rule. if skips_removal complete_teardown rule then retc ()
        else remove_if_rule_exists ipt (vc_driver c) (vc_table c) (vc_chain_name c) (vr_rule rule)) (vc_rules c)"

definition remove_chain :: "'w iptables \<Rightarrow> vark_chain \<Rightarrow> ('w, unit) ncomp" where
  "remove_chain ipt c =
     bindc (map_errc Message (ipt_list ipt (vc_driver c) (vc_table c) (vc_chain_name c))) (\<lambda>remaining_rules.
       if length remaining_rules \<le> 1
       then map_errc Message (ipt_delete_chain ipt (vc_driver c) (vc_table c) (vc_chain_name c))
       else retc ())"

definition create_network_chains :: "'w iptables \<Rightarrow> vark_chain list \<Rightarrow> ('w, unit) ncomp" where
  "create_network_chains ipt cs =
     seqc (for_each (\<lambda>c. if vc_create c then add_chain_unique ipt (vc_driver c) (vc_table c) (vc_chain_name c)
                         else retc ()) cs)
          (for_each (add_rules ipt) cs)"

section \<open>The chains of a network\<close>

definition get_network_chains ::
  "ipnet_lib \<Rightarrow> bool \<Rightarrow> ip_net \<Rightarrow> string \<Rightarrow> bool \<Rightarrow> string \<Rightarrow> bool \<Rightarrow> vark_chain list" where
  "get_network_chains lib conn network network_hash_name is_v6 interface_name isolation =
     (let net = ipnet_to_string lib network;
          prefixed = ''NETAVARK-'' @ network_hash_name;
          multicast_dest = (if is_v6 then ''ff00::/8'' else ''224.0.0.0/4'');
          hashed_network_chain =
            build_rule (vark_rule_new (''! -d '' @ multicast_dest @ '' -j MASQUERADE'') (Some OnComplete))
           (build_rule (vark_rule_new (''-d '' @ net @ '' -j ACCEPT'') (Some OnComplete))
             ((vark_chain_new conn ''nat'' prefixed (Some OnComplete))\<lparr>vc_create := True\<rparr>));
          postrouting_chain =
            build_rule (vark_rule_new (''-s '' @ net @ '' -j '' @ prefixed) (Some OnComplete))
              (vark_chain_new conn ''nat'' ''POSTROUTING'' None);
          forward_chain = vark_chain_new conn ''filter'' ''FORWARD'' None;
          isolation_chain_1 =
            build_rule \<lparr>vr_rule = ''-i '' @ interface_name @ '' ! -o '' @ interface_name @ '' -j NETAVARK_ISOLATION_2'',
                        vr_td_policy = Some OnComplete, vr_position = Some 1\<rparr>
              ((vark_chain_new conn ''filter'' ''NETAVARK_ISOLATION_1'' None)\<lparr>vc_create := True\<rparr>);
          isolation_chain_2 =
            build_rule \<lparr>vr_rule = ''-o '' @ interface_name @ '' -j DROP'',
                        vr_td_policy = Some OnComplete, vr_position = Some 1\<rparr>
              ((vark_chain_new conn ''filter'' ''NETAVARK_ISOLATION_2'' None)\<lparr>vc_create := True\<rparr>);
          forward_chain =
            (if isolation
             then build_rule \<lparr>vr_rule = ''-j NETAVARK_ISOLATION_1'', vr_td_policy = Some OnComplete,
                              vr_position = Some 1\<rparr> forward_chain
             else forward_chain);
          ind = (if isolation then 2 else 1);
          forward_chain =
            build_rule \<lparr>vr_rule = ''-m comment --comment '' @ [CHR 0x27] @ ''netavark firewall plugin rules'' @
                          [CHR 0x27] @ '' -j NETAVARK_FORWARD'',
                        vr_td_policy = Some Never, vr_position = Some ind\<rparr> forward_chain;
          netavark_forward_chain =
            build_rule (vark_rule_new (''-s '' @ net @ '' -j ACCEPT'') (Some OnComplete))
           (build_rule (vark_rule_new (''-d '' @ net @ '' -m conntrack --ctstate RELATED,ESTABLISHED -j ACCEPT'') (Some OnComplete))
             ((vark_chain_new conn ''filter'' ''NETAVARK_FORWARD'' None)\<lparr>vc_create := True\<rparr>))
      in [hashed_network_chain, postrouting_chain]
         @ (if isolation then [isolation_chain_1, isolation_chain_2] else [])
         @ [forward_chain, netavark_forward_chain])"

section \<open>The chains of forwarded ports\<close>

text \<open>
  The host address of a mapping: \<open>None\<close> skips the mapping (it belongs to the other
  address family); \<open>Some None\<close> is a mapping for every address.
\<close>

definition host_ip_of :: "bool \<Rightarrow> port_mapping \<Rightarrow> ip_addr option option nres" where
  "host_ip_of is_v6 i =
     (if pm_host_ip i = [] then Ok (Some None)
      else case parse_ip (pm_host_ip i) of
        Ok (V4 v4) \<Rightarrow>
          if is_v6 then Ok None
          else if \<not> v4_unspecified v4 then Ok (Some (Some (V4 v4))) else Ok (Some None)
      | Ok (V6 v6) \<Rightarrow>
          if \<not> is_v6 then Ok None
          else if \<not> v6_unspecified v6 then Ok (Some (Some (V6 v6))) else Ok (Some None)
      | Err _ \<Rightarrow>
          Err (Message (''invalid host ip '' @ [CHR 0x22] @ pm_host_ip i @ [CHR 0x22] @
                 '' provided for port '' @ show_nat (unat (pm_host_port i))))
      | Panic \<Rightarrow> Panic
      | Hang \<Rightarrow> Hang)"

text \<open>Port numbers are \<^verbatim>\<open>u16\<close>: the end of a range wraps around.\<close>

definition range_end :: "16 word \<Rightarrow> 16 word \<Rightarrow> 16 word" where
  "range_end port rng = port + (rng - 1)"

definition show_port :: "16 word \<Rightarrow> string" where
  "show_port p = show_nat (unat p)"

definition host_port_text :: "port_mapping \<Rightarrow> string" where
  "host_port_text i =
     (if 1 < pm_range i then show_port (pm_host_port i) @ '':'' @ show_port (range_end (pm_host_port i) (pm_range i))
      else show_port (pm_host_port i))"

definition container_port_text :: "port_mapping \<Rightarrow> string" where
  "container_port_text i =
     (if 1 < pm_range i
      then show_port (pm_container_port i) @ ''-'' @ show_port (range_end (pm_container_port i) (pm_range i)) @
           ''/'' @ show_port (pm_host_port i)
      else show_port (pm_container_port i))"

definition bracketed :: "bool \<Rightarrow> ip_addr \<Rightarrow> string" where
  "bracketed is_v6 ip = (if is_v6 then ''['' @ show_ip ip @ '']'' else show_ip ip)"

text \<open>The rules of one mapping: those for the host-port chain and those for the network's own chain.\<close>

definition port_rules ::
  "ipnet_lib \<Rightarrow> port_forward_config \<Rightarrow> ip_addr \<Rightarrow> ip_net \<Rightarrow> bool \<Rightarrow> port_mapping \<Rightarrow>
     (vark_rule list \<times> vark_rule list) nres" where
  "port_rules lib pfwd container_ip network_address is_v6 i =
     bind_res (host_ip_of is_v6 i) (\<lambda>h. case h of
       None \<Rightarrow> Ok ([], [])
     | Some host_ip \<Rightarrow>
         let host_port = host_port_text i;
             dest = (case host_ip of None \<Rightarrow> [] | Some ip \<Rightarrow> '' -d '' @ show_ip ip);
             localhost_ip = (if is_v6 then ''::1'' else ''127.0.0.1'');
             comment = ''-m comment --comment '' @ [CHR 0x27] @ ''dnat name: '' @ pf_network_name pfwd @
                       '' id: '' @ pf_container_id pfwd @ [CHR 0x27]
         in Ok ([vark_rule_new (''-j NETAVARK-DN-'' @ pf_network_hash_name pfwd @ '' -p '' @ pm_protocol i @
                    '' --dport '' @ host_port @ '' '' @ comment) None],
                [vark_rule_new (''-j NETAVARK-HOSTPORT-SETMARK -s '' @ ipnet_to_string lib network_address @
                    '' -p '' @ pm_protocol i @ '' --dport '' @ host_port @ dest) None,
                 vark_rule_new (''-j NETAVARK-HOSTPORT-SETMARK -s '' @ localhost_ip @
                    '' -p '' @ pm_protocol i @ '' --dport '' @ host_port @ dest) None,
                 vark_rule_new (''-j DNAT -p '' @ pm_protocol i @ '' --to-destination '' @
                    bracketed is_v6 container_ip @ '':'' @ container_port_text i @
                    '' --destination-port '' @ host_port @ dest) None]))"

definition dns_rules :: "port_forward_config \<Rightarrow> bool \<Rightarrow> vark_rule list" where
  "dns_rules pfwd is_v6 =
     (if pf_dns_port pfwd \<noteq> 53
      then map (\<lambda>dns_ip. vark_rule_new (''-j DNAT -d '' @ show_ip dns_ip @ '' -p udp --dport 53 --to-destination '' @
                  bracketed is_v6 dns_ip @ '':'' @ show_port (pf_dns_port pfwd)) (Some OnComplete))
             (filter (\<lambda>ip. is_v6 = is_ipv6 ip) (pf_dns_server_ips pfwd))
      else [])"

definition get_port_forwarding_chains ::
  "ipnet_lib \<Rightarrow> bool \<Rightarrow> port_forward_config \<Rightarrow> ip_addr \<Rightarrow> ip_net \<Rightarrow> bool \<Rightarrow> vark_chain list nres" where
  "get_port_forwarding_chains lib conn pfwd container_ip network_address is_v6 =
     (let hashed_dn = (vark_chain_new conn ''nat'' (''NETAVARK-DN-'' @ pf_network_hash_name pfwd) (Some OnComplete))
            \<lparr>vc_create := (pf_port_mappings pfwd \<noteq> None)\<rparr>;
          hostport_dn = (vark_chain_new conn ''nat'' ''NETAVARK-HOSTPORT-DNAT'' None)
            \<lparr>vc_create := True, vc_rules := dns_rules pfwd is_v6\<rparr>;
          local_rule = vark_rule_new ''-j NETAVARK-HOSTPORT-DNAT -m addrtype --dst-type LOCAL'' (Some Never);
          prerouting = build_rule local_rule (vark_chain_new conn ''nat'' ''PREROUTING'' None);
          output_chain = build_rule local_rule (vark_chain_new conn ''nat'' ''OUTPUT'' None);
          setmark = build_rule (vark_rule_new ''-j MARK  --set-xmark 0x2000/0x2000'' (Some Never))
            ((vark_chain_new conn ''nat'' ''NETAVARK-HOSTPORT-SETMARK'' None)\<lparr>vc_create := True\<rparr>);
          masq = build_rule (vark_rule_new (''-j MASQUERADE -m comment --comment '' @ [CHR 0x27] @
                   ''netavark portfw masq mark'' @ [CHR 0x27] @ '' -m mark --mark 0x2000/0x2000'') (Some Never))
            ((vark_chain_new conn ''nat'' ''NETAVARK-HOSTPORT-MASQ'' None)\<lparr>vc_create := True\<rparr>);
          postrouting = build_rule \<lparr>vr_rule = ''-j NETAVARK-HOSTPORT-MASQ '', vr_td_policy = Some Never,
                                    vr_position = Some 1\<rparr> (vark_chain_new conn ''nat'' ''POSTROUTING'' None)
      in bind_res (mapM_res (port_rules lib pfwd container_ip network_address is_v6)
                     (case pf_port_mappings pfwd of None \<Rightarrow> [] | Some ports \<Rightarrow> ports)) (\<lambda>rs.
         Ok [setmark, masq, postrouting,
             hashed_dn\<lparr>vc_rules := concat (map snd rs)\<rparr>,
             hostport_dn\<lparr>vc_rules := vc_rules hostport_dn @ concat (map fst rs)\<rparr>,
             prerouting, output_chain]))"

section \<open>Operations on table contents\<close>

definition insert_at :: "nat \<Rightarrow> 'a \<Rightarrow> 'a list \<Rightarrow> 'a list" where
  "insert_at n x xs = take n xs @ x # drop n xs"

definition put_rule :: "chain_key \<Rightarrow> int option \<Rightarrow> 'r \<Rightarrow> 'r tables \<Rightarrow> 'r tables option" where
  "put_rule k pos r T =
     (case T k of
        None \<Rightarrow> None
      | Some rs \<Rightarrow>
          if r \<in> set rs then Some T
          else (case pos of
              None \<Rightarrow> Some (T(k \<mapsto> rs @ [r]))
            | Some p \<Rightarrow>
                if 1 \<le> p \<and> p \<le> int (length rs) + 1 then Some (T(k \<mapsto> insert_at (nat (p - 1)) r rs)) else None))"

definition make_chain :: "chain_key \<Rightarrow> 'r tables \<Rightarrow> 'r tables option" where
  "make_chain k T = (if T k = None then Some (T(k \<mapsto> [])) else Some T)"

definition drop_rule :: "chain_key \<Rightarrow> 'r \<Rightarrow> 'r tables \<Rightarrow> 'r tables option" where
  "drop_rule k r T = (case T k of None \<Rightarrow> Some T | Some rs \<Rightarrow> Some (T(k \<mapsto> remove1 r rs)))"

definition drop_chain :: "chain_key \<Rightarrow> 'r tables \<Rightarrow> 'r tables option" where
  "drop_chain k T =
     (case T k of None \<Rightarrow> None | Some rs \<Rightarrow> if rs = [] then Some (T(k := None)) else Some T)"

text \<open>The rules of a chain; none when the chain does not exist.\<close>

definition chain_rules :: "'r tables \<Rightarrow> chain_key \<Rightarrow> 'r list" where
  "chain_rules T k = (case T k of None \<Rightarrow> [] | Some rs \<Rightarrow> rs)"

text \<open>\<open>T\<close> only grew into \<open>T'\<close>: every chain keeps its rules in their order.\<close>

definition grows :: "'r tables \<Rightarrow> 'r tables \<Rightarrow> bool" where
  "grows T T' \<longleftrightarrow> (\<forall>k rs. T k = Some rs \<longrightarrow> (\<exists>rs'. T' k = Some rs' \<and> subseq rs rs'))"

definition rules_distinct :: "'r tables \<Rightarrow> bool" where
  "rules_distinct T \<longleftrightarrow> (\<forall>k. distinct (chain_rules T k))"

lemma set_insert_at [simp]: "set (insert_at n x xs) = insert x (set xs)"
proof -
  have "set xs = set (take n xs) \<union> set (drop n xs)" by (metis append_take_drop_id set_append)
  then show ?thesis by (auto simp: insert_at_def)
qed

lemma distinct_insert_at: "distinct xs \<Longrightarrow> x \<notin> set xs \<Longrightarrow> distinct (insert_at n x xs)"
  by (auto simp: insert_at_def distinct_take distinct_drop dest: in_set_takeD in_set_dropD
      intro: set_take_disj_set_drop_if_distinct)
    (meson disjoint_iff le_refl set_take_disj_set_drop_if_distinct)

lemma subseq_insert_at: "subseq xs (insert_at n x xs)"
proof -
  have "subseq (take n xs @ drop n xs) (take n xs @ x # drop n xs)"
    by (rule list_emb_append_mono) auto
  then show ?thesis by (simp add: insert_at_def)
qed

lemma grows_refl [simp]: "grows T T"
  by (simp add: grows_def)

lemma grows_trans: "grows T T' \<Longrightarrow> grows T' T'' \<Longrightarrow> grows T T''"
  unfolding grows_def by (meson subseq_order.trans)

lemma grows_put_rule: "put_rule k pos r T = Some T' \<Longrightarrow> grows T T'"
  by (auto simp: grows_def put_rule_def subseq_insert_at subseq_rev_drop_many split: option.splits if_splits)

lemma grows_make_chain: "make_chain k T = Some T' \<Longrightarrow> grows T T'"
  by (auto simp: grows_def make_chain_def split: if_splits)

lemma grows_mem:
  assumes "grows T T'" and "r \<in> set (chain_rules T k)"
  shows "r \<in> set (chain_rules T' k)"
proof -
  from assms(2) obtain rs where rs: "T k = Some rs" "r \<in> set rs"
    by (cases "T k") (auto simp: chain_rules_def)
  with assms(1) obtain rs' where "T' k = Some rs'" "subseq rs rs'" by (auto simp: grows_def)
  with rs(2) show ?thesis by (auto simp: chain_rules_def dest: list_emb_set)
qed

lemma grows_dom: "grows T T' \<Longrightarrow> T k \<noteq> None \<Longrightarrow> T' k \<noteq> None"
  unfolding grows_def by auto

lemma distinct_put_rule: "put_rule k pos r T = Some T' \<Longrightarrow> rules_distinct T \<Longrightarrow> rules_distinct T'"
  by (auto simp: rules_distinct_def put_rule_def chain_rules_def distinct_insert_at
      split: option.splits if_splits)

lemma distinct_make_chain: "make_chain k T = Some T' \<Longrightarrow> rules_distinct T \<Longrightarrow> rules_distinct T'"
  by (auto simp: rules_distinct_def make_chain_def chain_rules_def split: option.splits if_splits)

lemma distinct_drop_rule: "drop_rule k r T = Some T' \<Longrightarrow> rules_distinct T \<Longrightarrow> rules_distinct T'"
  by (auto simp: rules_distinct_def drop_rule_def chain_rules_def split: option.splits if_splits)

lemma distinct_drop_chain: "drop_chain k T = Some T' \<Longrightarrow> rules_distinct T \<Longrightarrow> rules_distinct T'"
  by (auto simp: rules_distinct_def drop_chain_def chain_rules_def split: option.splits if_splits)

lemma put_rule_mem: "put_rule k pos r T = Some T' \<Longrightarrow> r \<in> set (chain_rules T' k)"
  by (auto simp: put_rule_def chain_rules_def split: option.splits if_splits)

lemma put_rule_present: "r \<in> set (chain_rules T k) \<Longrightarrow> put_rule k pos r T = Some T"
  by (cases "T k") (simp_all add: put_rule_def chain_rules_def)

lemma make_chain_present: "T k \<noteq> None \<Longrightarrow> make_chain k T = Some T"
  by (cases "T k") (simp_all add: make_chain_def)

lemma make_chain_exists: "make_chain k T = Some T' \<Longrightarrow> T' k \<noteq> None"
  by (auto simp: make_chain_def split: if_splits)

lemma drop_rule_rules:
  "drop_rule k r T = Some T' \<Longrightarrow>
     chain_rules T' j = (if j = k then remove1 r (chain_rules T k) else chain_rules T j)"
  by (auto simp: drop_rule_def chain_rules_def split: option.splits)

lemma drop_chain_rules: "drop_chain k T = Some T' \<Longrightarrow> chain_rules T' j = chain_rules T j"
  by (auto simp: drop_chain_def chain_rules_def split: option.splits if_splits)

section \<open>What the program relies on of iptables\<close>

abbreviation key_of :: "vark_chain \<Rightarrow> chain_key" where
  "key_of c \<equiv> Key (vc_driver c) (vc_table c) (vc_chain_name c)"

text \<open>A command that did not succeed changed nothing.\<close>

definition atomic :: "('w \<Rightarrow> 's) \<Rightarrow> ('w, 'e, 'a) comp \<Rightarrow> bool" where
  "atomic f m \<longleftrightarrow> (\<forall>w r w'. m w = (r, w') \<longrightarrow> \<not> is_ok r \<longrightarrow> f w' = f w)"

lemma atomic_iff: "atomic f m \<longleftrightarrow> (\<forall>w. \<not> is_ok (fst (m w)) \<longrightarrow> f (snd (m w)) = f w)"
  unfolding atomic_def by (metis prod.collapse fst_conv snd_conv)

lemma atomic_map_errc [simp]: "atomic f (map_errc g m) = atomic f m"
  by (simp add: atomic_iff)

locale iptables_laws =
  fixes ipt :: "'w iptables" and tab :: "'w \<Rightarrow> 'r tables" and norm :: "string \<Rightarrow> 'r"
  assumes exists_reads: "reads tab (ipt_exists ipt d t c r)"
    and exists_ok: "ipt_exists ipt d t c r w = (Ok b, w') \<Longrightarrow>
        b \<longleftrightarrow> norm r \<in> set (chain_rules (tab w) (Key d t c))"
    and append_ok: "ipt_append ipt d t c r w = (Ok (), w') \<Longrightarrow>
        \<exists>rs. tab w (Key d t c) = Some rs \<and> tab w' = (tab w)((Key d t c) \<mapsto> rs @ [norm r])"
    and append_fail: "atomic tab (ipt_append ipt d t c r)"
    and insert_ok: "ipt_insert ipt d t c r p w = (Ok (), w') \<Longrightarrow>
        \<exists>rs. tab w (Key d t c) = Some rs \<and> 1 \<le> p \<and> p \<le> int (length rs) + 1 \<and>
             tab w' = (tab w)((Key d t c) \<mapsto> insert_at (nat (p - 1)) (norm r) rs)"
    and insert_fail: "atomic tab (ipt_insert ipt d t c r p)"
    and delete_ok: "ipt_delete ipt d t c r w = (Ok (), w') \<Longrightarrow>
        \<exists>rs. tab w (Key d t c) = Some rs \<and> norm r \<in> set rs \<and> tab w' = (tab w)((Key d t c) \<mapsto> remove1 (norm r) rs)"
    and delete_fail: "atomic tab (ipt_delete ipt d t c r)"
    and new_chain_ok: "ipt_new_chain ipt d t c w = (Ok (), w') \<Longrightarrow>
        tab w (Key d t c) = None \<and> tab w' = (tab w)((Key d t c) \<mapsto> [])"
    and new_chain_fail: "atomic tab (ipt_new_chain ipt d t c)"
    and delete_chain_ok: "ipt_delete_chain ipt d t c w = (Ok (), w') \<Longrightarrow>
        tab w (Key d t c) = Some [] \<and> tab w' = (tab w)((Key d t c) := None)"
    and delete_chain_fail: "atomic tab (ipt_delete_chain ipt d t c)"
    and list_reads: "reads tab (ipt_list ipt d t c)"
    and list_ok: "ipt_list ipt d t c w = (Ok xs, w') \<Longrightarrow>
        \<exists>rs. tab w (Key d t c) = Some rs \<and> length xs = Suc (length rs)"
    and list_chains_reads: "reads tab (ipt_list_chains ipt d t)"
    and list_chains_ok: "ipt_list_chains ipt d t w = (Ok xs, w') \<Longrightarrow>
        c \<in> set xs \<longleftrightarrow> tab w (Key d t c) \<noteq> None"
begin

text \<open>A command that first looks and then acts performs one step.\<close>

lemma runs_look_then:
  assumes "reads tab look"
    and "\<And>x w w1 r w'. look w = (Ok x, w1) \<Longrightarrow> tab w1 = tab w \<Longrightarrow> act x w1 = (r, w') \<Longrightarrow>
           (if is_ok r then g (tab w) = Some (tab w') else tab w' = tab w)"
  shows "runs tab [g] (bindc look act)"
  unfolding runs_def
proof (intro allI impI)
  fix w r w'
  assume run: "bindc look act w = (r, w')"
  obtain lr w1 where look: "look w = (lr, w1)" by (cases "look w")
  have w1: "tab w1 = tab w" using readsD[OF assms(1) look] .
  have stop: "\<exists>n. steps (take n [g]) (tab w) = Some (tab w1)" using w1 by (intro exI[of _ 0]) simp
  show "if is_ok r then steps [g] (tab w) = Some (tab w') else \<exists>n. steps (take n [g]) (tab w) = Some (tab w')"
  proof (cases lr)
    case (Ok x)
    with run look have "act x w1 = (r, w')" by (simp add: bindc_OkI)
    with assms(2)[OF _ w1] look Ok have "if is_ok r then g (tab w) = Some (tab w') else tab w' = tab w" by blast
    then show ?thesis by (auto split: if_splits intro!: exI[of _ "0::nat"])
  qed (use run look stop in \<open>auto simp: bindc_def matchc_def failc_def\<close>)
qed

lemma runs_unless:
  assumes "reads tab look" and "atomic tab cmd"
    and "\<And>w w1. look w = (Ok True, w1) \<Longrightarrow> g (tab w) = Some (tab w)"
    and "\<And>w w1 w'. look w = (Ok False, w1) \<Longrightarrow> tab w1 = tab w \<Longrightarrow> cmd w1 = (Ok (), w') \<Longrightarrow> g (tab w) = Some (tab w')"
  shows "runs tab [g] (bindc look (\<lambda>b. if b then retc () else cmd))"
proof (rule runs_look_then[OF assms(1)])
  fix b w w1 r w'
  assume look: "look w = (Ok b, w1)" and w1: "tab w1 = tab w"
    and act: "(if b then retc () else cmd) w1 = (r, w')"
  show "if is_ok r then g (tab w) = Some (tab w') else tab w' = tab w"
  proof (cases b)
    case True
    with look act assms(3) w1 show ?thesis by (auto simp: retc_def)
  next
    case False
    with look act assms(2,4) w1 show ?thesis by (cases r) (auto simp: atomic_def)
  qed
qed

lemma runs_append_unique: "runs tab [put_rule (Key d t c) None (norm r)] (append_unique ipt d t c r)"
  unfolding append_unique_def
proof (rule runs_unless)
  fix w w1 w'
  assume "map_errc Message (ipt_exists ipt d t c r) w = (Ok False, w1)" "tab w1 = tab w"
    and "map_errc (\<lambda>e. Message (''unable to append rule '' @ [CHR 0x27] @ r @ [CHR 0x27] @
           '' to table '' @ [CHR 0x27] @ t @ [CHR 0x27] @ '': '' @ e)) (ipt_append ipt d t c r) w1 = (Ok (), w')"
  then show "put_rule (Key d t c) None (norm r) (tab w) = Some (tab w')"
    by (auto simp: comp_Ok put_rule_def chain_rules_def dest!: exists_ok append_ok)
qed (auto simp: exists_reads append_fail comp_Ok put_rule_present dest: exists_ok)

lemma runs_add_rule:
  "runs tab [put_rule (key_of c) (vr_position r) (norm (vr_rule r))] (add_rule ipt c r)"
proof (cases "vr_position r")
  case None
  then show ?thesis by (simp add: add_rule_def runs_append_unique)
next
  case (Some p)
  let ?e = "map_errc Message (ipt_exists ipt (vc_driver c) (vc_table c) (vc_chain_name c) (vr_rule r))"
  let ?i = "map_errc Message (ipt_insert ipt (vc_driver c) (vc_table c) (vc_chain_name c) (vr_rule r) p)"
  have "runs tab [put_rule (key_of c) (Some p) (norm (vr_rule r))] (bindc ?e (\<lambda>b. if b then retc () else ?i))"
  proof (rule runs_unless)
    fix w w1 w'
    assume "?e w = (Ok False, w1)" "tab w1 = tab w" "?i w1 = (Ok (), w')"
    then show "put_rule (key_of c) (Some p) (norm (vr_rule r)) (tab w) = Some (tab w')"
      by (auto simp: comp_Ok put_rule_def chain_rules_def dest!: exists_ok insert_ok)
  qed (auto simp: exists_reads insert_fail comp_Ok put_rule_present dest: exists_ok)
  moreover have "(\<lambda>b. if \<not> b then ?i else retc ()) = (\<lambda>b. if b then retc () else ?i)" by auto
  ultimately show ?thesis using Some by (simp add: add_rule_def)
qed

lemma runs_add_chain_unique: "runs tab [make_chain (Key d t c)] (add_chain_unique ipt d t c)"
  unfolding add_chain_unique_def
proof (rule runs_unless)
  show "reads tab (chain_exists ipt d t c)"
    unfolding chain_exists_def bindc_def by (intro reads_matchc) (simp_all add: list_chains_reads)
next
  fix w w1
  assume "chain_exists ipt d t c w = (Ok True, w1)"
  then have "tab w (Key d t c) \<noteq> None"
    by (auto simp: chain_exists_def comp_Ok list_ex_iff dest: list_chains_ok)
  then show "make_chain (Key d t c) (tab w) = Some (tab w)" by (rule make_chain_present)
next
  fix w w1 w'
  assume "tab w1 = tab w" "map_errc Message (ipt_new_chain ipt d t c) w1 = (Ok (), w')"
  then show "make_chain (Key d t c) (tab w) = Some (tab w')"
    by (auto simp: comp_Ok make_chain_def dest!: new_chain_ok)
qed (simp add: new_chain_fail)

lemma runs_remove_if_rule_exists: "runs tab [drop_rule (Key d t c) (norm r)] (remove_if_rule_exists ipt d t c r)"
  unfolding remove_if_rule_exists_def
proof (rule runs_look_then)
  fix b w w1 x w'
  assume "map_errc Message (ipt_exists ipt d t c r) w = (Ok b, w1)" and w1: "tab w1 = tab w"
    and act: "(if \<not> b then retc () else map_errc (\<lambda>e. Message (''failed to remove rule '' @ [CHR 0x27] @ r @ [CHR 0x27] @
                '' from table '' @ [CHR 0x27] @ c @ [CHR 0x27] @ '': '' @ e)) (ipt_delete ipt d t c r)) w1 = (x, w')"
  then have b: "b \<longleftrightarrow> norm r \<in> set (chain_rules (tab w) (Key d t c))"
    by (auto simp: comp_Ok dest: exists_ok)
  show "if is_ok x then drop_rule (Key d t c) (norm r) (tab w) = Some (tab w') else tab w' = tab w"
  proof (cases b)
    case True
    with act w1 delete_ok[of d t c r w1 w'] delete_fail[of d t c r] show ?thesis
      by (cases x) (auto simp: comp_Ok drop_rule_def atomic_def comp_simps split: prod.splits res.splits)
  next
    case False
    with act w1 b show ?thesis
      by (cases "tab w (Key d t c)") (auto simp: drop_rule_def chain_rules_def remove1_idem fun_upd_idem retc_def)
  qed
qed (simp add: exists_reads)

lemma runs_remove_chain: "runs tab [drop_chain (key_of c)] (remove_chain ipt c)"
  unfolding remove_chain_def
proof (rule runs_look_then)
  fix xs w w1 x w'
  let ?l = "ipt_list ipt (vc_driver c) (vc_table c) (vc_chain_name c)"
  let ?d = "ipt_delete_chain ipt (vc_driver c) (vc_table c) (vc_chain_name c)"
  assume "map_errc Message ?l w = (Ok xs, w1)" and w1: "tab w1 = tab w"
    and act: "(if length xs \<le> 1 then map_errc Message ?d else retc ()) w1 = (x, w')"
  then obtain rs where rs: "tab w (key_of c) = Some rs" "length xs = Suc (length rs)"
    by (auto simp: comp_Ok dest: list_ok)
  show "if is_ok x then drop_chain (key_of c) (tab w) = Some (tab w') else tab w' = tab w"
  proof (cases "rs = []")
    case True
    with act rs w1 delete_chain_ok[of "vc_driver c" "vc_table c" "vc_chain_name c" w1 w']
      delete_chain_fail[of "vc_driver c" "vc_table c" "vc_chain_name c"] show ?thesis
      by (cases x) (auto simp: comp_Ok drop_chain_def atomic_def comp_simps split: prod.splits res.splits)
  next
    case False
    with act rs w1 show ?thesis by (auto simp: drop_chain_def retc_def)
  qed
qed (simp add: list_reads)

end

section \<open>Creating chains\<close>

definition chain_steps :: "vark_chain list \<Rightarrow> ('r tables \<Rightarrow> 'r tables option) list" where
  "chain_steps cs = map (\<lambda>c. make_chain (key_of c)) (filter vc_create cs)"

lemma chain_steps_concat:
  "concat (map (\<lambda>c. if vc_create c then [make_chain (key_of c)] else []) cs) = chain_steps cs"
  by (induction cs) (auto simp: chain_steps_def)

definition rule_steps :: "(string \<Rightarrow> 'r) \<Rightarrow> vark_chain list \<Rightarrow> ('r tables \<Rightarrow> 'r tables option) list" where
  "rule_steps norm cs =
     concat (map (\<lambda>c. map (\<lambda>r. put_rule (key_of c) (vr_position r) (norm (vr_rule r))) (vc_rules c)) cs)"

text \<open>Every chain that is to be created exists and every rule is in its chain.\<close>

definition installed :: "(string \<Rightarrow> 'r) \<Rightarrow> vark_chain list \<Rightarrow> 'r tables \<Rightarrow> bool" where
  "installed norm cs T \<longleftrightarrow>
     (\<forall>c\<in>set cs. (vc_create c \<longrightarrow> T (key_of c) \<noteq> None) \<and>
        (\<forall>r\<in>set (vc_rules c). norm (vr_rule r) \<in> set (chain_rules T (key_of c))))"

lemma create_step_cases:
  assumes "g \<in> set (chain_steps cs @ rule_steps norm cs)"
  obtains c where "c \<in> set cs" "vc_create c" "g = make_chain (key_of c)"
  | c r where "c \<in> set cs" "r \<in> set (vc_rules c)" "g = put_rule (key_of c) (vr_position r) (norm (vr_rule r))"
  using assms by (auto simp: chain_steps_def rule_steps_def)

lemma create_step_grows:
  "g \<in> set (chain_steps cs @ rule_steps norm cs) \<Longrightarrow> g T = Some T' \<Longrightarrow> grows T T'"
  by (erule create_step_cases) (auto intro: grows_make_chain grows_put_rule)

lemma create_step_distinct:
  "g \<in> set (chain_steps cs @ rule_steps norm cs) \<Longrightarrow> g T = Some T' \<Longrightarrow> rules_distinct T \<Longrightarrow> rules_distinct T'"
  by (erule create_step_cases) (auto intro: distinct_make_chain distinct_put_rule)

lemma create_steps_installed:
  assumes "steps (chain_steps cs @ rule_steps norm cs) T = Some T'"
  shows "installed norm cs T'"
  unfolding installed_def
proof (intro ballI conjI impI)
  fix c assume c: "c \<in> set cs" "vc_create c"
  then have g: "make_chain (key_of c) \<in> set (chain_steps cs @ rule_steps norm cs)" by (auto simp: chain_steps_def)
  show "T' (key_of c) \<noteq> None"
  proof (rule steps_establish[where Q = "\<lambda>T. T (key_of c) \<noteq> None", OF assms g])
    show "T2 (key_of c) \<noteq> None" if "make_chain (key_of c) T1 = Some T2" for T1 T2 :: "'a tables"
      using that by (rule make_chain_exists)
  qed (rule grows_dom[OF create_step_grows])
next
  fix c r assume "c \<in> set cs" "r \<in> set (vc_rules c)"
  then have g: "put_rule (key_of c) (vr_position r) (norm (vr_rule r)) \<in> set (chain_steps cs @ rule_steps norm cs)"
    by (auto simp: rule_steps_def)
  show "norm (vr_rule r) \<in> set (chain_rules T' (key_of c))"
  proof (rule steps_establish[where Q = "\<lambda>T. norm (vr_rule r) \<in> set (chain_rules T (key_of c))", OF assms g])
    show "norm (vr_rule r) \<in> set (chain_rules T2 (key_of c))"
      if "put_rule (key_of c) (vr_position r) (norm (vr_rule r)) T1 = Some T2" for T1 T2
      using that by (rule put_rule_mem)
  qed (rule grows_mem[OF create_step_grows])
qed

lemma create_steps_idle:
  "installed norm cs T \<Longrightarrow> steps (chain_steps cs @ rule_steps norm cs) T = Some T"
  by (rule steps_idle, erule create_step_cases)
    (auto simp: installed_def intro: make_chain_present put_rule_present)

lemma installed_grows: "installed norm cs T \<Longrightarrow> grows T T' \<Longrightarrow> installed norm cs T'"
  unfolding installed_def by (meson grows_dom grows_mem)

section \<open>Removing rules\<close>

definition remove_steps :: "(string \<Rightarrow> 'r) \<Rightarrow> bool \<Rightarrow> vark_chain \<Rightarrow> ('r tables \<Rightarrow> 'r tables option) list" where
  "remove_steps norm complete c =
     map (\<lambda>r. drop_rule (key_of c) (norm (vr_rule r))) (filter (\<lambda>r. \<not> skips_removal complete r) (vc_rules c))"

text \<open>
  Which rules are to go, by their mark: a rule without one always, a rule marked \<open>OnComplete\<close> with
  the last container of the network, a rule marked \<open>Never\<close> not at all.
\<close>

fun to_go :: "bool \<Rightarrow> teardown_policy option \<Rightarrow> bool" where
  "to_go complete None = True"
| "to_go complete (Some OnComplete) = complete"
| "to_go complete (Some Never) = False"

lemma skips_removal_iff: "skips_removal complete r \<longleftrightarrow> \<not> to_go complete (vr_td_policy r)"
  by (cases "(complete, vr_td_policy r)" rule: to_go.cases) (simp_all add: skips_removal_def)

text \<open>The rules of the chains \<open>cs\<close> that are to go from chain \<open>k\<close>.\<close>

definition doomed :: "(string \<Rightarrow> 'r) \<Rightarrow> bool \<Rightarrow> vark_chain list \<Rightarrow> chain_key \<Rightarrow> 'r set" where
  "doomed norm complete cs k =
     {norm (vr_rule r) | c r. c \<in> set cs \<and> key_of c = k \<and> r \<in> set (vc_rules c) \<and> to_go complete (vr_td_policy r)}"

lemma steps_remove_rules:
  assumes "steps (map (\<lambda>r. drop_rule k (norm (vr_rule r))) rs) T = Some T'" and "rules_distinct T"
  shows "chain_rules T' j =
    (if j = k then filter (\<lambda>x. x \<notin> (\<lambda>r. norm (vr_rule r)) ` set rs) (chain_rules T j) else chain_rules T j)"
  using assms
proof (induction rs arbitrary: T)
  case Nil
  then show ?case by simp
next
  case (Cons r rs)
  then obtain T1 where T1: "drop_rule k (norm (vr_rule r)) T = Some T1"
    and rest: "steps (map (\<lambda>r. drop_rule k (norm (vr_rule r))) rs) T1 = Some T'"
    by (auto simp: bind_eq_Some_conv)
  note IH = Cons.IH[OF rest distinct_drop_rule[OF T1 Cons.prems(2)]]
  have "distinct (chain_rules T k)" using Cons.prems(2) by (simp add: rules_distinct_def)
  then show ?case
    using IH drop_rule_rules[OF T1] by (auto simp: distinct_remove1_removeAll removeAll_filter_not_eq intro!: filter_cong)
qed

lemma steps_remove_chains:
  assumes "steps (concat (map (remove_steps norm complete) cs)) T = Some T'" and "rules_distinct T"
  shows "rules_distinct T' \<and> chain_rules T' k = filter (\<lambda>x. x \<notin> doomed norm complete cs k) (chain_rules T k)"
  using assms
proof (induction cs arbitrary: T)
  case Nil
  then show ?case by (simp add: doomed_def)
next
  case (Cons c cs)
  then obtain T1 where T1: "steps (remove_steps norm complete c) T = Some T1"
    and rest: "steps (concat (map (remove_steps norm complete) cs)) T1 = Some T'"
    by (auto simp: steps_append bind_eq_Some_conv)
  have d1: "rules_distinct T1"
    by (rule steps_induct[where P = rules_distinct, OF T1 Cons.prems(2)])
      (auto simp: remove_steps_def intro: distinct_drop_rule)
  note IH = Cons.IH[OF rest d1]
  have "chain_rules T1 k = filter (\<lambda>x. x \<notin> doomed norm complete [c] k) (chain_rules T k)"
    using steps_remove_rules[OF T1[unfolded remove_steps_def] Cons.prems(2), of k]
    by (auto simp: doomed_def skips_removal_iff intro!: filter_cong)
  moreover have "doomed norm complete (c # cs) k = doomed norm complete [c] k \<union> doomed norm complete cs k"
    by (auto simp: doomed_def)
  ultimately show ?case using IH by (auto intro!: filter_cong)
qed

context iptables_laws
begin

lemma runs_create_network_chains:
  "runs tab (chain_steps cs @ rule_steps norm cs) (create_network_chains ipt cs)"
  unfolding create_network_chains_def
proof (rule runs_seqc)
  have "runs tab (if vc_create c then [make_chain (key_of c)] else [])
      (if vc_create c then add_chain_unique ipt (vc_driver c) (vc_table c) (vc_chain_name c) else retc ())" for c
    by (simp add: runs_add_chain_unique)
  then have "runs tab (concat (map (\<lambda>c. if vc_create c then [make_chain (key_of c)] else []) cs))
     (for_each (\<lambda>c. if vc_create c then add_chain_unique ipt (vc_driver c) (vc_table c) (vc_chain_name c) else retc ()) cs)"
    by (intro runs_for_each)
  then show "runs tab (chain_steps cs)
     (for_each (\<lambda>c. if vc_create c then add_chain_unique ipt (vc_driver c) (vc_table c) (vc_chain_name c) else retc ()) cs)"
    by (simp add: chain_steps_concat)
next
  have "runs tab (concat (map (\<lambda>r. [put_rule (key_of c) (vr_position r) (norm (vr_rule r))]) (vc_rules c))) (add_rules ipt c)" for c
    unfolding add_rules_def by (intro runs_for_each runs_add_rule)
  then show "runs tab (rule_steps norm cs) (for_each (add_rules ipt) cs)"
    unfolding rule_steps_def by (intro runs_for_each) (simp add: concat_map_singleton)
qed

lemma runs_remove_rules: "runs tab (remove_steps norm complete c) (remove_rules ipt complete c)"
proof -
  let ?b = "\<lambda>rule. if skips_removal complete rule then retc ()
        else remove_if_rule_exists ipt (vc_driver c) (vc_table c) (vc_chain_name c) (vr_rule rule)"
  have "runs tab (concat (map (\<lambda>r. if skips_removal complete r then [] else [drop_rule (key_of c) (norm (vr_rule r))]) (vc_rules c)))
     (for_each ?b (vc_rules c))"
    by (intro runs_for_each) (simp add: runs_remove_if_rule_exists)
  moreover have "concat (map (\<lambda>r. if skips_removal complete r then [] else [drop_rule (key_of c) (norm (vr_rule r))]) rs) =
     map (\<lambda>r. drop_rule (key_of c) (norm (vr_rule r))) (filter (\<lambda>r. \<not> skips_removal complete r) rs)" for rs
    by (induction rs) auto
  ultimately show ?thesis by (simp add: remove_rules_def remove_steps_def)
qed

end

section \<open>An executable instance\<close>

type_synonym ref_tables = "(chain_key \<times> string list) list"

definition iptables_ref :: "ref_tables iptables" where
  "iptables_ref =
     \<lparr>ipt_exists = (\<lambda>d t c r w. (Ok (r \<in> set (chain_rules (map_of w) (Key d t c))), w)),
      ipt_append = (\<lambda>d t c r w. case map_of w (Key d t c) of
          None \<Rightarrow> (Err ''no chain'', w)
        | Some rs \<Rightarrow> (Ok (), AList.update (Key d t c) (rs @ [r]) w)),
      ipt_insert = (\<lambda>d t c r p w. case map_of w (Key d t c) of
          None \<Rightarrow> (Err ''no chain'', w)
        | Some rs \<Rightarrow>
            if 1 \<le> p \<and> p \<le> int (length rs) + 1
            then (Ok (), AList.update (Key d t c) (insert_at (nat (p - 1)) r rs) w)
            else (Err ''index of insertion too big'', w)),
      ipt_delete = (\<lambda>d t c r w. case map_of w (Key d t c) of
          None \<Rightarrow> (Err ''no chain'', w)
        | Some rs \<Rightarrow>
            if r \<in> set rs then (Ok (), AList.update (Key d t c) (remove1 r rs) w) else (Err ''no rule'', w)),
      ipt_new_chain = (\<lambda>d t c w. if map_of w (Key d t c) = None then (Ok (), AList.update (Key d t c) [] w)
        else (Err ''chain exists'', w)),
      ipt_delete_chain = (\<lambda>d t c w. if map_of w (Key d t c) = Some [] then (Ok (), AList.delete (Key d t c) w)
        else (Err ''chain not empty'', w)),
      ipt_list = (\<lambda>d t c w. case map_of w (Key d t c) of
          None \<Rightarrow> (Err ''no chain'', w) | Some rs \<Rightarrow> (Ok ((''-N '' @ c) # rs), w)),
      ipt_list_chains = (\<lambda>d t w. (Ok (map key_chain (filter (\<lambda>k. key_v6 k = d \<and> key_table k = t) (map fst w))), w))\<rparr>"

lemma ref_chain_listed:
  "c \<in> key_chain ` {x \<in> fst ` set w. key_v6 x = d \<and> key_table x = t} \<longleftrightarrow> (\<exists>y. map_of w (Key d t c) = Some y)"
proof -
  have ex: "(\<exists>y. map_of w k = Some y) \<longleftrightarrow> k \<in> fst ` set w" for k
    using map_of_eq_None_iff[of w k] by (cases "map_of w k") auto
  have mem: "c \<in> key_chain ` {x \<in> S. key_v6 x = d \<and> key_table x = t} \<longleftrightarrow> Key d t c \<in> S" for S
  proof
    assume "c \<in> key_chain ` {x \<in> S. key_v6 x = d \<and> key_table x = t}"
    then obtain x where "x \<in> S" "key_v6 x = d" "key_table x = t" "key_chain x = c" by auto
    then show "Key d t c \<in> S" by (cases x) simp
  qed (rule rev_image_eqI[of "Key d t c"], simp_all)
  show ?thesis unfolding mem ex ..
qed

interpretation ref_ipt: iptables_laws iptables_ref map_of "\<lambda>r. r"
  by unfold_locales
    (auto simp: iptables_ref_def reads_def atomic_def AList.update_conv' AList.delete_conv' ref_chain_listed
       split: option.splits if_splits)

end
