(* ===== verification/Firewalld.thy ===== *)
theory Firewalld
  imports Varktables
begin

text \<open>
  \<^verbatim>\<open>src/firewall/firewalld.rs\<close>: the firewall driver that talks to firewalld over DBus.

  The \<^verbatim>\<open>zbus\<close> crate and the daemon behind it are the record \<open>dbus\<close>, a parameter:
  \<open>db_call\<close> takes destination, object path, interface, method and arguments and returns the
  body of the reply; appending to a typed array is \<open>zv_append\<close>.  Errors of the crate are
  their printed texts.  What the driver relies on of firewalld is the locale
  \<open>firewalld_laws\<close>: which source belongs to which zone, and what a policy's settings are.
\<close>

section \<open>DBus\<close>

datatype zvalue =
    VStr string
  | VBool bool
  | VArray zarray
  | VStruct "zvalue list"
  | VDict "(string \<times> zvalue) list"
  | VUnit
  | VOther nat
and zarray = ZArray (za_sig: string) (za_items: "zvalue list")

record 'w dbus =
  db_system :: "('w, string, unit) comp"
  db_call :: "string \<Rightarrow> string \<Rightarrow> string \<Rightarrow> string \<Rightarrow> zvalue list \<Rightarrow> ('w, string, zvalue) comp"
  db_body_error :: "zvalue \<Rightarrow> string"
  zv_append :: "zarray \<Rightarrow> zvalue \<Rightarrow> (string, zarray) res"

definition ZONENAME :: string where "ZONENAME = ''netavark_zone''"
definition POLICYNAME :: string where "POLICYNAME = ''netavark_policy''"
definition PORTPOLICYNAME :: string where "PORTPOLICYNAME = ''netavark_portfwd''"

definition fw_call :: "'w dbus \<Rightarrow> string \<Rightarrow> string \<Rightarrow> zvalue list \<Rightarrow> ('w, zvalue) ncomp" where
  "fw_call db iface method args =
     map_errc Dbus (db_call db ''org.fedoraproject.FirewallD1'' ''/org/fedoraproject/FirewallD1'' iface method args)"

definition fw_config_call :: "'w dbus \<Rightarrow> string \<Rightarrow> zvalue list \<Rightarrow> ('w, zvalue) ncomp" where
  "fw_config_call db method args =
     map_errc Dbus (db_call db ''org.fedoraproject.FirewallD1'' ''/org/fedoraproject/FirewallD1/config''
       ''org.fedoraproject.FirewallD1.config'' method args)"

definition zone_iface :: string where "zone_iface = ''org.fedoraproject.FirewallD1.zone''"
definition policy_iface :: string where "policy_iface = ''org.fedoraproject.FirewallD1.policy''"

text \<open>Decoding a reply body, with the context message the code adds.\<close>

fun body_string :: "'w dbus \<Rightarrow> string \<Rightarrow> zvalue \<Rightarrow> string nres" where
  "body_string db msg (VStr s) = Ok s"
| "body_string db msg v = Err (wrap msg (Dbus (db_body_error db v)))"

fun str_of :: "zvalue \<Rightarrow> string option" where
  "str_of (VStr s) = Some s"
| "str_of _ = None"

fun body_strings :: "'w dbus \<Rightarrow> string \<Rightarrow> zvalue \<Rightarrow> string list nres" where
  "body_strings db msg (VArray a) =
     (case those (map str_of (za_items a)) of
        Some xs \<Rightarrow> Ok xs
      | None \<Rightarrow> Err (wrap msg (Dbus (db_body_error db (VArray a)))))"
| "body_strings db msg v = Err (wrap msg (Dbus (db_body_error db v)))"

fun body_dict :: "'w dbus \<Rightarrow> string \<Rightarrow> zvalue \<Rightarrow> (string \<rightharpoonup> zvalue) nres" where
  "body_dict db msg (VDict kvs) = Ok (map_of kvs)"
| "body_dict db msg v = Err (wrap msg (Dbus (db_body_error db v)))"

section \<open>Zones and policies\<close>

definition create_zone_if_not_exist :: "'w dbus \<Rightarrow> string \<Rightarrow> ('w, bool) ncomp" where
  "create_zone_if_not_exist db zone_name =
     bindc (fw_call db zone_iface ''getZones'' []) (\<lambda>zones_msg.
     bindc (liftc (body_strings db ''Error decoding DBus message for active zones'' zones_msg)) (\<lambda>zones.
       if zone_name \<in> set zones then retc False
       else bindc (fw_config_call db ''getZoneNames'' []) (\<lambda>perm_zones_msg.
         bindc (liftc (body_strings db ''Error decoding DBus message for permanent zones'' perm_zones_msg)) (\<lambda>zones_perm.
           if zone_name \<in> set zones_perm then retc True
           else bindc (fw_config_call db ''addZone2'' [VStr zone_name, VDict []]) (\<lambda>_. retc True)))))"

fun add_source_subnets_to_zone :: "ipnet_lib \<Rightarrow> 'w dbus \<Rightarrow> string \<Rightarrow> subnet list \<Rightarrow> ('w, unit) ncomp" where
  "add_source_subnets_to_zone lib db zone_name [] = retc ()"
| "add_source_subnets_to_zone lib db zone_name (net # subnets) =
     bindc (fw_call db zone_iface ''getZoneOfSource'' [VStr (ipnet_to_string lib (sub_subnet net))]) (\<lambda>subnet_zone.
     bindc (liftc (body_string db ''Error decoding DBus message for zone of subnet'' subnet_zone)) (\<lambda>zone_string.
       if zone_string = zone_name then retc ()
       else bindc (fw_call db zone_iface ''changeZoneOfSource''
                     [VStr zone_name, VStr (ipnet_to_string lib (sub_subnet net))])
              (\<lambda>_. add_source_subnets_to_zone lib db zone_name subnets)))"

definition policy_opts :: "string \<Rightarrow> string \<Rightarrow> bool \<Rightarrow> (string \<times> zvalue) list" where
  "policy_opts ingress_zone_name target masquerade =
     [(''egress_zones'', VArray (ZArray ''s'' [VStr ''ANY''])),
      (''ingress_zones'', VArray (ZArray ''s'' [VStr ingress_zone_name]))]
     @ (if masquerade then [(''masquerade'', VBool True)] else [])
     @ [(''target'', VStr target)]"

definition add_policy_if_not_exist ::
  "'w dbus \<Rightarrow> string \<Rightarrow> string \<Rightarrow> string \<Rightarrow> bool \<Rightarrow> ('w, bool) ncomp" where
  "add_policy_if_not_exist db policy_name ingress_zone_name target masquerade =
     bindc (fw_call db policy_iface ''getPolicies'' []) (\<lambda>policies_msg.
     bindc (liftc (body_strings db ''Error decoding policy list response'' policies_msg)) (\<lambda>policies.
       if policy_name \<in> set policies then retc False
       else bindc (fw_config_call db ''getPolicyNames'' []) (\<lambda>perm_policies_msg.
         bindc (liftc (body_strings db ''Error decoding permanent policy list response'' perm_policies_msg)) (\<lambda>perm_policies.
           if policy_name \<in> set perm_policies then retc True
           else bindc (fw_config_call db ''addPolicy''
                         [VStr policy_name, VDict (policy_opts ingress_zone_name target masquerade)])
                  (\<lambda>_. retc True)))))"

section \<open>Networks\<close>

definition fwd_setup_network :: "ipnet_lib \<Rightarrow> 'w dbus \<Rightarrow> setup_network \<Rightarrow> ('w, unit) ncomp" where
  "fwd_setup_network lib db network_setup =
     bindc (wrapc (''Error creating zone '' @ ZONENAME) (create_zone_if_not_exist db ZONENAME)) (\<lambda>b1.
     bindc (wrapc (''Error creating policy '' @ POLICYNAME)
              (add_policy_if_not_exist db POLICYNAME ZONENAME ''ACCEPT'' True)) (\<lambda>b2.
     bindc (wrapc (''Error creating policy '' @ POLICYNAME)
              (add_policy_if_not_exist db PORTPOLICYNAME ''ANY'' ''CONTINUE'' False)) (\<lambda>b3.
     seqc (if b1 \<or> b2 \<or> b3
           then bindc (fw_call db ''org.fedoraproject.FirewallD1'' ''reload'' []) (\<lambda>_. retc ())
           else retc ())
       (case n_subnets (sn_net network_setup) of
          None \<Rightarrow> retc ()
        | Some nets \<Rightarrow>
            wrapc (''Error adding source subnets to zone '' @ ZONENAME)
              (add_source_subnets_to_zone lib db ZONENAME nets)))))"

definition fwd_teardown_network :: "ipnet_lib \<Rightarrow> 'w dbus \<Rightarrow> teardown_network \<Rightarrow> ('w, unit) ncomp" where
  "fwd_teardown_network lib db tear =
     (if \<not> tn_complete_teardown tear then retc ()
      else case n_subnets (sn_net (tn_config tear)) of
        None \<Rightarrow> retc ()
      | Some subnets \<Rightarrow>
          for_each (\<lambda>s. bindc (fw_call db zone_iface ''removeSource''
                                [VStr ZONENAME, VStr (ipnet_to_string lib (sub_subnet s))]) (\<lambda>_. retc ())) subnets)"

section \<open>Forwarded ports\<close>

definition make_port_tuple :: "port_mapping \<Rightarrow> string \<Rightarrow> string \<times> string \<times> string \<times> string" where
  "make_port_tuple port addr =
     (if 1 < pm_range port
      then (let end_host_range = pm_host_port port + pm_range port - 1;
                end_ctr_range = pm_container_port port + pm_range port - 1
            in (show_port (pm_host_port port) @ ''-'' @ show_port end_host_range, pm_protocol port,
                show_port (pm_container_port port) @ ''-'' @ show_port end_ctr_range, addr))
      else (show_port (pm_host_port port), pm_protocol port, show_port (pm_container_port port), addr))"

fun tuple_value :: "string \<times> string \<times> string \<times> string \<Rightarrow> zvalue" where
  "tuple_value (a, b, c, d) = VStruct [VStr a, VStr b, VStr c, VStr d]"

definition append_value :: "'w dbus \<Rightarrow> zvalue \<Rightarrow> zarray \<Rightarrow> zarray nres" where
  "append_value db v arr = map_err DbusVariant (zv_append db arr v)"

text \<open>The array under a key of the policy's settings; a new one when the key is absent.\<close>

definition settings_array :: "(string \<rightharpoonup> zvalue) \<Rightarrow> string \<Rightarrow> zarray option nres" where
  "settings_array config key =
     (case config key of
        None \<Rightarrow> Ok None
      | Some (VArray arr) \<Rightarrow> Ok (Some arr)
      | Some _ \<Rightarrow> Err (Message ''forward-port in firewalld policy object has a bad type''))"

text \<open>The tuples the mappings of a container ask for.\<close>

definition port_values :: "port_forward_config \<Rightarrow> port_mapping \<Rightarrow> zvalue list" where
  "port_values pf port =
     (if pm_host_ip port \<noteq> [] then [tuple_value (make_port_tuple port (pm_host_ip port))]
      else (case pf_container_ip_v4 pf of None \<Rightarrow> []
            | Some v4 \<Rightarrow> [tuple_value (make_port_tuple port (show_ip v4))])
         @ (case pf_container_ip_v6 pf of None \<Rightarrow> []
            | Some v6 \<Rightarrow> [tuple_value (make_port_tuple port (show_ip v6))]))"

definition rich_rule :: "16 word \<Rightarrow> ip_addr \<Rightarrow> string" where
  "rich_rule dns_port dns_ip =
     (let q = [CHR 0x22]
      in ''rule family='' @ q @ (if is_ipv6 dns_ip then ''ipv6'' else ''ipv4'') @ q @
         '' destination address='' @ q @ show_ip dns_ip @ q @
         '' forward-port port='' @ q @ ''53'' @ q @ '' protocol='' @ q @ ''udp'' @ q @
         '' to-port='' @ q @ show_port dns_port @ q @ '' to-addr='' @ q @ show_ip dns_ip @ q)"

definition get_policy_config :: "'w dbus \<Rightarrow> ('w, string \<rightharpoonup> zvalue) ncomp" where
  "get_policy_config db =
     bindc (fw_call db policy_iface ''getPolicySettings'' [VStr PORTPOLICYNAME]) (\<lambda>msg.
     liftc (body_dict db (''Error decoding DBus message for policy '' @ PORTPOLICYNAME @ '' configuration'') msg))"

definition set_policy_config :: "'w dbus \<Rightarrow> string \<Rightarrow> string \<Rightarrow> (string \<times> zvalue) list \<Rightarrow> ('w, unit) ncomp" where
  "set_policy_config db verb container_id new_config =
     bindc (wrapc (''Failed to update policy '' @ PORTPOLICYNAME @ '' to '' @ verb @ '' container '' @ container_id @
              '' port forwarding rules'')
        (fw_call db policy_iface ''setPolicySettings'' [VStr PORTPOLICYNAME, VDict new_config])) (\<lambda>_. retc ())"

definition setup_forward_ports ::
  "'w dbus \<Rightarrow> port_forward_config \<Rightarrow> (string \<rightharpoonup> zvalue) \<Rightarrow> zarray nres" where
  "setup_forward_ports db pf config =
     bind_res (settings_array config ''forward_ports'') (\<lambda>old.
       fold_res (append_value db)
         (concat (map (port_values pf) (case pf_port_mappings pf of None \<Rightarrow> [] | Some ports \<Rightarrow> ports)))
         (case old of None \<Rightarrow> ZArray ''(ssss)'' [] | Some arr \<Rightarrow> arr))"

definition setup_rich_rules ::
  "'w dbus \<Rightarrow> port_forward_config \<Rightarrow> (string \<rightharpoonup> zvalue) \<Rightarrow> zarray option nres" where
  "setup_rich_rules db pf config =
     (if pf_dns_port pf \<noteq> 53 \<and> pf_dns_server_ips pf \<noteq> []
      then bind_res (settings_array config ''rich_rules'') (\<lambda>old.
             bind_res (fold_res (append_value db) (map (\<lambda>ip. VStr (rich_rule (pf_dns_port pf) ip)) (pf_dns_server_ips pf))
               (case old of None \<Rightarrow> ZArray ''s'' [] | Some arr \<Rightarrow> arr)) (\<lambda>arr. Ok (Some arr)))
      else Ok None)"

definition opt_entry :: "string \<Rightarrow> zarray option \<Rightarrow> (string \<times> zvalue) list" where
  "opt_entry key arr = (case arr of None \<Rightarrow> [] | Some a \<Rightarrow> [(key, VArray a)])"

definition fwd_setup_port_forward :: "'w dbus \<Rightarrow> port_forward_config \<Rightarrow> ('w, unit) ncomp" where
  "fwd_setup_port_forward db pf =
     bindc (get_policy_config db) (\<lambda>config.
     bindc (liftc (setup_forward_ports db pf config)) (\<lambda>rules.
     bindc (liftc (setup_rich_rules db pf config)) (\<lambda>rich.
       set_policy_config db ''add'' (pf_container_id pf)
         ((''forward_ports'', VArray rules) # opt_entry ''rich_rules'' rich))))"

text \<open>The destination address of a stored rule, the last of its four fields.\<close>

fun rule_address :: "zvalue \<Rightarrow> string nres" where
  "rule_address (VStruct fs) =
     (if length fs \<noteq> 4 then Err (Message ''Port forwarding rule that was not a 4-tuple encountered'')
      else case fs ! 3 of
        VStr s \<Rightarrow> Ok s
      | _ \<Rightarrow> Err (Message ''Port forwarding tuples must contain only strings, encountered a non-string object''))"
| "rule_address _ = Err (Message ''Port forwarding rule that was not a structure encountered'')"

definition address_text :: "ip_addr option \<Rightarrow> string" where
  "address_text ip = (case ip of None \<Rightarrow> ''DOES NOT EXIST'' | Some i \<Rightarrow> show_ip i)"

definition keep_rule :: "'w dbus \<Rightarrow> port_forward_config \<Rightarrow> zvalue \<Rightarrow> zarray \<Rightarrow> zarray nres" where
  "keep_rule db pf v arr =
     bind_res (rule_address v) (\<lambda>port_ip.
       if port_ip \<noteq> address_text (pf_container_ip_v4 pf) \<and> port_ip \<noteq> address_text (pf_container_ip_v6 pf)
       then append_value db v arr else Ok arr)"

definition keep_rich_rule :: "'w dbus \<Rightarrow> string list \<Rightarrow> zvalue \<Rightarrow> zarray \<Rightarrow> zarray nres" where
  "keep_rich_rule db rules_to_delete v arr =
     (case v of
        VStr old_rule \<Rightarrow> if old_rule \<notin> set rules_to_delete then append_value db v arr else Ok arr
      | _ \<Rightarrow> Err (Message ''Rich rule that was not a string encountered''))"

definition teardown_forward_ports ::
  "'w dbus \<Rightarrow> port_forward_config \<Rightarrow> (string \<rightharpoonup> zvalue) \<Rightarrow> zarray option nres" where
  "teardown_forward_ports db pf config =
     bind_res (settings_array config ''forward_ports'') (\<lambda>old. case old of
       None \<Rightarrow> Ok None
     | Some arr \<Rightarrow>
         bind_res (fold_res (keep_rule db pf) (za_items arr) (ZArray ''(ssss)'' [])) (\<lambda>a. Ok (Some a)))"

definition teardown_rich_rules ::
  "'w dbus \<Rightarrow> teardown_port_forward \<Rightarrow> (string \<rightharpoonup> zvalue) \<Rightarrow> zarray option nres" where
  "teardown_rich_rules db tear config =
     (let pf = tpf_config tear
      in if tpf_complete_teardown tear \<and> pf_dns_port pf \<noteq> 53 \<and> pf_dns_server_ips pf \<noteq> []
         then bind_res (settings_array config ''rich_rules'') (\<lambda>old. case old of
           None \<Rightarrow> Ok None
         | Some arr \<Rightarrow>
             bind_res (fold_res (keep_rich_rule db (map (rich_rule (pf_dns_port pf)) (pf_dns_server_ips pf)))
                         (za_items arr) (ZArray ''s'' [])) (\<lambda>a. Ok (Some a)))
         else Ok None)"

definition fwd_teardown_port_forward :: "'w dbus \<Rightarrow> teardown_port_forward \<Rightarrow> ('w, unit) ncomp" where
  "fwd_teardown_port_forward db tear =
     bindc (get_policy_config db) (\<lambda>config.
     bindc (liftc (teardown_forward_ports db (tpf_config tear) config)) (\<lambda>rules.
     bindc (liftc (teardown_rich_rules db tear config)) (\<lambda>rich.
       set_policy_config db ''remove'' (pf_container_id (tpf_config tear))
         (opt_entry ''forward_ports'' rules @ opt_entry ''rich_rules'' rich))))"

section \<open>What the driver relies on of firewalld\<close>

fun fits_sig :: "string \<Rightarrow> zvalue \<Rightarrow> bool" where
  "fits_sig sig (VStr _) = (sig = ''s'')"
| "fits_sig sig (VStruct [VStr _, VStr _, VStr _, VStr _]) = (sig = ''(ssss)'')"
| "fits_sig sig _ = False"

locale firewalld_laws =
  fixes db :: "'w dbus" and zone_of :: "'w \<Rightarrow> string \<rightharpoonup> string" and settings :: "'w \<Rightarrow> string \<rightharpoonup> zvalue"
  assumes get_zone: "fw_call db zone_iface ''getZoneOfSource'' [VStr s] w = (Ok v, w') \<Longrightarrow>
        v = VStr (case zone_of w s of None \<Rightarrow> [] | Some z \<Rightarrow> z) \<and> zone_of w' = zone_of w"
    and change_zone: "fw_call db zone_iface ''changeZoneOfSource'' [VStr z, VStr s] w = (Ok v, w') \<Longrightarrow>
        zone_of w' = (zone_of w)(s \<mapsto> z)"
    and get_settings: "fw_call db policy_iface ''getPolicySettings'' [VStr PORTPOLICYNAME] w = (Ok v, w') \<Longrightarrow>
        \<exists>kvs. v = VDict kvs \<and> map_of kvs = settings w \<and> settings w' = settings w"
    and set_settings: "fw_call db policy_iface ''setPolicySettings'' [VStr PORTPOLICYNAME, VDict kvs] w = (Ok v, w') \<Longrightarrow>
        settings w' = settings w ++ map_of kvs"
    and append_fits: "fits_sig sig v \<Longrightarrow> zv_append db (ZArray sig xs) v = Ok (ZArray sig (xs @ [v]))"
begin

lemma fold_append_fits:
  "list_all (fits_sig sig) vs \<Longrightarrow> fold_res (append_value db) vs (ZArray sig xs) = Ok (ZArray sig (xs @ vs))"
  by (induction vs arbitrary: xs) (auto simp: append_value_def append_fits)

lemma add_source_present:
  assumes "zone_of w (ipnet_to_string lib (sub_subnet net)) = Some zone"
    and "add_source_subnets_to_zone lib db zone (net # rest) w = (Ok (), w')"
  shows "zone_of w' = zone_of w"
proof -
  from assms(2) obtain v w1 where g: "fw_call db zone_iface ''getZoneOfSource'' [VStr (ipnet_to_string lib (sub_subnet net))] w = (Ok v, w1)"
    by (auto simp: comp_Ok)
  from get_zone[OF this] assms(1) have "v = VStr zone" "zone_of w1 = zone_of w" by simp_all
  with g assms(2) show ?thesis by (simp add: bindc_OkI liftc_def retc_def)
qed

lemma add_source_fresh:
  assumes "add_source_subnets_to_zone lib db zone nets w = (Ok (), w')"
    and "distinct (map (\<lambda>n. ipnet_to_string lib (sub_subnet n)) nets)"
    and "\<forall>n\<in>set nets. zone_of w (ipnet_to_string lib (sub_subnet n)) \<noteq> Some zone" and "zone \<noteq> []"
  shows "zone_of w' = (\<lambda>s. if s \<in> (\<lambda>n. ipnet_to_string lib (sub_subnet n)) ` set nets then Some zone else zone_of w s)"
  using assms(1-3)
proof (induction nets arbitrary: w)
  case Nil
  then show ?case by simp
next
  case (Cons n nets)
  let ?s = "\<lambda>n. ipnet_to_string lib (sub_subnet n)"
  from Cons.prems(1) obtain v w1 where g: "fw_call db zone_iface ''getZoneOfSource'' [VStr (?s n)] w = (Ok v, w1)"
    by (auto simp: comp_Ok)
  note z = get_zone[OF g]
  obtain zs where v: "v = VStr zs" "zs \<noteq> zone"
    using z Cons.prems(3) assms(4) by (auto split: option.splits)
  from Cons.prems(1) g v obtain v2 w2 where c: "fw_call db zone_iface ''changeZoneOfSource'' [VStr zone, VStr (?s n)] w1 = (Ok v2, w2)"
    and rest: "add_source_subnets_to_zone lib db zone nets w2 = (Ok (), w')"
    by (auto simp: comp_Ok)
  have w2: "zone_of w2 = (zone_of w)(?s n \<mapsto> zone)" using change_zone[OF c] z by simp
  have "?s m \<noteq> ?s n" if "m \<in> set nets" for m using Cons.prems(2) that by (force simp: image_iff)
  then have "\<forall>m\<in>set nets. zone_of w2 (?s m) \<noteq> Some zone" using Cons.prems(3) w2 by auto
  from Cons.IH[OF rest _ this] Cons.prems(2) w2 show ?case by (auto simp: fun_eq_iff)
qed

end

text \<open>A stored rule that leads to one of the container's own addresses.\<close>

definition leads_to :: "port_forward_config \<Rightarrow> zvalue \<Rightarrow> bool" where
  "leads_to pf v \<longleftrightarrow> rule_address v = Ok (address_text (pf_container_ip_v4 pf)) \<or>
                    rule_address v = Ok (address_text (pf_container_ip_v6 pf))"

lemma fits_rule_address: "fits_sig ''(ssss)'' v \<Longrightarrow> \<exists>a. rule_address v = Ok a"
  by (cases "(''(ssss)'', v)" rule: fits_sig.cases) auto

lemma tuple_value_fits [simp]: "fits_sig ''(ssss)'' (tuple_value t)"
  by (cases t) simp

lemma tuple_value_address [simp]: "rule_address (tuple_value (make_port_tuple p a)) = Ok a"
  by (simp add: make_port_tuple_def Let_def)

lemma port_values_fit: "list_all (fits_sig ''(ssss)'') (port_values pf p)"
  by (auto simp: port_values_def split: option.split)

context firewalld_laws
begin

lemma fold_keep_fits:
  "list_all (fits_sig ''(ssss)'') vs \<Longrightarrow>
     fold_res (keep_rule db pf) vs (ZArray ''(ssss)'' xs) = Ok (ZArray ''(ssss)'' (xs @ filter (\<lambda>v. \<not> leads_to pf v) vs))"
proof (induction vs arbitrary: xs)
  case Nil
  then show ?case by simp
next
  case (Cons v vs)
  then obtain a where "rule_address v = Ok a" using fits_rule_address[of v] by auto
  with Cons show ?case
    by (auto simp: keep_rule_def leads_to_def append_value_def append_fits)
qed

lemma setup_settings:
  assumes "fwd_setup_port_forward db pf w = (Ok (), w')"
    and "settings w ''forward_ports'' = Some (VArray (ZArray ''(ssss)'' old))"
  shows "settings w' ''forward_ports'' =
    Some (VArray (ZArray ''(ssss)'' (old @ concat (map (port_values pf) (case pf_port_mappings pf of None \<Rightarrow> [] | Some ps \<Rightarrow> ps)))))"
proof -
  let ?ps = "case pf_port_mappings pf of None \<Rightarrow> [] | Some ps \<Rightarrow> ps"
  from assms(1) obtain v w1 config rules rich v2 where
    g: "fw_call db policy_iface ''getPolicySettings'' [VStr PORTPOLICYNAME] w = (Ok v, w1)"
    and config: "body_dict db (''Error decoding DBus message for policy '' @ PORTPOLICYNAME @ '' configuration'') v = Ok config"
    and rules: "setup_forward_ports db pf config = Ok rules"
    and s: "fw_call db policy_iface ''setPolicySettings''
       [VStr PORTPOLICYNAME, VDict ((''forward_ports'', VArray rules) # opt_entry ''rich_rules'' rich)] w1 = (Ok v2, w')"
    by (auto simp: fwd_setup_port_forward_def get_policy_config_def set_policy_config_def comp_Ok)
  from get_settings[OF g] config have c: "config = settings w" "settings w1 = settings w" by auto
  have "list_all (fits_sig ''(ssss)'') (concat (map (port_values pf) ?ps))"
    using port_values_fit by (auto simp: list_all_iff)
  from rules c assms(2) fold_append_fits[OF this] have
    "rules = ZArray ''(ssss)'' (old @ concat (map (port_values pf) ?ps))"
    by (simp add: setup_forward_ports_def settings_array_def)
  with set_settings[OF s] show ?thesis
    by (simp add: map_add_def opt_entry_def)
qed

lemma teardown_settings:
  assumes "fwd_teardown_port_forward db tear w = (Ok (), w')"
    and "settings w ''forward_ports'' = Some (VArray (ZArray ''(ssss)'' old))"
    and "list_all (fits_sig ''(ssss)'') old"
  shows "settings w' ''forward_ports'' =
    Some (VArray (ZArray ''(ssss)'' (filter (\<lambda>v. \<not> leads_to (tpf_config tear) v) old)))"
proof -
  from assms(1) obtain v w1 config rules rich v2 where
    g: "fw_call db policy_iface ''getPolicySettings'' [VStr PORTPOLICYNAME] w = (Ok v, w1)"
    and config: "body_dict db (''Error decoding DBus message for policy '' @ PORTPOLICYNAME @ '' configuration'') v = Ok config"
    and rules: "teardown_forward_ports db (tpf_config tear) config = Ok rules"
    and s: "fw_call db policy_iface ''setPolicySettings''
       [VStr PORTPOLICYNAME, VDict (opt_entry ''forward_ports'' rules @ opt_entry ''rich_rules'' rich)] w1 = (Ok v2, w')"
    by (auto simp: fwd_teardown_port_forward_def get_policy_config_def set_policy_config_def comp_Ok)
  from get_settings[OF g] config have c: "config = settings w" "settings w1 = settings w" by auto
  from rules c assms(2) fold_keep_fits[OF assms(3)] have
    "rules = Some (ZArray ''(ssss)'' (filter (\<lambda>v. \<not> leads_to (tpf_config tear) v) old))"
    by (simp add: teardown_forward_ports_def settings_array_def)
  with set_settings[OF s] show ?thesis
    by (auto simp: map_add_def opt_entry_def split: option.splits)
qed

end

section \<open>An executable instance\<close>

record fw_world =
  fw_zone :: "string \<rightharpoonup> string"
  fw_settings :: "(string \<times> zvalue) list"

definition fw_method :: "string \<Rightarrow> zvalue list \<Rightarrow> (fw_world, string, zvalue) comp" where
  "fw_method method args w =
     (if method = ''getZoneOfSource''
      then (case args of
              [VStr s] \<Rightarrow> (Ok (VStr (case fw_zone w s of None \<Rightarrow> [] | Some z \<Rightarrow> z)), w)
            | _ \<Rightarrow> (Err ''bad arguments'', w))
      else if method = ''changeZoneOfSource''
      then (case args of
              [VStr z, VStr s] \<Rightarrow> (Ok (VStr z), w\<lparr>fw_zone := (fw_zone w)(s \<mapsto> z)\<rparr>)
            | _ \<Rightarrow> (Err ''bad arguments'', w))
      else if method = ''getPolicySettings'' then (Ok (VDict (fw_settings w)), w)
      else if method = ''setPolicySettings''
      then (case args of
              [VStr p, VDict kvs] \<Rightarrow> (Ok VUnit, w\<lparr>fw_settings := kvs @ fw_settings w\<rparr>)
            | _ \<Rightarrow> (Err ''bad arguments'', w))
      else (Err ''unknown method'', w))"

definition firewalld_ref :: "fw_world dbus" where
  "firewalld_ref =
     \<lparr>db_system = retc (), db_call = (\<lambda>dest path iface. fw_method),
      db_body_error = (\<lambda>_. ''signature mismatch''),
      zv_append = (\<lambda>arr v. if fits_sig (za_sig arr) v then Ok (ZArray (za_sig arr) (za_items arr @ [v]))
                           else Err ''signature mismatch'')\<rparr>"

interpretation ref_fw: firewalld_laws firewalld_ref fw_zone "\<lambda>w. map_of (fw_settings w)"
  by unfold_locales (auto simp: firewalld_ref_def fw_call_def fw_method_def comp_Ok)

section \<open>Properties\<close>

text \<open>
  When none of a network's subnets is a source of the zone yet, a successful run makes every one
  of them a source of it and changes no other source.
\<close>

lemma source_subnets_added:
  assumes "firewalld_laws db zone_of settings"
    and "add_source_subnets_to_zone lib db zone nets w = (Ok (), w')"
    and "distinct (map (\<lambda>n. ipnet_to_string lib (sub_subnet n)) nets)"
    and "\<forall>n\<in>set nets. zone_of w (ipnet_to_string lib (sub_subnet n)) \<noteq> Some zone" and "zone \<noteq> []"
  shows "zone_of w' s =
    (if s \<in> (\<lambda>n. ipnet_to_string lib (sub_subnet n)) ` set nets then Some zone else zone_of w s)"
  using firewalld_laws.add_source_fresh[OF assms(1), OF assms(2-5)] by simp

definition example_subnets :: "subnet list" where
  "example_subnets =
     [\<lparr>sub_gateway = None, sub_lease_range = None, sub_subnet = NetV4 (Ipv4Addr 10 88 0 0) 16\<rparr>,
      \<lparr>sub_gateway = None, sub_lease_range = None, sub_subnet = NetV4 (Ipv4Addr 10 89 0 0) 16\<rparr>]"

definition fw_empty :: fw_world where
  "fw_empty = \<lparr>fw_zone = Map.empty, fw_settings = []\<rparr>"

lemma to_string_ref_v4_inj [simp]: "to_string_ref (NetV4 a 16) = to_string_ref (NetV4 b 16) \<longleftrightarrow> a = b"
proof
  assume "to_string_ref (NetV4 a 16) = to_string_ref (NetV4 b 16)"
  then have "from_str_ref (to_string_ref (NetV4 a 16)) = from_str_ref (to_string_ref (NetV4 b 16))" by simp
  then show "a = b"
    using from_str_ref_show[of "V4 a" 16] from_str_ref_show[of "V4 b" 16]
    by (simp add: to_string_ref_def new_ref_def)
qed simp

lemma example_add_source:
  "add_source_subnets_to_zone ipnet_ref firewalld_ref ''z'' example_subnets fw_empty =
     (Ok (), fw_empty\<lparr>fw_zone := [to_string_ref (NetV4 (Ipv4Addr 10 88 0 0) 16) \<mapsto> ''z'',
                                  to_string_ref (NetV4 (Ipv4Addr 10 89 0 0) 16) \<mapsto> ''z'']\<rparr>)"
  by (simp add: example_subnets_def fw_empty_def firewalld_ref_def fw_call_def fw_method_def comp_simps
      ipnet_ref_simps zone_iface_def)

lemma source_subnets_added_example:
  "fw_zone (snd (add_source_subnets_to_zone ipnet_ref firewalld_ref ''z'' example_subnets fw_empty))
     (to_string_ref (NetV4 (Ipv4Addr 10 89 0 0) 16)) = Some ''z''"
  unfolding example_add_source snd_conv
  by (subst source_subnets_added[OF ref_fw.firewalld_laws_axioms example_add_source])
    (simp_all add: example_subnets_def fw_empty_def)

text \<open>
  When the first subnet of a network already is a source of the zone, the function returns
  successfully at once: a further subnet of the network that is not in the zone stays outside it.
\<close>

lemma source_subnets_skipped:
  assumes "firewalld_laws db zone_of settings"
    and "add_source_subnets_to_zone lib db zone (net # rest) w = (Ok (), w')"
    and "zone_of w (ipnet_to_string lib (sub_subnet net)) = Some zone"
    and "t \<in> set rest" and "zone_of w (ipnet_to_string lib (sub_subnet t)) \<noteq> Some zone"
  shows "zone_of w' (ipnet_to_string lib (sub_subnet t)) \<noteq> Some zone"
  using firewalld_laws.add_source_present[OF assms(1), OF assms(3,2)] assms(5) by simp

definition fw_half :: fw_world where
  "fw_half = \<lparr>fw_zone = [to_string_ref (NetV4 (Ipv4Addr 10 88 0 0) 16) \<mapsto> ''z''], fw_settings = []\<rparr>"

lemma example_skip_source:
  "add_source_subnets_to_zone ipnet_ref firewalld_ref ''z'' (hd example_subnets # tl example_subnets) fw_half =
     (Ok (), fw_half)"
  by (simp add: example_subnets_def fw_half_def firewalld_ref_def fw_call_def fw_method_def comp_simps
      ipnet_ref_simps zone_iface_def)

lemma source_subnets_skipped_example:
  "fw_zone (snd (add_source_subnets_to_zone ipnet_ref firewalld_ref ''z''
       (hd example_subnets # tl example_subnets) fw_half))
     (ipnet_to_string ipnet_ref (sub_subnet (example_subnets ! 1))) \<noteq> Some ''z''"
  unfolding example_skip_source snd_conv
  by (rule source_subnets_skipped[OF ref_fw.firewalld_laws_axioms example_skip_source])
    (simp_all add: example_subnets_def fw_half_def)

lemma port_values_lead: "pm_host_ip p = [] \<Longrightarrow> v \<in> set (port_values pf p) \<Longrightarrow> leads_to pf v"
  by (cases "pf_container_ip_v4 pf"; cases "pf_container_ip_v6 pf")
    (auto simp: port_values_def leads_to_def address_text_def)

text \<open>
  C24: forwarding a container's ports and tearing the forwarding down again leaves exactly the rules
  that were there before and do not lead to the container, as long as no mapping names a host
  address.
\<close>

theorem port_forward_roundtrip:
  assumes "firewalld_laws db zone_of settings"
    and "settings w ''forward_ports'' = Some (VArray (ZArray ''(ssss)'' old))"
    and "list_all (fits_sig ''(ssss)'') old"
    and "pf_port_mappings pf = Some ports" and "\<forall>p\<in>set ports. pm_host_ip p = []"
    and "fwd_setup_port_forward db pf w = (Ok (), w1)"
    and "fwd_teardown_port_forward db \<lparr>tpf_config = pf, tpf_complete_teardown = complete\<rparr> w1 = (Ok (), w2)"
  shows "settings w2 ''forward_ports'' =
    Some (VArray (ZArray ''(ssss)'' (filter (\<lambda>v. \<not> leads_to pf v) old)))"
proof -
  let ?new = "concat (map (port_values pf) ports)"
  have s: "settings w1 ''forward_ports'' = Some (VArray (ZArray ''(ssss)'' (old @ ?new)))"
    using firewalld_laws.setup_settings[OF assms(1), OF assms(6,2)] by (simp only: assms(4) option.case)
  have "list_all (fits_sig ''(ssss)'') (old @ ?new)"
    using assms(3) port_values_fit by (auto simp: list_all_iff)
  note t = firewalld_laws.teardown_settings[OF assms(1), OF assms(7), simplified, OF s this]
  have "filter (\<lambda>v. \<not> leads_to pf v) ?new = []"
    using assms(5) port_values_lead by (auto simp: filter_empty_conv)
  with t show ?thesis by simp
qed

definition example_mapping :: port_mapping where
  "example_mapping = \<lparr>pm_container_port = 80, pm_host_ip = [], pm_host_port = 8080, pm_protocol = ''tcp'', pm_range = 1\<rparr>"

definition example_forward :: "port_mapping \<Rightarrow> port_forward_config" where
  "example_forward m =
     \<lparr>pf_container_id = ''c'', pf_port_mappings = Some [m], pf_network_name = ''podman'',
      pf_network_hash_name = ''H'', pf_container_ip_v4 = Some (V4 (Ipv4Addr 10 88 0 2)),
      pf_subnet_v4 = Some (NetV4 (Ipv4Addr 10 88 0 0) 16), pf_container_ip_v6 = None, pf_subnet_v6 = None,
      pf_dns_port = 53, pf_dns_server_ips = []\<rparr>"

definition fw_rules :: "zvalue list \<Rightarrow> fw_world" where
  "fw_rules vs = \<lparr>fw_zone = Map.empty, fw_settings = [(''forward_ports'', VArray (ZArray ''(ssss)'' vs))]\<rparr>"

lemmas fwd_run_defs =
  fwd_setup_port_forward_def fwd_teardown_port_forward_def get_policy_config_def set_policy_config_def
  setup_forward_ports_def setup_rich_rules_def settings_array_def teardown_forward_ports_def
  teardown_rich_rules_def opt_entry_def fw_rules_def example_forward_def firewalld_ref_def fw_call_def
  fw_method_def comp_simps PORTPOLICYNAME_def policy_iface_def port_values_def append_value_def keep_rule_def
  make_port_tuple_def address_text_def

lemma example_forward_run:
  assumes "pm_host_ip m = [] \<or> pm_host_ip m = ''192.168.1.5''"
  shows "\<exists>w1 w2. fwd_setup_port_forward firewalld_ref (example_forward m) (fw_rules []) = (Ok (), w1) \<and>
     fwd_teardown_port_forward firewalld_ref \<lparr>tpf_config = example_forward m, tpf_complete_teardown = True\<rparr> w1 = (Ok (), w2)"
  using assms by (auto simp: fwd_run_defs Let_def)

theorem port_forward_roundtrip_witness:
  "\<exists>w1 w2. fwd_setup_port_forward firewalld_ref (example_forward example_mapping) (fw_rules []) = (Ok (), w1) \<and>
     fwd_teardown_port_forward firewalld_ref
       \<lparr>tpf_config = example_forward example_mapping, tpf_complete_teardown = True\<rparr> w1 = (Ok (), w2) \<and>
     map_of (fw_settings w2) ''forward_ports'' = Some (VArray (ZArray ''(ssss)'' []))"
proof -
  obtain w1 w2 where run: "fwd_setup_port_forward firewalld_ref (example_forward example_mapping) (fw_rules []) = (Ok (), w1)"
    "fwd_teardown_port_forward firewalld_ref
       \<lparr>tpf_config = example_forward example_mapping, tpf_complete_teardown = True\<rparr> w1 = (Ok (), w2)"
    using example_forward_run[of example_mapping] by (auto simp: example_mapping_def)
  have "map_of (fw_settings w2) ''forward_ports'' =
      Some (VArray (ZArray ''(ssss)'' (filter (\<lambda>v. \<not> leads_to (example_forward example_mapping) v) [])))"
    by (rule port_forward_roundtrip[where old = "[]" and ports = "[example_mapping]", OF ref_fw.firewalld_laws_axioms _ _ _ _ run])
      (simp_all add: fw_rules_def example_forward_def example_mapping_def)
  with run show ?thesis by auto
qed

text \<open>
  C38: a mapping that names a host address is stored with that address as its destination, so tearing
  down the container that asked for it does not find it: the rule stays in the policy.
\<close>

theorem host_ip_forward_survives:
  assumes "firewalld_laws db zone_of settings"
    and "settings w ''forward_ports'' = Some (VArray (ZArray ''(ssss)'' old))"
    and "list_all (fits_sig ''(ssss)'') old"
    and "pf_port_mappings pf = Some ports" and "m \<in> set ports" and "pm_host_ip m \<noteq> []"
    and "pm_host_ip m \<noteq> address_text (pf_container_ip_v4 pf)" and "pm_host_ip m \<noteq> address_text (pf_container_ip_v6 pf)"
    and "fwd_setup_port_forward db pf w = (Ok (), w1)"
    and "fwd_teardown_port_forward db \<lparr>tpf_config = pf, tpf_complete_teardown = complete\<rparr> w1 = (Ok (), w2)"
  shows "\<exists>rules. settings w2 ''forward_ports'' = Some (VArray (ZArray ''(ssss)'' rules)) \<and>
    tuple_value (make_port_tuple m (pm_host_ip m)) \<in> set rules"
proof -
  let ?new = "concat (map (port_values pf) ports)"
  have s: "settings w1 ''forward_ports'' = Some (VArray (ZArray ''(ssss)'' (old @ ?new)))"
    using firewalld_laws.setup_settings[OF assms(1), OF assms(9,2)] by (simp only: assms(4) option.case)
  have "list_all (fits_sig ''(ssss)'') (old @ ?new)"
    using assms(3) port_values_fit by (auto simp: list_all_iff)
  note t = firewalld_laws.teardown_settings[OF assms(1), OF assms(10), simplified, OF s this]
  have "tuple_value (make_port_tuple m (pm_host_ip m)) \<in> set (port_values pf m)"
    using assms(6) by (simp add: port_values_def)
  moreover have "\<not> leads_to pf (tuple_value (make_port_tuple m (pm_host_ip m)))"
    using assms(7,8) by (simp add: leads_to_def)
  ultimately show ?thesis using t assms(5) by auto
qed

theorem host_ip_forward_survives_witness:
  "\<exists>w1 w2 rules. fwd_setup_port_forward firewalld_ref
       (example_forward (example_mapping\<lparr>pm_host_ip := ''192.168.1.5''\<rparr>)) (fw_rules []) = (Ok (), w1) \<and>
     fwd_teardown_port_forward firewalld_ref
       \<lparr>tpf_config = example_forward (example_mapping\<lparr>pm_host_ip := ''192.168.1.5''\<rparr>), tpf_complete_teardown = True\<rparr> w1 = (Ok (), w2) \<and>
     map_of (fw_settings w2) ''forward_ports'' = Some (VArray (ZArray ''(ssss)'' rules)) \<and>
     tuple_value (''8080'', ''tcp'', ''80'', ''192.168.1.5'') \<in> set rules"
proof -
  let ?m = "example_mapping\<lparr>pm_host_ip := ''192.168.1.5''\<rparr>"
  obtain w1 w2 where run: "fwd_setup_port_forward firewalld_ref (example_forward ?m) (fw_rules []) = (Ok (), w1)"
    "fwd_teardown_port_forward firewalld_ref
       \<lparr>tpf_config = example_forward ?m, tpf_complete_teardown = True\<rparr> w1 = (Ok (), w2)"
    using example_forward_run[of ?m] by auto
  have "\<exists>rules. map_of (fw_settings w2) ''forward_ports'' = Some (VArray (ZArray ''(ssss)'' rules)) \<and>
      tuple_value (make_port_tuple ?m (pm_host_ip ?m)) \<in> set rules"
    by (rule host_ip_forward_survives[where old = "[]" and ports = "[?m]", OF ref_fw.firewalld_laws_axioms _ _ _ _ _ _ _ run])
      (simp_all add: fw_rules_def example_forward_def example_mapping_def address_text_def
        show_nat.simps digit_char_def)
  with run show ?thesis
    by (auto simp: make_port_tuple_def example_mapping_def show_port_def show_nat.simps digit_char_def)
qed

end
