(* ===== verification/Iptables.thy ===== *)
theory Iptables
  imports Firewalld
begin

text \<open>
  \<^verbatim>\<open>src/firewall/iptables.rs\<close>: the firewall driver on top of the chains of
  \<open>Varktables\<close>.  Its two connections are the flag that every operation of
  \<open>iptables\<close> takes.  The locale \<open>iptables_driver_laws\<close> adds to the laws of
  iptables that talking to DBus does not change the tables: firewalld, which the driver tells about
  the subnets, keeps its rules elsewhere (its nftables backend), or is not there.  Both
  machines are instances of the locale.
\<close>

definition MAX_HASH_SIZE :: nat where "MAX_HASH_SIZE = 13"

text \<open>\<open>open_ipt\<close> is \<^verbatim>\<open>iptables::new\<close>.\<close>

definition iptables_new :: "(bool \<Rightarrow> ('w, string, unit) comp) \<Rightarrow> ('w, unit) ncomp" where
  "iptables_new open_ipt =
     seqc (map_errc Message (open_ipt False)) (map_errc Message (open_ipt True))"

section \<open>Telling firewalld\<close>

definition is_firewalld_running :: "'w dbus \<Rightarrow> ('w, netavark_error, bool) comp" where
  "is_firewalld_running db =
     matchc (db_call db ''org.freedesktop.DBus'' ''/org/freedesktop/DBus'' ''org.freedesktop.DBus''
               ''GetNameOwner'' [VStr ''org.fedoraproject.FirewallD1''])
       (\<lambda>_. retc True) (\<lambda>_. retc False)"

definition add_firewalld_if_possible :: "ipnet_lib \<Rightarrow> 'w dbus \<Rightarrow> subnet \<Rightarrow> ('w, unit) ncomp" where
  "add_firewalld_if_possible lib db net =
     matchc (db_system db)
       (\<lambda>_. bindc (is_firewalld_running db) (\<lambda>running.
          if \<not> running then retc ()
          else matchc (add_source_subnets_to_zone lib db ''trusted'' [net]) (\<lambda>_. retc ()) (\<lambda>_. retc ())))
       (\<lambda>_. retc ())"

definition rm_firewalld_if_possible :: "ipnet_lib \<Rightarrow> 'w dbus \<Rightarrow> subnet \<Rightarrow> ('w, unit) ncomp" where
  "rm_firewalld_if_possible lib db net =
     matchc (db_system db)
       (\<lambda>_. bindc (is_firewalld_running db) (\<lambda>running.
          if \<not> running then retc ()
          else matchc (db_call db ''org.fedoraproject.FirewallD1'' ''/org/fedoraproject/FirewallD1'' zone_iface
                         ''removeSource'' [VStr ''trusted'', VStr (ipnet_to_string lib (sub_subnet net))])
                 (\<lambda>_. retc ()) (\<lambda>_. retc ())))
       (\<lambda>_. retc ())"

section \<open>Networks\<close>

definition subnet_chains :: "ipnet_lib \<Rightarrow> setup_network \<Rightarrow> string \<Rightarrow> subnet \<Rightarrow> vark_chain list" where
  "subnet_chains lib ns interface network =
     (let is_v6 = is_ipv6 (ipnet_network lib (sub_subnet network))
      in get_network_chains lib is_v6 (sub_subnet network) (sn_network_hash_name ns) is_v6 interface (sn_isolation ns))"

definition with_interface :: "setup_network \<Rightarrow> (string \<Rightarrow> ('w, unit) ncomp) \<Rightarrow> ('w, unit) ncomp" where
  "with_interface ns f =
     (case n_network_interface (sn_net ns) of
        Some iface \<Rightarrow> f iface
      | None \<Rightarrow> failc (Io (io_other ''failed to get interface'')))"

definition ipt_setup_network :: "ipnet_lib \<Rightarrow> 'w iptables \<Rightarrow> 'w dbus \<Rightarrow> setup_network \<Rightarrow> ('w, unit) ncomp" where
  "ipt_setup_network lib ipt db network_setup =
     with_interface network_setup (\<lambda>interface.
       case n_subnets (sn_net network_setup) of
         None \<Rightarrow> retc ()
       | Some subnets \<Rightarrow>
           for_each (\<lambda>network.
             seqc (create_network_chains ipt (subnet_chains lib network_setup interface network))
                  (add_firewalld_if_possible lib db network)) subnets)"

definition remove_on_complete :: "'w iptables \<Rightarrow> bool \<Rightarrow> vark_chain \<Rightarrow> ('w, unit) ncomp" where
  "remove_on_complete ipt complete c =
     (case vc_td_policy c of
        None \<Rightarrow> retc ()
      | Some policy \<Rightarrow> if complete \<and> policy = OnComplete then remove_chain ipt c else retc ())"

definition ipt_teardown_network :: "ipnet_lib \<Rightarrow> 'w iptables \<Rightarrow> 'w dbus \<Rightarrow> teardown_network \<Rightarrow> ('w, unit) ncomp" where
  "ipt_teardown_network lib ipt db tear =
     with_interface (tn_config tear) (\<lambda>interface.
       case n_subnets (sn_net (tn_config tear)) of
         None \<Rightarrow> retc ()
       | Some subnets \<Rightarrow>
           for_each (\<lambda>network.
             let cs = subnet_chains lib (tn_config tear) interface network
             in seqc (for_each (remove_rules ipt (tn_complete_teardown tear)) cs)
               (seqc (for_each (remove_on_complete ipt (tn_complete_teardown tear)) cs)
                     (if tn_complete_teardown tear then rm_firewalld_if_possible lib db network else retc ()))) subnets)"

section \<open>Forwarded ports\<close>

text \<open>The two halves of the functions, for each address family.\<close>

definition with_address ::
  "bool \<Rightarrow> port_forward_config \<Rightarrow> (ip_addr \<Rightarrow> ip_net \<Rightarrow> ('w, unit) ncomp) \<Rightarrow> ('w, unit) ncomp" where
  "with_address is_v6 pf f =
     (case (if is_v6 then pf_container_ip_v6 pf else pf_container_ip_v4 pf) of
        None \<Rightarrow> retc ()
      | Some ip \<Rightarrow>
          (case (if is_v6 then pf_subnet_v6 pf else pf_subnet_v4 pf) of
             Some s \<Rightarrow> f ip s
           | None \<Rightarrow>
               failc (Io (io_other (if is_v6 then ''ipv6 address but provided but no v6 subnet provided''
                                    else ''ipv4 address but provided but no v4 subnet provided'')))))"

definition setup_family :: "ipnet_lib \<Rightarrow> 'w iptables \<Rightarrow> port_forward_config \<Rightarrow> bool \<Rightarrow> ('w, unit) ncomp" where
  "setup_family lib ipt pf is_v6 =
     with_address is_v6 pf (\<lambda>ip s.
       bindc (liftc (get_port_forwarding_chains lib is_v6 pf ip s is_v6)) (create_network_chains ipt))"

definition ipt_setup_port_forward :: "ipnet_lib \<Rightarrow> 'w iptables \<Rightarrow> port_forward_config \<Rightarrow> ('w, unit) ncomp" where
  "ipt_setup_port_forward lib ipt pf = seqc (setup_family lib ipt pf False) (setup_family lib ipt pf True)"

definition remove_created :: "'w iptables \<Rightarrow> bool \<Rightarrow> vark_chain \<Rightarrow> ('w, unit) ncomp" where
  "remove_created ipt complete c =
     (if \<not> complete \<or> \<not> vc_create c then retc ()
      else case vc_td_policy c of
        None \<Rightarrow> retc ()
      | Some policy \<Rightarrow> if policy = OnComplete then remove_chain ipt c else retc ())"

definition teardown_family :: "ipnet_lib \<Rightarrow> 'w iptables \<Rightarrow> teardown_port_forward \<Rightarrow> bool \<Rightarrow> ('w, unit) ncomp" where
  "teardown_family lib ipt tear is_v6 =
     with_address is_v6 (tpf_config tear) (\<lambda>ip s.
       bindc (liftc (get_port_forwarding_chains lib is_v6 (tpf_config tear) ip s is_v6)) (\<lambda>cs.
         seqc (for_each (remove_rules ipt (tpf_complete_teardown tear)) cs)
              (for_each (remove_created ipt (tpf_complete_teardown tear)) cs)))"

definition ipt_teardown_port_forward :: "ipnet_lib \<Rightarrow> 'w iptables \<Rightarrow> teardown_port_forward \<Rightarrow> ('w, unit) ncomp" where
  "ipt_teardown_port_forward lib ipt tear = seqc (teardown_family lib ipt tear False) (teardown_family lib ipt tear True)"

section \<open>The driver as steps on the tables\<close>

locale iptables_driver_laws = iptables_laws ipt tab norm
  for ipt :: "'w iptables" and tab :: "'w \<Rightarrow> 'r tables" and norm :: "string \<Rightarrow> 'r" +
  fixes db :: "'w dbus"
  assumes system_reads: "reads tab (db_system db)"
    and call_reads: "reads tab (db_call db dest path iface method args)"
begin

lemma fw_call_reads: "reads tab (fw_call db iface method args)"
  by (simp add: fw_call_def call_reads)

lemma add_source_reads: "reads tab (add_source_subnets_to_zone lib db zone nets)"
proof (induction nets)
  case Nil
  then show ?case by simp
next
  case (Cons n nets)
  then show ?case
    by (auto intro!: reads_intros fw_call_reads)
qed

lemma running_reads: "reads tab (is_firewalld_running db)"
  unfolding is_firewalld_running_def by (intro reads_matchc call_reads) simp_all

lemma add_firewalld_reads: "reads tab (add_firewalld_if_possible lib db net)"
  unfolding add_firewalld_if_possible_def bindc_def
  by (auto intro!: reads_matchc system_reads running_reads simp: add_source_reads simp del: add_source_subnets_to_zone.simps)

lemma rm_firewalld_reads: "reads tab (rm_firewalld_if_possible lib db net)"
  unfolding rm_firewalld_if_possible_def bindc_def
  by (auto intro!: reads_matchc system_reads running_reads simp: call_reads)

end

text \<open>The chains of every subnet of a network.\<close>

definition network_chains :: "ipnet_lib \<Rightarrow> setup_network \<Rightarrow> vark_chain list list" where
  "network_chains lib ns =
     (case (n_network_interface (sn_net ns), n_subnets (sn_net ns)) of
        (Some interface, Some subnets) \<Rightarrow> map (subnet_chains lib ns interface) subnets
      | _ \<Rightarrow> [])"

definition setup_steps :: "(string \<Rightarrow> 'r) \<Rightarrow> vark_chain list list \<Rightarrow> ('r tables \<Rightarrow> 'r tables option) list" where
  "setup_steps norm css = concat (map (\<lambda>cs. chain_steps cs @ rule_steps norm cs) css)"

definition teardown_steps ::
  "(string \<Rightarrow> 'r) \<Rightarrow> bool \<Rightarrow> (vark_chain \<Rightarrow> bool) \<Rightarrow> vark_chain list list \<Rightarrow> ('r tables \<Rightarrow> 'r tables option) list" where
  "teardown_steps norm complete P css =
     concat (map (\<lambda>cs. concat (map (remove_steps norm complete) cs) @
                       map (\<lambda>c. drop_chain (key_of c)) (filter P cs)) css)"

lemma setup_step_cases:
  assumes "g \<in> set (setup_steps norm css)"
  obtains cs where "cs \<in> set css" "g \<in> set (chain_steps cs @ rule_steps norm cs)"
  using assms by (auto simp: setup_steps_def)

lemma setup_steps_installed:
  assumes "steps (setup_steps norm css) T = Some T'" and "cs \<in> set css"
  shows "installed norm cs T'"
proof -
  from assms(2) obtain as bs where css: "css = as @ cs # bs" by (auto dest: split_list)
  with assms(1) obtain T1 T2 where "steps (chain_steps cs @ rule_steps norm cs) T1 = Some T2"
    and rest: "steps (setup_steps norm bs) T2 = Some T'"
    by (auto simp: setup_steps_def steps_append bind_eq_Some_conv)
  then have "installed norm cs T2" by (intro create_steps_installed)
  then show ?thesis
    by (rule steps_induct[where P = "installed norm cs", OF rest])
      (meson installed_grows create_step_grows setup_step_cases)
qed

lemma doomed_append: "doomed norm complete (as @ bs) k = doomed norm complete as k \<union> doomed norm complete bs k"
  unfolding doomed_def set_append by blast

lemma teardown_steps_result:
  assumes "steps (teardown_steps norm complete P css) T = Some T'" and "rules_distinct T"
  shows "chain_rules T' k = filter (\<lambda>x. x \<notin> doomed norm complete (concat css) k) (chain_rules T k)"
  using assms
proof (induction css arbitrary: T)
  case Nil
  then show ?case by (simp add: teardown_steps_def doomed_def)
next
  case (Cons cs css)
  then obtain T1 T2 where T1: "steps (concat (map (remove_steps norm complete) cs)) T = Some T1"
    and T2: "steps (map (\<lambda>c. drop_chain (key_of c)) (filter P cs)) T1 = Some T2"
    and rest: "steps (teardown_steps norm complete P css) T2 = Some T'"
    by (auto simp: teardown_steps_def steps_append bind_eq_Some_conv)
  note r1 = steps_remove_chains[OF T1 Cons.prems(2)]
  have "rules_distinct T2 \<and> (\<forall>k. chain_rules T2 k = chain_rules T1 k)"
    by (rule steps_induct[where P = "\<lambda>S. rules_distinct S \<and> (\<forall>k. chain_rules S k = chain_rules T1 k)", OF T2])
      (use r1 in \<open>auto intro: distinct_drop_chain simp: drop_chain_rules\<close>)
  then show ?case using Cons.IH[OF rest] r1 by (auto simp: doomed_append intro!: filter_cong)
qed

context iptables_driver_laws
begin

lemma runs_setup_network: "runs tab (setup_steps norm (network_chains lib ns)) (ipt_setup_network lib ipt db ns)"
proof (cases "n_network_interface (sn_net ns)")
  case None
  then show ?thesis
    by (simp add: ipt_setup_network_def with_interface_def network_chains_def setup_steps_def reads_runs)
next
  case i: (Some i)
  show ?thesis
  proof (cases "n_subnets (sn_net ns)")
    case None
    with i show ?thesis
      by (simp add: ipt_setup_network_def with_interface_def network_chains_def setup_steps_def)
  next
    case (Some subnets)
    have "runs tab ((chain_steps cs @ rule_steps norm cs) @ [])
        (seqc (create_network_chains ipt cs) (add_firewalld_if_possible lib db s))" for cs s
      by (intro runs_seqc runs_create_network_chains reads_runs add_firewalld_reads)
    then have "runs tab (concat (map (\<lambda>s. chain_steps (subnet_chains lib ns i s) @ rule_steps norm (subnet_chains lib ns i s)) subnets))
        (for_each (\<lambda>s. seqc (create_network_chains ipt (subnet_chains lib ns i s)) (add_firewalld_if_possible lib db s)) subnets)"
      by (intro runs_for_each) simp
    with i Some show ?thesis
      by (simp add: ipt_setup_network_def with_interface_def network_chains_def setup_steps_def comp_def)
  qed
qed

lemma runs_remove_on_complete:
  "runs tab (map (\<lambda>c. drop_chain (key_of c)) (filter (\<lambda>c. complete \<and> vc_td_policy c = Some OnComplete) cs))
     (for_each (remove_on_complete ipt complete) cs)"
proof -
  have "runs tab (if complete \<and> vc_td_policy c = Some OnComplete then [drop_chain (key_of c)] else [])
      (remove_on_complete ipt complete c)" for c
    by (auto simp: remove_on_complete_def runs_remove_chain split: option.splits)
  then have "runs tab (concat (map (\<lambda>c. if complete \<and> vc_td_policy c = Some OnComplete then [drop_chain (key_of c)] else []) cs))
      (for_each (remove_on_complete ipt complete) cs)" by (intro runs_for_each)
  moreover have "concat (map (\<lambda>c. if Q c then [f c] else []) xs) = map f (filter Q xs)"
    for Q :: "vark_chain \<Rightarrow> bool" and f :: "vark_chain \<Rightarrow> 'r tables \<Rightarrow> 'r tables option" and xs by (induction xs) auto
  ultimately show ?thesis by simp
qed

lemma runs_teardown_network:
  "runs tab (teardown_steps norm (tn_complete_teardown tear)
       (\<lambda>c. tn_complete_teardown tear \<and> vc_td_policy c = Some OnComplete) (network_chains lib (tn_config tear)))
     (ipt_teardown_network lib ipt db tear)"
proof (cases "n_network_interface (sn_net (tn_config tear))")
  case None
  then show ?thesis
    by (simp add: ipt_teardown_network_def with_interface_def network_chains_def teardown_steps_def reads_runs)
next
  case i: (Some i)
  show ?thesis
  proof (cases "n_subnets (sn_net (tn_config tear))")
    case None
    with i show ?thesis
      by (simp add: ipt_teardown_network_def with_interface_def network_chains_def teardown_steps_def)
  next
    case (Some subnets)
    let ?c = "tn_complete_teardown tear"
    have "runs tab (concat (map (remove_steps norm ?c) cs) @
          (map (\<lambda>c. drop_chain (key_of c)) (filter (\<lambda>c. ?c \<and> vc_td_policy c = Some OnComplete) cs) @ []))
        (seqc (for_each (remove_rules ipt ?c) cs) (seqc (for_each (remove_on_complete ipt ?c) cs)
           (if ?c then rm_firewalld_if_possible lib db s else retc ())))" for cs s
      by (intro runs_seqc runs_for_each runs_remove_rules runs_remove_on_complete)
        (simp add: reads_runs rm_firewalld_reads)
    then have "runs tab (concat (map (\<lambda>s. concat (map (remove_steps norm ?c) (subnet_chains lib (tn_config tear) i s)) @
          map (\<lambda>c. drop_chain (key_of c)) (filter (\<lambda>c. ?c \<and> vc_td_policy c = Some OnComplete) (subnet_chains lib (tn_config tear) i s))) subnets))
        (for_each (\<lambda>s. let cs = subnet_chains lib (tn_config tear) i s in
           seqc (for_each (remove_rules ipt ?c) cs) (seqc (for_each (remove_on_complete ipt ?c) cs)
           (if ?c then rm_firewalld_if_possible lib db s else retc ()))) subnets)"
      by (intro runs_for_each) (simp add: Let_def)
    with i Some show ?thesis
      by (simp add: ipt_teardown_network_def with_interface_def network_chains_def teardown_steps_def comp_def)
  qed
qed

end

section \<open>An executable instance\<close>

text \<open>The reference tables on a machine without a system bus.\<close>

definition no_dbus :: "'w dbus" where
  "no_dbus = \<lparr>db_system = failc ''no bus'', db_call = (\<lambda>_ _ _ _ _. failc ''no bus''),
              db_body_error = (\<lambda>_. ''no bus''), zv_append = (\<lambda>_ _. Err ''no bus'')\<rparr>"

interpretation ref_drv: iptables_driver_laws iptables_ref map_of "\<lambda>r. r" no_dbus
  by unfold_locales (simp_all add: no_dbus_def)

text \<open>The reference tables beside a firewalld with a list of trusted sources.\<close>

definition beside :: "('a, 'e, 'x) comp \<Rightarrow> ('a \<times> 'b, 'e, 'x) comp" where
  "beside m w = (case m (fst w) of (r, a) \<Rightarrow> (r, (a, snd w)))"

definition iptables_beside :: "'a iptables \<Rightarrow> ('a \<times> 'b) iptables" where
  "iptables_beside ipt =
     \<lparr>ipt_exists = (\<lambda>d t c r. beside (ipt_exists ipt d t c r)), ipt_append = (\<lambda>d t c r. beside (ipt_append ipt d t c r)),
      ipt_insert = (\<lambda>d t c r p. beside (ipt_insert ipt d t c r p)), ipt_delete = (\<lambda>d t c r. beside (ipt_delete ipt d t c r)),
      ipt_new_chain = (\<lambda>d t c. beside (ipt_new_chain ipt d t c)), ipt_delete_chain = (\<lambda>d t c. beside (ipt_delete_chain ipt d t c)),
      ipt_list = (\<lambda>d t c. beside (ipt_list ipt d t c)), ipt_list_chains = (\<lambda>d t. beside (ipt_list_chains ipt d t))\<rparr>"

fun trusted_call :: "string \<Rightarrow> zvalue list \<Rightarrow> ('a \<times> string list, string, zvalue) comp" where
  "trusted_call method [VStr z, VStr net] w =
     (if method = ''changeZoneOfSource'' then (Ok (VStr z), (fst w, net # snd w))
      else if method = ''removeSource'' then (Ok (VStr z), (fst w, removeAll net (snd w)))
      else (Err ''unknown method'', w))"
| "trusted_call method [VStr s] w =
     (if method = ''GetNameOwner'' then (Ok (VStr '':1.1''), w)
      else if method = ''getZoneOfSource'' then (Ok (VStr (if s \<in> set (snd w) then ''trusted'' else [])), w)
      else (Err ''unknown method'', w))"
| "trusted_call _ _ w = (Err ''unknown call'', w)"

definition trusted_bus :: "('a \<times> string list) dbus" where
  "trusted_bus = \<lparr>db_system = retc (), db_call = (\<lambda>_ _ _. trusted_call), db_body_error = (\<lambda>_. ''type''),
     zv_append = (\<lambda>_ _. Err ''type'')\<rparr>"

lemma trusted_call_tables: "fst (snd (trusted_call mthd args w)) = fst w"
  by (induction mthd args w rule: trusted_call.induct) simp_all

interpretation trusted_drv: iptables_driver_laws "iptables_beside iptables_ref" "map_of \<circ> fst" "\<lambda>r. r" trusted_bus
  by unfold_locales
    (auto simp: iptables_beside_def beside_def iptables_ref_def reads_def atomic_def AList.update_conv' AList.delete_conv'
       ref_chain_listed trusted_bus_def trusted_call_tables retc_def split: option.splits if_splits prod.splits)

definition base_tables :: ref_tables where
  "base_tables = [(Key False ''nat'' ''PREROUTING'', []), (Key False ''nat'' ''OUTPUT'', []),
     (Key False ''nat'' ''POSTROUTING'', []), (Key False ''filter'' ''FORWARD'', [])]"

definition example_setup :: "bool \<Rightarrow> setup_network" where
  "example_setup isolation =
     \<lparr>sn_net = \<lparr>n_dns_enabled = False, n_driver = ''bridge'', n_id = ''id'', n_internal = False,
        n_ipv6_enabled = False, n_name = ''podman'', n_network_interface = Some ''podman0'',
        n_options = None, n_ipam_options = None, n_subnets = Some [hd example_subnets], n_network_dns_servers = None\<rparr>,
      sn_network_hash_name = ''H'', sn_isolation = isolation\<rparr>"

lemmas ipt_run_defs =
  ipt_setup_network_def with_interface_def subnet_chains_def get_network_chains_def create_network_chains_def
  add_chain_unique_def chain_exists_def add_rules_def add_rule_def append_unique_def build_rule_def
  vark_rule_new_def vark_chain_new_def iptables_ref_def base_tables_def example_setup_def example_subnets_def
  comp_simps chain_rules_def insert_at_def add_firewalld_if_possible_def no_dbus_def

lemma example_ipt_setup:
  "\<exists>w'. ipt_setup_network ipnet_ref iptables_ref no_dbus (example_setup True) base_tables = (Ok (), w')"
  by (simp add: ipt_run_defs Let_def)

section \<open>Properties of the driver\<close>

text \<open>
  C3: after a successful set-up every chain the network needs exists and every rule of every
  subnet is in its chain.
\<close>

theorem ipt_setup_installs:
  assumes "iptables_driver_laws ipt tab norm db"
    and "ipt_setup_network lib ipt db ns w = (Ok (), w')"
    and "cs \<in> set (network_chains lib ns)"
  shows "installed norm cs (tab w')"
proof -
  note runs_Ok[OF iptables_driver_laws.runs_setup_network[OF assms(1)] assms(2)]
  then show ?thesis using assms(3) by (rule setup_steps_installed)
qed


theorem ipt_setup_installs_witness:
  "\<exists>w'. ipt_setup_network ipnet_ref iptables_ref no_dbus (example_setup True) base_tables = (Ok (), w') \<and>
     installed (\<lambda>r. r) (subnet_chains ipnet_ref (example_setup True) ''podman0'' (hd example_subnets)) (map_of w')"
proof -
  obtain w' where run: "ipt_setup_network ipnet_ref iptables_ref no_dbus (example_setup True) base_tables = (Ok (), w')"
    using example_ipt_setup ..
  have "subnet_chains ipnet_ref (example_setup True) ''podman0'' (hd example_subnets)
      \<in> set (network_chains ipnet_ref (example_setup True))"
    by (simp add: network_chains_def example_setup_def)
  from ipt_setup_installs[OF ref_drv.iptables_driver_laws_axioms run this] run show ?thesis by blast
qed

text \<open>
  C21: whatever the outcome of a set-up, also when it fails half way, no chain and no rule is lost or
  reordered, and a table without duplicate rules gets none.
\<close>

theorem ipt_setup_only_adds:
  assumes "iptables_driver_laws ipt tab norm db"
    and "ipt_setup_network lib ipt db ns w = (r, w')"
  shows "grows (tab w) (tab w') \<and> (rules_distinct (tab w) \<longrightarrow> rules_distinct (tab w'))"
proof (rule runs_keeps[OF iptables_driver_laws.runs_setup_network[OF assms(1)] assms(2),
      where P = "\<lambda>T. grows (tab w) T \<and> (rules_distinct (tab w) \<longrightarrow> rules_distinct T)"])
  fix g T T'
  assume "g \<in> set (setup_steps norm (network_chains lib ns))" and T: "g T = Some T'"
    and IH: "grows (tab w) T \<and> (rules_distinct (tab w) \<longrightarrow> rules_distinct T)"
  then obtain cs where "g \<in> set (chain_steps cs @ rule_steps norm cs)" by (blast elim: setup_step_cases)
  with T IH show "grows (tab w) T' \<and> (rules_distinct (tab w) \<longrightarrow> rules_distinct T')"
    by (meson create_step_grows create_step_distinct grows_trans)
qed simp

theorem ipt_setup_only_adds_witness:
  "grows (map_of base_tables)
     (map_of (snd (ipt_setup_network ipnet_ref iptables_ref no_dbus (example_setup True) base_tables)))"
  using ipt_setup_only_adds[OF ref_drv.iptables_driver_laws_axioms, of ipnet_ref "example_setup True" base_tables]
  by (cases "ipt_setup_network ipnet_ref iptables_ref no_dbus (example_setup True) base_tables") simp

text \<open>
  C20: setting a network up again, after a set-up that succeeded, changes nothing in the tables.
\<close>

theorem ipt_setup_idempotent:
  assumes "iptables_driver_laws ipt tab norm db"
    and "ipt_setup_network lib ipt db ns w = (Ok (), w1)"
    and "ipt_setup_network lib ipt db ns w1 = (r, w2)"
  shows "tab w2 = tab w1"
proof -
  note first = runs_Ok[OF iptables_driver_laws.runs_setup_network[OF assms(1)] assms(2)]
  have idle: "g (tab w1) = Some (tab w1)" if g: "g \<in> set (setup_steps norm (network_chains lib ns))" for g
  proof -
    from g obtain cs where cs: "cs \<in> set (network_chains lib ns)" "g \<in> set (chain_steps cs @ rule_steps norm cs)"
      by (rule setup_step_cases)
    from setup_steps_installed[OF first cs(1)] cs(2) show ?thesis
      by (elim create_step_cases) (auto simp: installed_def intro: make_chain_present put_rule_present)
  qed
  show ?thesis
    by (rule runs_keeps[OF iptables_driver_laws.runs_setup_network[OF assms(1)] assms(3),
        where P = "\<lambda>T. T = tab w1"]) (simp, metis idle option.inject)
qed

theorem ipt_setup_idempotent_witness:
  "\<exists>w1. ipt_setup_network ipnet_ref iptables_ref no_dbus (example_setup True) base_tables = (Ok (), w1) \<and>
     map_of (snd (ipt_setup_network ipnet_ref iptables_ref no_dbus (example_setup True) w1)) = map_of w1"
proof -
  obtain w1 where run: "ipt_setup_network ipnet_ref iptables_ref no_dbus (example_setup True) base_tables = (Ok (), w1)"
    using example_ipt_setup ..
  from ipt_setup_idempotent[OF ref_drv.iptables_driver_laws_axioms run] run show ?thesis
    by (metis prod.collapse)
qed

text \<open>
  C4: in tables without duplicate rules, a successful tear-down removes from every chain exactly
  the rules of the network that are to go, by their marks: with the last container those marked for
  complete removal, never those marked to stay.  All other rules keep their order.
\<close>

theorem ipt_teardown_exact:
  assumes "iptables_driver_laws ipt tab norm db"
    and "rules_distinct (tab w)"
    and "ipt_teardown_network lib ipt db tear w = (Ok (), w')"
  shows "chain_rules (tab w') k =
    filter (\<lambda>x. x \<notin> doomed norm (tn_complete_teardown tear) (concat (network_chains lib (tn_config tear))) k)
      (chain_rules (tab w) k)"
  by (rule teardown_steps_result[OF runs_Ok[OF iptables_driver_laws.runs_teardown_network[OF assms(1)] assms(3)] assms(2)])

lemma example_ipt_teardown:
  "\<exists>w1 w2. ipt_setup_network ipnet_ref iptables_ref no_dbus (example_setup True) base_tables = (Ok (), w1) \<and>
     rules_distinct (map_of w1) \<and>
     ipt_teardown_network ipnet_ref iptables_ref no_dbus
       \<lparr>tn_config = example_setup True, tn_complete_teardown = True\<rparr> w1 = (Ok (), w2)"
proof -
  obtain w1 where run: "ipt_setup_network ipnet_ref iptables_ref no_dbus (example_setup True) base_tables = (Ok (), w1)"
    using example_ipt_setup ..
  then have w1: "w1 = snd (ipt_setup_network ipnet_ref iptables_ref no_dbus (example_setup True) base_tables)" by simp
  have "\<exists>w2. ipt_teardown_network ipnet_ref iptables_ref no_dbus
       \<lparr>tn_config = example_setup True, tn_complete_teardown = True\<rparr> w1 = (Ok (), w2)"
    unfolding w1
    by (simp add: ipt_run_defs ipt_teardown_network_def remove_rules_def remove_if_rule_exists_def
        skips_removal_def remove_on_complete_def remove_chain_def rm_firewalld_if_possible_def Let_def)
  moreover have "rules_distinct (map_of w1)"
    unfolding w1 by (simp add: rules_distinct_def ipt_run_defs Let_def)
  ultimately show ?thesis using run by blast
qed

theorem ipt_teardown_exact_witness:
  "\<exists>w1 w2. ipt_teardown_network ipnet_ref iptables_ref no_dbus
       \<lparr>tn_config = example_setup True, tn_complete_teardown = True\<rparr> w1 = (Ok (), w2) \<and>
     chain_rules (map_of w2) (Key False ''filter'' ''FORWARD'') =
       filter (\<lambda>x. x \<notin> doomed (\<lambda>r. r) True (concat (network_chains ipnet_ref (example_setup True))) (Key False ''filter'' ''FORWARD''))
         (chain_rules (map_of w1) (Key False ''filter'' ''FORWARD''))"
proof -
  obtain w1 w2 where run: "rules_distinct (map_of w1)" "ipt_teardown_network ipnet_ref iptables_ref no_dbus
       \<lparr>tn_config = example_setup True, tn_complete_teardown = True\<rparr> w1 = (Ok (), w2)"
    using example_ipt_teardown by blast
  from ipt_teardown_exact[OF ref_drv.iptables_driver_laws_axioms run, of "Key False ''filter'' ''FORWARD''"] run(2)
  show ?thesis by auto
qed

lemma network_rules_have_policy:
  assumes "cs \<in> set (network_chains lib ns)" and "c \<in> set cs" and "r \<in> set (vc_rules c)"
  shows "vr_td_policy r \<noteq> None"
  using assms
  by (auto simp: network_chains_def subnet_chains_def get_network_chains_def build_rule_def vark_rule_new_def
      vark_chain_new_def Let_def split: option.splits if_splits)

text \<open>
  C22: a tear-down that is not complete, because other containers still use the network, leaves the
  tables as they are.
\<close>

theorem ipt_partial_teardown_idle:
  assumes "iptables_driver_laws ipt tab norm db"
    and "\<not> tn_complete_teardown tear"
    and "ipt_teardown_network lib ipt db tear w = (r, w')"
  shows "tab w' = tab w"
proof -
  have "skips_removal False x" if "cs \<in> set (network_chains lib (tn_config tear))" "c \<in> set cs" "x \<in> set (vc_rules c)" for cs c x
    using network_rules_have_policy[OF that] by (auto simp: skips_removal_def)
  then have "remove_steps norm False c = []" if "cs \<in> set (network_chains lib (tn_config tear))" "c \<in> set cs" for cs c
    using that by (auto simp: remove_steps_def filter_empty_conv)
  with assms(2) have "teardown_steps norm (tn_complete_teardown tear)
       (\<lambda>c. tn_complete_teardown tear \<and> vc_td_policy c = Some OnComplete) (network_chains lib (tn_config tear)) = []"
    by (simp add: teardown_steps_def)
  with runs_any[OF iptables_driver_laws.runs_teardown_network[OF assms(1)] assms(3)] show ?thesis by simp
qed

theorem ipt_partial_teardown_idle_witness:
  "\<exists>w. ipt_setup_network ipnet_ref iptables_ref no_dbus (example_setup True) base_tables = (Ok (), w) \<and>
     map_of (snd (ipt_teardown_network ipnet_ref iptables_ref no_dbus
       \<lparr>tn_config = example_setup True, tn_complete_teardown = False\<rparr> w)) = map_of w"
proof -
  obtain w where run: "ipt_setup_network ipnet_ref iptables_ref no_dbus (example_setup True) base_tables = (Ok (), w)"
    using example_ipt_setup ..
  from ipt_partial_teardown_idle[OF ref_drv.iptables_driver_laws_axioms,
      of "\<lparr>tn_config = example_setup True, tn_complete_teardown = False\<rparr>" ipnet_ref w] run
  show ?thesis
    by (cases "ipt_teardown_network ipnet_ref iptables_ref no_dbus
       \<lparr>tn_config = example_setup True, tn_complete_teardown = False\<rparr> w") simp
qed

text \<open>The rules of some chains in the chain \<open>k\<close>.\<close>

definition rules_of :: "(string \<Rightarrow> 'r) \<Rightarrow> vark_chain list \<Rightarrow> chain_key \<Rightarrow> 'r set" where
  "rules_of norm cs k = {norm (vr_rule r) | c r. c \<in> set cs \<and> key_of c = k \<and> r \<in> set (vc_rules c)}"

text \<open>
  What a set-up and a tear-down leave: of the rules of the chains \<open>cs\<close> those that go are gone and
  the others are there, and all other rules are what they were, in the same order.
\<close>

definition restored :: "(string \<Rightarrow> 'r) \<Rightarrow> bool \<Rightarrow> vark_chain list \<Rightarrow> 'r tables \<Rightarrow> 'r tables \<Rightarrow> bool" where
  "restored norm complete cs T T' \<longleftrightarrow> (\<forall>k.
     set (chain_rules T' k) \<inter> rules_of norm cs k = rules_of norm cs k - doomed norm complete cs k \<and>
     filter (\<lambda>x. x \<notin> rules_of norm cs k) (chain_rules T' k) = filter (\<lambda>x. x \<notin> rules_of norm cs k) (chain_rules T k))"

lemma doomed_rules: "doomed norm complete cs k \<subseteq> rules_of norm cs k"
  by (auto simp: doomed_def rules_of_def)

lemma filter_insert_at: "\<not> P x \<Longrightarrow> filter P (insert_at n x xs) = filter P xs"
  unfolding insert_at_def by (metis append_take_drop_id filter.simps(2) filter_append)

lemma put_rule_filter:
  assumes "put_rule j pos r T = Some T'" "j = k \<longrightarrow> \<not> P r"
  shows "filter P (chain_rules T' k) = filter P (chain_rules T k)"
  using assms by (auto simp: put_rule_def chain_rules_def filter_insert_at split: option.splits if_splits)

lemma make_chain_rules: "make_chain j T = Some T' \<Longrightarrow> chain_rules T' k = chain_rules T k"
  by (auto simp: make_chain_def chain_rules_def split: if_splits)

lemma setup_steps_others:
  assumes "steps (setup_steps norm css) T = Some T'"
  shows "filter (\<lambda>x. x \<notin> rules_of norm (concat css) k) (chain_rules T' k) =
    filter (\<lambda>x. x \<notin> rules_of norm (concat css) k) (chain_rules T k)" (is "?f T' = ?f T")
proof (rule steps_induct[OF assms, where P = "\<lambda>S. ?f S = ?f T"])
  fix g S S'
  assume "g \<in> set (setup_steps norm css)" and S: "?f S = ?f T" "g S = Some S'"
  then obtain cs where cs: "cs \<in> set css" "g \<in> set (chain_steps cs @ rule_steps norm cs)" by (blast elim: setup_step_cases)
  from cs(2) have "?f S' = ?f S"
  proof (cases rule: create_step_cases)
    case (2 c r)
    with cs(1) have "key_of c = k \<longrightarrow> norm (vr_rule r) \<in> rules_of norm (concat css) k" by (auto simp: rules_of_def)
    with 2 S(2) show ?thesis by (intro put_rule_filter) auto
  qed (use S(2) in \<open>simp add: make_chain_rules\<close>)
  with S(1) show "?f S' = ?f T" by simp
qed simp

lemma roundtrip_restored:
  assumes up: "steps (setup_steps norm css) T = Some T1" and down: "steps (teardown_steps norm complete P css) T1 = Some T2"
    and dist: "rules_distinct T"
  shows "restored norm complete (concat css) T T2"
proof -
  let ?cs = "concat css"
  have "rules_distinct T1"
    by (rule steps_induct[OF up, where P = rules_distinct])
      (use dist in \<open>auto elim!: setup_step_cases intro: create_step_distinct simp del: set_append\<close>)
  note gone = teardown_steps_result[OF down this]
  have "rules_of norm ?cs k \<subseteq> set (chain_rules T1 k)" for k
    using setup_steps_installed[OF up] by (auto simp: rules_of_def installed_def)
  moreover have "filter (\<lambda>x. x \<notin> rules_of norm ?cs k) (chain_rules T2 k) = filter (\<lambda>x. x \<notin> rules_of norm ?cs k) (chain_rules T1 k)" for k
    using doomed_rules[of norm complete ?cs k] by (auto simp: gone intro!: filter_cong)
  ultimately show ?thesis
    unfolding restored_def using setup_steps_others[OF up] by (auto simp: gone)
qed

text \<open>
  C5: in tables without duplicate rules, setting a network up and tearing it down leaves of the
  network's rules exactly those that are to stay by their marks (with a complete tear-down only
  those marked so, otherwise all), and every other rule of every chain as it was, in the same order.
\<close>

theorem ipt_network_roundtrip:
  assumes "iptables_driver_laws ipt tab norm db" and "rules_distinct (tab w)"
    and "ipt_setup_network lib ipt db ns w = (Ok (), w1)"
    and "ipt_teardown_network lib ipt db \<lparr>tn_config = ns, tn_complete_teardown = complete\<rparr> w1 = (Ok (), w2)"
  shows "restored norm complete (concat (network_chains lib ns)) (tab w) (tab w2)"
  using roundtrip_restored[OF runs_Ok[OF iptables_driver_laws.runs_setup_network[OF assms(1)] assms(3)] _ assms(2)]
    runs_Ok[OF iptables_driver_laws.runs_teardown_network[OF assms(1)] assms(4)] by simp

theorem ipt_network_roundtrip_witness:
  "\<exists>w1 w2. ipt_setup_network ipnet_ref iptables_ref no_dbus (example_setup True) base_tables = (Ok (), w1) \<and>
     ipt_teardown_network ipnet_ref iptables_ref no_dbus \<lparr>tn_config = example_setup True, tn_complete_teardown = True\<rparr> w1 = (Ok (), w2) \<and>
     restored (\<lambda>r. r) True (concat (network_chains ipnet_ref (example_setup True))) (map_of base_tables) (map_of w2)"
proof -
  obtain w1 w2 where run: "ipt_setup_network ipnet_ref iptables_ref no_dbus (example_setup True) base_tables = (Ok (), w1)"
    "ipt_teardown_network ipnet_ref iptables_ref no_dbus \<lparr>tn_config = example_setup True, tn_complete_teardown = True\<rparr> w1 = (Ok (), w2)"
    using example_ipt_teardown by blast
  have "rules_distinct (map_of base_tables)" by (simp add: rules_distinct_def chain_rules_def base_tables_def)
  from ipt_network_roundtrip[OF ref_drv.iptables_driver_laws_axioms this run] run show ?thesis by blast
qed

subsection \<open>Isolation\<close>

definition iso_jump :: string where
  "iso_jump = ''-j NETAVARK_ISOLATION_1''"

definition fwd_jump :: string where
  "fwd_jump = ''-m comment --comment '' @ [CHR 0x27] @ ''netavark firewall plugin rules'' @ [CHR 0x27] @ '' -j NETAVARK_FORWARD''"

definition iso_rule :: "string \<Rightarrow> string" where
  "iso_rule interface = ''-i '' @ interface @ '' ! -o '' @ interface @ '' -j NETAVARK_ISOLATION_2''"

lemma put_rule_other: "put_rule j pos r T = Some T' \<Longrightarrow> k \<noteq> j \<Longrightarrow> T' k = T k"
  by (auto simp: put_rule_def split: option.splits if_splits)

lemma make_chain_other: "make_chain j T = Some T' \<Longrightarrow> T k \<noteq> None \<Longrightarrow> T' k = T k"
  by (auto simp: make_chain_def split: if_splits)

text \<open>Steps that leave chain \<open>k\<close> alone.\<close>

lemma steps_other:
  assumes "steps gs T = Some T'" and "T k \<noteq> None"
    and "\<And>g. g \<in> set gs \<Longrightarrow> (\<exists>j. g = make_chain j) \<or> (\<exists>j pos r. g = put_rule j pos r \<and> j \<noteq> k)"
  shows "T' k = T k"
proof (rule steps_induct[where P = "\<lambda>S. S k = T k", OF assms(1)])
  fix g S S'
  assume "g \<in> set gs" and S: "S k = T k" and g: "g S = Some S'"
  then consider j where "g = make_chain j" | j pos r where "g = put_rule j pos r" "j \<noteq> k"
    using assms(3) by blast
  then show "S' k = T k"
  proof cases
    case 1
    with g S assms(2) show ?thesis using make_chain_other[of j S S' k] by simp
  next
    case 2
    with g S show ?thesis using put_rule_other[of j pos r S S' k] by simp
  qed
qed simp

lemma isolated_chains:
  "\<exists>before forward after.
     get_network_chains lib conn network h v6 i True = before @ [forward] @ after \<and>
     (\<forall>c\<in>set (before @ after). key_of c \<noteq> Key conn ''filter'' ''FORWARD'') \<and>
     key_of forward = Key conn ''filter'' ''FORWARD'' \<and> \<not> vc_create forward \<and>
     vc_rules forward = [\<lparr>vr_rule = iso_jump, vr_td_policy = Some OnComplete, vr_position = Some 1\<rparr>,
                         \<lparr>vr_rule = fwd_jump, vr_td_policy = Some Never, vr_position = Some 2\<rparr>]"
  by (rule exI[of _ "take 4 (get_network_chains lib conn network h v6 i True)"],
      rule exI[of _ "get_network_chains lib conn network h v6 i True ! 4"],
      rule exI[of _ "drop 5 (get_network_chains lib conn network h v6 i True)"])
    (simp add: get_network_chains_def build_rule_def vark_rule_new_def vark_chain_new_def Let_def
      iso_jump_def fwd_jump_def numeral_eq_Suc)

lemma rule_steps_append: "rule_steps norm (as @ bs) = rule_steps norm as @ rule_steps norm bs"
  by (simp add: rule_steps_def)

lemma rule_stepsE:
  "g \<in> set (rule_steps norm cs) \<Longrightarrow>
     \<exists>c\<in>set cs. \<exists>r\<in>set (vc_rules c). g = put_rule (key_of c) (vr_position r) (norm (vr_rule r))"
  by (auto simp: rule_steps_def)

lemma isolated_forward:
  assumes "steps (setup_steps norm [get_network_chains lib conn network h v6 i True]) T = Some T'"
    and "T (Key conn ''filter'' ''FORWARD'') = Some rs"
    and "norm iso_jump \<notin> set rs" and "norm fwd_jump \<notin> set rs" and "norm iso_jump \<noteq> norm fwd_jump"
  shows "T' (Key conn ''filter'' ''FORWARD'') = Some (norm iso_jump # norm fwd_jump # rs)"
proof -
  let ?k = "Key conn ''filter'' ''FORWARD''" and ?cs = "get_network_chains lib conn network h v6 i True"
  obtain before forward after where cs: "?cs = before @ [forward] @ after"
    and other: "\<forall>c\<in>set (before @ after). key_of c \<noteq> ?k" and fwd: "key_of forward = ?k"
      "vc_rules forward = [\<lparr>vr_rule = iso_jump, vr_td_policy = Some OnComplete, vr_position = Some 1\<rparr>,
                         \<lparr>vr_rule = fwd_jump, vr_td_policy = Some Never, vr_position = Some 2\<rparr>]"
    using isolated_chains[of lib conn network h v6 i] by blast
  have split: "rule_steps norm ?cs = rule_steps norm before @ rule_steps norm [forward] @ rule_steps norm after"
    by (simp add: rule_steps_def cs)
  from assms(1) obtain T1 T2 where
    T1: "steps (chain_steps ?cs @ rule_steps norm before) T = Some T1"
    and T2: "steps (rule_steps norm [forward]) T1 = Some T2"
    and T3: "steps (rule_steps norm after) T2 = Some T'"
    by (auto simp: setup_steps_def split steps_append bind_eq_Some_conv simp del: append_Cons)
  have step: "(\<exists>j. g = make_chain j) \<or> (\<exists>j pos r. g = put_rule j pos r \<and> j \<noteq> ?k)"
    if "g \<in> set (chain_steps ?cs @ rule_steps norm (before @ after))" for g
  proof -
    from that consider "g \<in> set (chain_steps ?cs)" | "g \<in> set (rule_steps norm (before @ after))"
      unfolding set_append by blast
    then show ?thesis
    proof cases
      case 1
      then show ?thesis by (auto simp: chain_steps_def)
    next
      case 2
      from rule_stepsE[OF this] obtain c and r :: vark_rule
        where "c \<in> set (before @ after)" and g: "g = put_rule (key_of c) (vr_position r) (norm (vr_rule r))" by blast
      with other have "key_of c \<noteq> ?k" by (elim ballE) auto
      with g show ?thesis by (intro disjI2 exI conjI)
    qed
  qed
  have "T1 ?k = T ?k"
    by (rule steps_other[OF T1]) (use assms(2) step in \<open>auto simp: rule_steps_append\<close>)
  then have "T1 ?k = Some rs" using assms(2) by simp
  then have "T2 ?k = Some (norm iso_jump # norm fwd_jump # rs)"
    using T2 assms(3-5) fwd by (auto simp: rule_steps_def put_rule_def insert_at_def bind_eq_Some_conv split: if_splits)
  moreover from this have "T' ?k = T2 ?k"
    by (intro steps_other[OF T3]) (use step in \<open>auto simp: rule_steps_append\<close>)
  ultimately show ?thesis by simp
qed

text \<open>
  Setting up an isolated network puts the jump to the isolation chain first in the forward
  chain, ahead of the jump that accepts traffic of container networks and of every other rule.
\<close>

lemma isolation_jump_first:
  assumes "iptables_driver_laws ipt tab norm db"
    and "ipt_setup_network lib ipt db ns w = (Ok (), w')"
    and "sn_isolation ns" and "n_subnets (sn_net ns) = Some [s]"
    and "v6 = is_ipv6 (ipnet_network lib (sub_subnet s))"
    and "tab w (Key v6 ''filter'' ''FORWARD'') = Some rs"
    and "norm iso_jump \<notin> set rs" and "norm fwd_jump \<notin> set rs" and "norm iso_jump \<noteq> norm fwd_jump"
  shows "tab w' (Key v6 ''filter'' ''FORWARD'') = Some (norm iso_jump # norm fwd_jump # rs)"
proof -
  obtain i where i: "n_network_interface (sn_net ns) = Some i"
    using assms(2) by (cases "n_network_interface (sn_net ns)") (auto simp: ipt_setup_network_def with_interface_def)
  have cs: "network_chains lib ns = [get_network_chains lib v6 (sub_subnet s) (sn_network_hash_name ns) v6 i True]"
    using i assms(3-5) by (simp add: network_chains_def subnet_chains_def Let_def)
  from runs_Ok[OF iptables_driver_laws.runs_setup_network[OF assms(1)] assms(2), of, unfolded cs] assms(6-9)
  show ?thesis by (rule isolated_forward)
qed

lemma isolation_jump_first_example:
  "\<exists>w'. ipt_setup_network ipnet_ref iptables_ref no_dbus (example_setup True) base_tables = (Ok (), w') \<and>
     map_of w' (Key False ''filter'' ''FORWARD'') = Some [iso_jump, fwd_jump]"
proof -
  obtain w' where run: "ipt_setup_network ipnet_ref iptables_ref no_dbus (example_setup True) base_tables = (Ok (), w')"
    using example_ipt_setup ..
  have "map_of w' (Key False ''filter'' ''FORWARD'') = Some (iso_jump # fwd_jump # [])"
    by (rule isolation_jump_first[OF ref_drv.iptables_driver_laws_axioms run, where s = "hd example_subnets"])
      (simp_all add: example_setup_def example_subnets_def base_tables_def iso_jump_def fwd_jump_def mask_net_family)
  with run show ?thesis by simp
qed

lemma doomed_list:
  "doomed norm complete cs k =
     set (concat (map (\<lambda>c. if key_of c = k
        then map (\<lambda>r. norm (vr_rule r)) (filter (\<lambda>r. to_go complete (vr_td_policy r)) (vc_rules c)) else []) cs))"
  by (auto simp: doomed_def split: if_splits)

lemma isolated_doomed:
  assumes "sn_isolation ns" and "n_network_interface (sn_net ns) = Some i" and "n_subnets (sn_net ns) = Some [s]"
    and "v6 = is_ipv6 (ipnet_network lib (sub_subnet s))"
  shows "norm iso_jump \<in> doomed norm True (concat (network_chains lib ns)) (Key v6 ''filter'' ''FORWARD'')"
    and "doomed norm True (concat (network_chains lib ns)) (Key v6 ''filter'' ''NETAVARK_ISOLATION_1'') = {norm (iso_rule i)}"
  using assms
  by (simp_all add: doomed_list network_chains_def subnet_chains_def get_network_chains_def build_rule_def
      vark_rule_new_def vark_chain_new_def Let_def skips_removal_def iso_jump_def iso_rule_def)

text \<open>
  C35: a complete tear-down of one isolated network takes the jump to the isolation chain out of the
  forward chain, while the isolation rules of the other networks stay behind in a chain that is
  no longer reached from there.
\<close>

theorem isolation_jump_lost:
  assumes "iptables_driver_laws ipt tab norm db"
    and "rules_distinct (tab w)"
    and "ipt_teardown_network lib ipt db \<lparr>tn_config = ns, tn_complete_teardown = True\<rparr> w = (Ok (), w')"
    and "sn_isolation ns" and "n_network_interface (sn_net ns) = Some i" and "n_subnets (sn_net ns) = Some [s]"
    and "v6 = is_ipv6 (ipnet_network lib (sub_subnet s))"
    and "other \<in> set (chain_rules (tab w) (Key v6 ''filter'' ''NETAVARK_ISOLATION_1''))" and "other \<noteq> norm (iso_rule i)"
  shows "norm iso_jump \<notin> set (chain_rules (tab w') (Key v6 ''filter'' ''FORWARD'')) \<and>
    other \<in> set (chain_rules (tab w') (Key v6 ''filter'' ''NETAVARK_ISOLATION_1''))"
proof -
  have "chain_rules (tab w') k = filter (\<lambda>x. x \<notin> doomed norm True (concat (network_chains lib ns)) k) (chain_rules (tab w) k)" for k
    using teardown_steps_result[OF runs_Ok[OF iptables_driver_laws.runs_teardown_network[OF assms(1)] assms(3)] assms(2)]
    by simp
  with isolated_doomed[OF assms(4-7), of norm] assms(8,9) show ?thesis by simp
qed

definition two_isolated :: ref_tables where
  "two_isolated =
     [(Key False ''nat'' ''NETAVARK-H'', []), (Key False ''nat'' ''POSTROUTING'', []),
      (Key False ''filter'' ''FORWARD'', [iso_jump, fwd_jump]),
      (Key False ''filter'' ''NETAVARK_FORWARD'', []),
      (Key False ''filter'' ''NETAVARK_ISOLATION_1'', [iso_rule ''podman0'', iso_rule ''podman1'']),
      (Key False ''filter'' ''NETAVARK_ISOLATION_2'', [''-o podman0 -j DROP'', ''-o podman1 -j DROP''])]"

lemma two_isolated_run:
  "\<exists>w'. ipt_teardown_network ipnet_ref iptables_ref no_dbus
     \<lparr>tn_config = example_setup True, tn_complete_teardown = True\<rparr> two_isolated = (Ok (), w')"
  by (simp add: ipt_run_defs ipt_teardown_network_def remove_rules_def remove_if_rule_exists_def two_isolated_def
      iso_jump_def fwd_jump_def iso_rule_def
      skips_removal_def remove_on_complete_def remove_chain_def rm_firewalld_if_possible_def Let_def)

theorem isolation_jump_lost_witness:
  "\<exists>w'. ipt_teardown_network ipnet_ref iptables_ref no_dbus
      \<lparr>tn_config = example_setup True, tn_complete_teardown = True\<rparr> two_isolated = (Ok (), w') \<and>
     iso_jump \<notin> set (chain_rules (map_of w') (Key False ''filter'' ''FORWARD'')) \<and>
     iso_rule ''podman1'' \<in> set (chain_rules (map_of w') (Key False ''filter'' ''NETAVARK_ISOLATION_1''))"
proof -
  obtain w' where run: "ipt_teardown_network ipnet_ref iptables_ref no_dbus
      \<lparr>tn_config = example_setup True, tn_complete_teardown = True\<rparr> two_isolated = (Ok (), w')"
    using two_isolated_run ..
  have "rules_distinct (map_of two_isolated)"
    by (simp add: rules_distinct_def chain_rules_def two_isolated_def iso_jump_def fwd_jump_def iso_rule_def)
  from isolation_jump_lost[OF ref_drv.iptables_driver_laws_axioms this run,
      where i = "''podman0''" and s = "hd example_subnets" and other = "iso_rule ''podman1''" and ?v6.0 = False] run
  show ?thesis
    by (simp add: example_setup_def example_subnets_def mask_net_family)
      (simp add: two_isolated_def chain_rules_def iso_rule_def)
qed

subsection \<open>Forwarded ports\<close>

lemma concat_map_if: "concat (map (\<lambda>c. if Q c then [f c] else []) xs) = map f (filter Q xs)"
  by (induction xs) auto


text \<open>
  The last port of a forwarded range is the first plus the length less one as long as the range
  ends at or below port 65535; a longer range wraps around, so that its end lies below its start.
\<close>

lemma port_range_end:
  assumes "1 < pm_range i"
  shows "host_port_text i = show_nat (unat (pm_host_port i)) @ '':'' @
    show_nat (if unat (pm_host_port i) + unat (pm_range i) \<le> 65536
              then unat (pm_host_port i) + unat (pm_range i) - 1
              else unat (pm_host_port i) + unat (pm_range i) - 65537)"
proof -
  have r: "1 < unat (pm_range i)" using assms by (simp add: word_less_nat_alt)
  have h: "unat (pm_host_port i) < 65536" and l: "unat (pm_range i) < 65536"
    using unsigned_less[of "pm_host_port i", where ?'a = nat] unsigned_less[of "pm_range i", where ?'a = nat] by simp_all
  have "unat (pm_range i - 1) = unat (pm_range i) - 1" using r by (simp add: unat_sub word_le_nat_alt)
  then have "unat (range_end (pm_host_port i) (pm_range i)) = (unat (pm_host_port i) + (unat (pm_range i) - 1)) mod 65536"
    by (simp add: range_end_def unat_word_ariths)
  moreover have "x mod 65536 = (if x < 65536 then x else x - 65536)" if "x < 131072" for x :: nat
    using that by (simp add: le_mod_geq)
  ultimately have "unat (range_end (pm_host_port i) (pm_range i)) = (if unat (pm_host_port i) + unat (pm_range i) \<le> 65536
              then unat (pm_host_port i) + unat (pm_range i) - 1
              else unat (pm_host_port i) + unat (pm_range i) - 65537)"
    using r h l by auto
  then show ?thesis using assms by (simp add: host_port_text_def show_port_def)
qed

lemma port_range_end_example:
  "host_port_text \<lparr>pm_container_port = 80, pm_host_ip = [], pm_host_port = 65000, pm_protocol = ''tcp'', pm_range = 1000\<rparr> =
     ''65000:463''"
  using port_range_end[of "\<lparr>pm_container_port = 80, pm_host_ip = [], pm_host_port = 65000, pm_protocol = ''tcp'', pm_range = 1000\<rparr>"]
  by (simp add: show_nat.simps digit_char_def)

text \<open>The chains of a forwarding, for the families the container has an address of.\<close>

definition family_chains :: "ipnet_lib \<Rightarrow> port_forward_config \<Rightarrow> bool \<Rightarrow> vark_chain list list" where
  "family_chains lib pf is_v6 =
     (case (if is_v6 then pf_container_ip_v6 pf else pf_container_ip_v4 pf, if is_v6 then pf_subnet_v6 pf else pf_subnet_v4 pf) of
        (Some ip, Some s) \<Rightarrow> (case get_port_forwarding_chains lib is_v6 pf ip s is_v6 of Ok cs \<Rightarrow> [cs] | _ \<Rightarrow> [])
      | _ \<Rightarrow> [])"

definition forward_chains :: "ipnet_lib \<Rightarrow> port_forward_config \<Rightarrow> vark_chain list list" where
  "forward_chains lib pf = family_chains lib pf False @ family_chains lib pf True"

lemma runs_with_address:
  assumes "\<And>ip s cs. get_port_forwarding_chains lib v6 pf ip s v6 = Ok cs \<Longrightarrow> runs tab (gs cs) (m cs)"
  shows "runs tab (concat (map gs (family_chains lib pf v6)))
    (with_address v6 pf (\<lambda>ip s. bindc (liftc (get_port_forwarding_chains lib v6 pf ip s v6)) m))"
proof -
  have "runs tab (concat (map gs (case r of Ok cs \<Rightarrow> [cs] | _ \<Rightarrow> []))) (bindc (liftc r) m)"
    if "\<And>cs. r = Ok cs \<Longrightarrow> runs tab (gs cs) (m cs)" for r :: "(netavark_error, vark_chain list) res"
    using that by (cases r) (auto simp: runs_def liftc_def bindc_def matchc_def failc_def)
  with assms show ?thesis
    by (auto simp: with_address_def family_chains_def reads_runs split: option.splits)
qed

context iptables_laws
begin

lemma runs_remove_created:
  "runs tab (map (\<lambda>c. drop_chain (key_of c))
       (filter (\<lambda>c. complete \<and> vc_create c \<and> vc_td_policy c = Some OnComplete) cs))
     (for_each (remove_created ipt complete) cs)"
proof -
  let ?Q = "\<lambda>c. complete \<and> vc_create c \<and> vc_td_policy c = Some OnComplete"
  have "runs tab (if ?Q c then [drop_chain (key_of c)] else []) (remove_created ipt complete c)" for c
    by (auto simp: remove_created_def runs_remove_chain split: option.splits)
  then have "runs tab (concat (map (\<lambda>c. if ?Q c then [drop_chain (key_of c)] else []) cs))
      (for_each (remove_created ipt complete) cs)" by (intro runs_for_each)
  then show ?thesis by (simp only: concat_map_if)
qed

lemma runs_setup_port_forward: "runs tab (setup_steps norm (forward_chains lib pf)) (ipt_setup_port_forward lib ipt pf)"
proof -
  have "runs tab (setup_steps norm (family_chains lib pf v6)) (setup_family lib ipt pf v6)" for v6
    unfolding setup_steps_def setup_family_def by (intro runs_with_address runs_create_network_chains)
  then show ?thesis
    unfolding ipt_setup_port_forward_def forward_chains_def
    using runs_seqc by (fastforce simp: setup_steps_def)
qed

lemma runs_teardown_port_forward:
  "runs tab (teardown_steps norm (tpf_complete_teardown tear)
      (\<lambda>c. tpf_complete_teardown tear \<and> vc_create c \<and> vc_td_policy c = Some OnComplete) (forward_chains lib (tpf_config tear)))
      (ipt_teardown_port_forward lib ipt tear)"
proof -
  have "runs tab (teardown_steps norm (tpf_complete_teardown tear)
      (\<lambda>c. tpf_complete_teardown tear \<and> vc_create c \<and> vc_td_policy c = Some OnComplete) (family_chains lib (tpf_config tear) v6))
      (teardown_family lib ipt tear v6)" for v6
    unfolding teardown_steps_def teardown_family_def
    by (intro runs_with_address runs_seqc runs_for_each runs_remove_rules runs_remove_created)
  then show ?thesis
    unfolding ipt_teardown_port_forward_def forward_chains_def
    using runs_seqc by (fastforce simp: teardown_steps_def)
qed

end




end
