(* ===== verification/Firewall.thy ===== *)
theory Firewall
  imports Iptables
begin

text \<open>
  \<^verbatim>\<open>src/firewall/mod.rs\<close> and \<^verbatim>\<open>src/firewall/fwnone.rs\<close>: the interface of a firewall driver,
  the driver that does nothing, and the choice of a driver.

  A \<^verbatim>\<open>dyn FirewallDriver\<close> is the record of its four methods.  The network drivers
  rely on the locale \<open>firewall_frame\<close>: a firewall driver leaves an aspect
  \<open>obs\<close> of the machine alone, such as the network namespace the thread is in.
\<close>

record 'w firewall_driver =
  fw_setup_network :: "setup_network \<Rightarrow> ('w, unit) ncomp"
  fw_teardown_network :: "teardown_network \<Rightarrow> ('w, unit) ncomp"
  fw_setup_port_forward :: "port_forward_config \<Rightarrow> ('w, unit) ncomp"
  fw_teardown_port_forward :: "teardown_port_forward \<Rightarrow> ('w, unit) ncomp"

definition iptables_driver :: "ipnet_lib \<Rightarrow> 'w iptables \<Rightarrow> 'w dbus \<Rightarrow> 'w firewall_driver" where
  "iptables_driver lib ipt db =
     \<lparr>fw_setup_network = ipt_setup_network lib ipt db, fw_teardown_network = ipt_teardown_network lib ipt db,
      fw_setup_port_forward = ipt_setup_port_forward lib ipt,
      fw_teardown_port_forward = ipt_teardown_port_forward lib ipt\<rparr>"

definition firewalld_driver :: "ipnet_lib \<Rightarrow> 'w dbus \<Rightarrow> 'w firewall_driver" where
  "firewalld_driver lib db =
     \<lparr>fw_setup_network = fwd_setup_network lib db, fw_teardown_network = fwd_teardown_network lib db,
      fw_setup_port_forward = fwd_setup_port_forward db, fw_teardown_port_forward = fwd_teardown_port_forward db\<rparr>"

definition fwnone_driver :: "'w firewall_driver" where
  "fwnone_driver =
     \<lparr>fw_setup_network = (\<lambda>_. retc ()), fw_teardown_network = (\<lambda>_. retc ()),
      fw_setup_port_forward = (\<lambda>_. retc ()), fw_teardown_port_forward = (\<lambda>_. retc ())\<rparr>"

datatype firewall_impl = FwIptables | FwFirewalld | FwNftables | FwNone

definition get_firewall_impl :: "(string \<rightharpoonup> string) \<Rightarrow> 'w dbus \<Rightarrow> ('w, firewall_impl) ncomp" where
  "get_firewall_impl env db =
     (case env ''NETAVARK_FW'' of
        Some var \<Rightarrow>
          (let v = to_lowercase var
           in if v = ''firewalld''
              then bindc (map_errc (\<lambda>e. wrap ''Error retrieving dbus connection for requested firewall backend'' (Dbus e))
                            (db_system db)) (\<lambda>_. retc FwFirewalld)
              else if v = ''iptables'' then retc FwIptables
              else if v = ''nftables'' then retc FwNftables
              else if v = ''none'' then retc FwNone
              else failc (Message (''Must provide a valid firewall backend, got '' @ v)))
      | None \<Rightarrow> retc FwIptables)"

definition get_supported_firewall_driver ::
  "(string \<rightharpoonup> string) \<Rightarrow> ipnet_lib \<Rightarrow> 'w iptables \<Rightarrow> (bool \<Rightarrow> ('w, string, unit) comp) \<Rightarrow> 'w dbus \<Rightarrow>
     ('w, 'w firewall_driver) ncomp" where
  "get_supported_firewall_driver env lib ipt open_ipt db =
     bindc (get_firewall_impl env db) (\<lambda>fw. case fw of
       FwIptables \<Rightarrow> seqc (iptables_new open_ipt) (retc (iptables_driver lib ipt db))
     | FwFirewalld \<Rightarrow> retc (firewalld_driver lib db)
     | FwNftables \<Rightarrow> failc (Message ''nftables support presently not available'')
     | FwNone \<Rightarrow> retc fwnone_driver)"

section \<open>The frame of a driver\<close>

locale firewall_frame =
  fixes fw :: "'w firewall_driver" and obs :: "'w \<Rightarrow> 's"
  assumes setup_network_reads: "reads obs (fw_setup_network fw sn)"
    and teardown_network_reads: "reads obs (fw_teardown_network fw tn)"
    and setup_port_forward_reads: "reads obs (fw_setup_port_forward fw pf)"
    and teardown_port_forward_reads: "reads obs (fw_teardown_port_forward fw tpf)"

interpretation fwnone: firewall_frame fwnone_driver obs
  by unfold_locales (simp_all add: fwnone_driver_def)

text \<open>The backends leave \<open>obs\<close> alone when the commands and calls they make do.\<close>

definition dbus_reads :: "('w \<Rightarrow> 's) \<Rightarrow> 'w dbus \<Rightarrow> bool" where
  "dbus_reads obs db \<longleftrightarrow> reads obs (db_system db) \<and> (\<forall>a b c d e. reads obs (db_call db a b c d e))"

definition iptables_reads :: "('w \<Rightarrow> 's) \<Rightarrow> 'w iptables \<Rightarrow> bool" where
  "iptables_reads obs ipt \<longleftrightarrow>
     (\<forall>d t c r p. reads obs (ipt_exists ipt d t c r) \<and> reads obs (ipt_append ipt d t c r) \<and>
        reads obs (ipt_insert ipt d t c r p) \<and> reads obs (ipt_delete ipt d t c r) \<and>
        reads obs (ipt_new_chain ipt d t c) \<and> reads obs (ipt_delete_chain ipt d t c) \<and>
        reads obs (ipt_list ipt d t c) \<and> reads obs (ipt_list_chains ipt d t))"

lemma dbus_reads_calls:
  assumes "dbus_reads obs db"
  shows "reads obs (db_system db)" and "reads obs (db_call db a b c d e)"
    and "reads obs (fw_call db x y z)" and "reads obs (fw_config_call db y z)"
  using assms by (auto simp: dbus_reads_def fw_call_def fw_config_call_def)

lemma add_source_keeps:
  "dbus_reads obs db \<Longrightarrow> reads obs (add_source_subnets_to_zone lib db zone nets)"
  by (induction nets) (auto intro!: reads_intros simp: dbus_reads_calls)

lemma firewalld_driver_frame:
  assumes "dbus_reads obs db"
  shows "firewall_frame (firewalld_driver lib db) obs"
proof
  note [simp] = dbus_reads_calls[OF assms] add_source_keeps[OF assms]
  have zone: "reads obs (create_zone_if_not_exist db z)" for z
    unfolding create_zone_if_not_exist_def by (intro reads_intros) simp_all
  have policy: "reads obs (add_policy_if_not_exist db p i t m)" for p i t m
    unfolding add_policy_if_not_exist_def by (intro reads_intros) simp_all
  have set_policy: "reads obs (set_policy_config db v c n)" for v c n
    unfolding set_policy_config_def by (intro reads_intros) simp_all
  have get_policy: "reads obs (get_policy_config db)"
    unfolding get_policy_config_def by (intro reads_intros) simp_all
  fix sn tn pf tpf
  show "reads obs (fw_setup_network (firewalld_driver lib db) sn)"
    by (cases "n_subnets (sn_net sn)")
      (auto simp: firewalld_driver_def fwd_setup_network_def zone policy intro!: reads_intros)
  show "reads obs (fw_teardown_network (firewalld_driver lib db) tn)"
    by (cases "n_subnets (sn_net (tn_config tn))")
      (auto simp: firewalld_driver_def fwd_teardown_network_def intro!: reads_intros)
  show "reads obs (fw_setup_port_forward (firewalld_driver lib db) pf)"
    by (auto simp: firewalld_driver_def fwd_setup_port_forward_def set_policy get_policy intro!: reads_intros)
  show "reads obs (fw_teardown_port_forward (firewalld_driver lib db) tpf)"
    by (auto simp: firewalld_driver_def fwd_teardown_port_forward_def set_policy get_policy intro!: reads_intros)
qed

lemma iptables_reads_ops:
  assumes "iptables_reads obs ipt"
  shows "reads obs (create_network_chains ipt cs)" and "reads obs (remove_rules ipt b c)" and "reads obs (remove_chain ipt c)"
proof -
  note ops = assms[unfolded iptables_reads_def]
  have add: "reads obs (add_rule ipt c r)" for c r
    by (cases "vr_position r") (auto simp: add_rule_def append_unique_def ops intro!: reads_intros)
  have chain: "reads obs (add_chain_unique ipt d t c)" for d t c
    by (auto simp: add_chain_unique_def chain_exists_def ops intro!: reads_intros)
  show "reads obs (create_network_chains ipt cs)"
    by (auto simp: create_network_chains_def add_rules_def add chain intro!: reads_intros)
  show "reads obs (remove_rules ipt b c)"
    by (auto simp: remove_rules_def remove_if_rule_exists_def ops intro!: reads_intros)
  show "reads obs (remove_chain ipt c)"
    by (auto simp: remove_chain_def ops intro!: reads_intros)
qed

lemma iptables_driver_frame:
  assumes "iptables_reads obs ipt" and "dbus_reads obs db"
  shows "firewall_frame (iptables_driver lib ipt db) obs"
proof
  note [simp] = dbus_reads_calls[OF assms(2)] add_source_keeps[OF assms(2)] iptables_reads_ops[OF assms(1)]
  have fwd: "reads obs (add_firewalld_if_possible lib db s)" "reads obs (rm_firewalld_if_possible lib db s)" for s
    by (auto simp: add_firewalld_if_possible_def rm_firewalld_if_possible_def is_firewalld_running_def
        simp del: add_source_subnets_to_zone.simps intro!: reads_intros)
  have rm: "reads obs (remove_on_complete ipt b c)" "reads obs (remove_created ipt b c)" for b c
    by (auto simp: remove_on_complete_def remove_created_def split: option.split)
  have addr: "reads obs (with_address v pf f)" if "\<And>ip s. reads obs (f ip s)" for v pf f
    using that by (auto simp: with_address_def split: option.split)
  fix sn tn pf tpf
  show "reads obs (fw_setup_network (iptables_driver lib ipt db) sn)"
    by (auto simp: iptables_driver_def ipt_setup_network_def with_interface_def fwd
        split: option.split intro!: reads_intros)
  show "reads obs (fw_teardown_network (iptables_driver lib ipt db) tn)"
    by (auto simp: iptables_driver_def ipt_teardown_network_def with_interface_def fwd rm Let_def
        split: option.split intro!: reads_intros)
  show "reads obs (fw_setup_port_forward (iptables_driver lib ipt db) pf)"
    by (auto simp: iptables_driver_def ipt_setup_port_forward_def setup_family_def intro!: reads_intros addr)
  show "reads obs (fw_teardown_port_forward (iptables_driver lib ipt db) tpf)"
    by (auto simp: iptables_driver_def ipt_teardown_port_forward_def teardown_family_def rm intro!: reads_intros addr)
qed

text \<open>
  The choice of the backend follows the environment variable without regard to case, is iptables
  when the variable is unset, and refuses every other name.
\<close>

lemma firewall_choice:
  "fst (get_firewall_impl env db w) =
     (case map_option to_lowercase (env ''NETAVARK_FW'') of
        None \<Rightarrow> Ok FwIptables
      | Some v \<Rightarrow>
          if v = ''iptables'' then Ok FwIptables
          else if v = ''nftables'' then Ok FwNftables
          else if v = ''none'' then Ok FwNone
          else if v = ''firewalld''
          then (case fst (db_system db w) of
                  Ok _ \<Rightarrow> Ok FwFirewalld
                | Err e \<Rightarrow> Err (Chain ''Error retrieving dbus connection for requested firewall backend'' (Dbus e))
                | Panic \<Rightarrow> Panic
                | Hang \<Rightarrow> Hang)
          else Err (Message (''Must provide a valid firewall backend, got '' @ v)))"
  by (cases "db_system db w"; cases "fst (db_system db w)")
    (auto simp: get_firewall_impl_def comp_simps Let_def wrap_def split: option.split)

end
