(* ===== verification/Netlink.thy ===== *)
theory Netlink
  imports Errors Net_Types
begin

unbundle bit_operations_syntax

text \<open>
  \<^verbatim>\<open>src/network/netlink.rs\<close>: the rtnetlink socket.  The messages are those of the
  \<^verbatim>\<open>netlink_packet_route\<close> crate, reduced to the attributes the program reads or writes.
  Everything that crate and the kernel do (turning packets into bytes and back, sending and
  receiving) is the record \<open>nl_transport\<close>, a parameter.  The socket's own state, its
  sequence number and its buffer of 8192 bytes, lives in the threaded state and is
  reached through \<open>tr_get\<close> and \<open>tr_put\<close>.

  The receive loop has no bound in the source: the inner loop is a total function (the offset into
  the buffer grows), the outer one a \<^theory_text>\<open>partial_function\<close>, and not returning is the outcome
  \<open>Hang\<close>.  A datagram longer than the buffer is cut off, as the system call does.
  \<open>answer\<close> is the protocol as a function of the packets alone: which packet ends the exchange, and
  with what outcome.  \<open>recv_loop_answered\<close> and \<open>recv_returns_iff\<close> show that the loop computes
  it for datagrams that fit into the buffer, and that it runs forever when no packet ends the exchange.

  The drivers call the socket through the record \<open>nl_socket\<close> of its methods;
  \<open>socket_of\<close> is the socket of this file.
\<close>

section \<open>Messages\<close>

datatype info_kind = KBridge | KVeth | KMacVlan | KIpVlan | KOther string

datatype macvlan_mode = MODE_PRIVATE | MODE_VEPA | MODE_BRIDGE | MODE_PASSTHRU | MODE_SOURCE

datatype link_nla =
    NlaIfName string
  | NlaAddress "8 word list"
  | NlaLink "32 word"
  | NlaMaster "32 word"
  | NlaMtu "32 word"
  | NlaNetNsFd int
  | NlaInfo "link_info list"
  | NlaOther nat
and link_info = InfoKind info_kind | InfoData info_data | InfoOther
and info_data = DataVethPeer link_message | DataMacVlan macvlan_mode | DataIpVlan "16 word"
and link_message =
  LinkMessage (lm_index: "32 word") (lm_flags: "32 word") (lm_change_mask: "32 word")
    (lm_nlas: "link_nla list")

datatype addr_nla = ANlaBroadcast "8 word list" | ANlaLocal "8 word list" | ANlaAddress "8 word list" | ANlaOther nat

record address_message =
  am_index :: "32 word"
  am_family :: "8 word"
  am_prefix_len :: "8 word"
  am_nlas :: "addr_nla list"

datatype route_protocol = RTPROT_UNSPEC | RTPROT_STATIC | RTPROT_OTHER

datatype route_nla =
    RNlaDestination "8 word list" | RNlaGateway "8 word list" | RNlaPriority "32 word"
  | RNlaOif "32 word" | RNlaOther nat

text \<open>
  The table, scope and kind of every route the program names are the main table, universe and
  unicast; the fields that vary are kept.
\<close>

record route_message =
  rm_protocol :: route_protocol
  rm_address_family :: "8 word"
  rm_destination_prefix_length :: "8 word"
  rm_nlas :: "route_nla list"

datatype rtnl_message =
    GetLink link_message | NewLink link_message | SetLink link_message | DelLink link_message
  | GetAddress address_message | NewAddress address_message | DelAddress address_message
  | GetRoute route_message | NewRoute route_message | DelRoute route_message
  | OtherMessage nat

text \<open>Values of the kernel interface (\<^verbatim>\<open>linux/netlink.h\<close>, \<^verbatim>\<open>linux/if.h\<close>, \<^verbatim>\<open>sys/socket.h\<close>).\<close>

definition NLM_F_REQUEST :: "16 word" where "NLM_F_REQUEST = 1"
definition NLM_F_ACK :: "16 word" where "NLM_F_ACK = 4"
definition NLM_F_EXCL :: "16 word" where "NLM_F_EXCL = 0x200"
definition NLM_F_CREATE :: "16 word" where "NLM_F_CREATE = 0x400"
definition NLM_F_DUMP :: "16 word" where "NLM_F_DUMP = 0x300"
definition IFF_UP :: "32 word" where "IFF_UP = 1"
definition AF_INET :: "8 word" where "AF_INET = 2"
definition AF_INET6 :: "8 word" where "AF_INET6 = 10"
definition ENODEV :: int where "ENODEV = 19"
definition EEXIST :: int where "EEXIST = 17"
definition EACCES :: int where "EACCES = 13"
definition EROFS :: int where "EROFS = 30"

lemmas nl_const_defs =
  NLM_F_REQUEST_def NLM_F_ACK_def NLM_F_EXCL_def NLM_F_CREATE_def NLM_F_DUMP_def
  IFF_UP_def AF_INET_def AF_INET6_def

record nl_packet =
  pk_flags :: "16 word"
  pk_sequence_number :: "32 word"
  pk_message :: rtnl_message

datatype nl_payload =
    PDone | PError nl_error | PAck nl_error | PNoop | POverrun | PInner rtnl_message | POther

record rx_packet =
  rx_length :: "32 word"
  rx_sequence_number :: "32 word"
  rx_payload :: nl_payload

section \<open>The socket\<close>

record nl_sock =
  sk_sequence_number :: "32 word"
  sk_buffer :: "8 word list"

record 'w nl_transport =
  tr_get :: "'w \<Rightarrow> nl_sock"
  tr_put :: "nl_sock \<Rightarrow> 'w \<Rightarrow> 'w"
  tr_serialize :: "nl_packet \<Rightarrow> 8 word list"
  tr_send :: "8 word list \<Rightarrow> ('w, io_error, unit) comp"
  tr_recv :: "('w, io_error, 8 word list) comp"
  tr_deserialize :: "8 word list \<Rightarrow> (string, rx_packet) res"
  tr_message_type :: "rtnl_message \<Rightarrow> nat"

datatype link_id = LinkID "32 word" | LinkName string

datatype route =
    RouteIpv4 (route_dest4: "ipv4_addr \<times> 8 word") (route_gw4: ipv4_addr) (route_metric: "32 word option")
  | RouteIpv6 (route_dest6: "ipv6_addr \<times> 8 word") (route_gw6: ipv6_addr) (route_metric: "32 word option")

definition unwrap_or :: "'a option \<Rightarrow> 'a \<Rightarrow> 'a" where
  "unwrap_or x d = (case x of None \<Rightarrow> d | Some y \<Rightarrow> y)"

fun show_route :: "ipnet_lib \<Rightarrow> route \<Rightarrow> string" where
  "show_route lib (RouteIpv4 (a, p) gw metric) =
     ''(dest: '' @ ipnet_to_string lib (NetV4 a p) @ '' ,gw: '' @ show_ipv4 gw @ '', metric '' @
     show_nat (unat (unwrap_or metric DEFAULT_METRIC)) @ '')''"
| "show_route lib (RouteIpv6 (a, p) gw metric) =
     ''(dest: '' @ ipnet_to_string lib (NetV6 a p) @ '' ,gw: '' @ show_ipv6 gw @ '', metric '' @
     show_nat (unat (unwrap_or metric DEFAULT_METRIC)) @ '')''"

subsection \<open>Sending\<close>

text \<open>
  The packet is serialised into the socket's buffer, which panics when it does not fit, and that
  prefix of the buffer is sent.
\<close>

definition nl_send :: "'w nl_transport \<Rightarrow> rtnl_message \<Rightarrow> 16 word \<Rightarrow> ('w, unit) ncomp" where
  "nl_send t msg flags w =
     (let sk = (tr_get t w)\<lparr>sk_sequence_number := sk_sequence_number (tr_get t w) + 1\<rparr>;
          packet = \<lparr>pk_flags = NLM_F_REQUEST OR flags,
                    pk_sequence_number = sk_sequence_number sk, pk_message = msg\<rparr>;
          bytes = tr_serialize t packet
      in if length (sk_buffer sk) < length bytes then (Panic, tr_put t sk w)
         else map_errc Io (tr_send t bytes)
                (tr_put t (sk\<lparr>sk_buffer := bytes @ drop (length bytes) (sk_buffer sk)\<rparr>) w))"

subsection \<open>Receiving\<close>

datatype inner_result = Return "rtnl_message list nres" | Again "rtnl_message list"

function recv_inner ::
  "(8 word list \<Rightarrow> (string, rx_packet) res) \<Rightarrow> bool \<Rightarrow> 32 word \<Rightarrow> 8 word list \<Rightarrow> nat \<Rightarrow> nat \<Rightarrow>
     rtnl_message list \<Rightarrow> inner_result" where
  "recv_inner des multi seq buf sz offset result =
     (if length buf < offset then Return Panic
      else case des (drop offset buf) of
        Err e \<Rightarrow> Return (Err (Message (''failed to deserialize netlink message: '' @ e)))
      | Panic \<Rightarrow> Return Panic
      | Hang \<Rightarrow> Return Hang
      | Ok p \<Rightarrow>
          if rx_sequence_number p \<noteq> seq
          then Return (Err (Message (''netlink: sequence_number out of sync (got '' @
                 show_nat (unat (rx_sequence_number p)) @ '', want '' @ show_nat (unat seq) @ '')'')))
          else
            (let cont = (\<lambda>result'.
                   let offset' = offset + unat (rx_length p)
                   in if offset' = sz \<or> rx_length p = 0 then Again result'
                      else recv_inner des multi seq buf sz offset' result')
             in case rx_payload p of
                  PDone \<Rightarrow> Return (Ok result)
                | PError e \<Rightarrow> if nl_code e \<noteq> 0 then Return (Err (Netlink e)) else Return (Ok result)
                | PAck e \<Rightarrow> if nl_code e \<noteq> 0 then Return (Err (Netlink e)) else Return (Ok result)
                | PNoop \<Rightarrow> Return (Err (Message ''unimplemented netlink message type NOOP''))
                | POverrun \<Rightarrow> Return (Err (Message ''unimplemented netlink message type OVERRUN''))
                | PInner m \<Rightarrow>
                    if \<not> multi then Return (Ok (result @ [m])) else cont (result @ [m])
                | POther \<Rightarrow> cont result))"
  by pat_completeness auto
termination
proof (relation "measure (\<lambda>(des, multi, seq, buf, sz, offset, result). Suc (length buf) - offset)", goal_cases)
  case 1
  then show ?case by simp
next
  case (2 des multi seq buf sz offset result p)
  then have "0 < unat (rx_length p)" by (simp add: unat_gt_0)
  with 2 show ?case by simp
qed

declare recv_inner.simps [simp del]

text \<open>
  \<open>tr_recv\<close> takes the next datagram from the socket.  Of a datagram that is longer than the
  buffer the kernel stores the part that fits and drops the rest; the buffer keeps its length.
\<close>

partial_function (option) recv_loop ::
  "'w nl_transport \<Rightarrow> bool \<Rightarrow> rtnl_message list \<Rightarrow> 'w \<Rightarrow> (rtnl_message list nres \<times> 'w) option" where
  "recv_loop t multi result w =
     (case tr_recv t w of
        (Err e, w1) \<Rightarrow> Some (Err (wrap ''recv from netlink'' (Io e)), w1)
      | (Panic, w1) \<Rightarrow> Some (Panic, w1)
      | (Hang, w1) \<Rightarrow> Some (Hang, w1)
      | (Ok d, w1) \<Rightarrow>
          (let sk = tr_get t w1;
               got = take (length (sk_buffer sk)) d;
               buf = got @ drop (length got) (sk_buffer sk);
               w2 = tr_put t (sk\<lparr>sk_buffer := buf\<rparr>) w1
           in case recv_inner (tr_deserialize t) multi (sk_sequence_number sk) buf (length got) 0 result of
                Return r \<Rightarrow> Some (r, w2)
              | Again result' \<Rightarrow> recv_loop t multi result' w2))"

definition nl_recv :: "'w nl_transport \<Rightarrow> bool \<Rightarrow> ('w, rtnl_message list) ncomp" where
  "nl_recv t multi w = (case recv_loop t multi [] w of None \<Rightarrow> (Hang, w) | Some r \<Rightarrow> r)"

definition make_netlink_request ::
  "'w nl_transport \<Rightarrow> rtnl_message \<Rightarrow> 16 word \<Rightarrow> ('w, rtnl_message list) ncomp" where
  "make_netlink_request t msg flags =
     seqc (wrapc ''send to netlink'' (nl_send t msg flags))
          (nl_recv t (flags AND NLM_F_DUMP = NLM_F_DUMP))"

text \<open>The macro \<^verbatim>\<open>expect_netlink_result!\<close>; \<open>fn\<close> is the name of the calling function.\<close>

definition expect_netlink_result :: "string \<Rightarrow> 'a list \<Rightarrow> nat \<Rightarrow> ('w, unit) ncomp" where
  "expect_netlink_result fn result count =
     (if length result \<noteq> count
      then failc (Message (fn @ '': unexpected netlink result (got '' @ show_nat (length result) @
             '' result(s), want '' @ show_nat count @ '')''))
      else retc ())"

subsection \<open>Requests\<close>

definition link_default :: link_message where
  "link_default = LinkMessage 0 0 0 []"

fun link_with_id :: "link_id \<Rightarrow> link_message" where
  "link_with_id (LinkID i) = LinkMessage i 0 0 []"
| "link_with_id (LinkName name) = LinkMessage 0 0 0 [NlaIfName name]"

definition unexpected_type :: "'w nl_transport \<Rightarrow> rtnl_message \<Rightarrow> netavark_error" where
  "unexpected_type t m = Message (''unexpected netlink message type: '' @ show_nat (tr_message_type t m))"

definition sock_get_link :: "'w nl_transport \<Rightarrow> link_id \<Rightarrow> ('w, link_message) ncomp" where
  "sock_get_link t i =
     bindc (make_netlink_request t (GetLink (link_with_id i)) 0) (\<lambda>result.
     seqc (expect_netlink_result ''get_link'' result 1)
       (case hd result of
          NewLink m \<Rightarrow> retc m
        | m \<Rightarrow> failc (unexpected_type t m)))"

record create_link_options =
  cl_name :: string
  cl_kind :: info_kind
  cl_info_data :: "info_data option"
  cl_mtu :: "32 word"
  cl_primary_index :: "32 word"
  cl_link :: "32 word"
  cl_mac :: "8 word list"
  cl_netns :: int

definition create_link_options_new :: "string \<Rightarrow> info_kind \<Rightarrow> create_link_options" where
  "create_link_options_new name kind =
     \<lparr>cl_name = name, cl_kind = kind, cl_info_data = None, cl_mtu = 0, cl_primary_index = 0,
      cl_link = 0, cl_mac = [], cl_netns = - 1\<rparr>"

definition parse_create_link_options :: "link_message \<Rightarrow> create_link_options \<Rightarrow> link_message" where
  "parse_create_link_options msg options =
     LinkMessage (lm_index msg) (lm_flags msg) (lm_change_mask msg)
       (lm_nlas msg
        @ [NlaInfo (InfoKind (cl_kind options) #
             (case cl_info_data options of None \<Rightarrow> [] | Some d \<Rightarrow> [InfoData d]))]
        @ (if cl_name options \<noteq> [] then [NlaIfName (cl_name options)] else [])
        @ (if cl_mtu options \<noteq> 0 then [NlaMtu (cl_mtu options)] else [])
        @ (if cl_mac options \<noteq> [] then [NlaAddress (cl_mac options)] else [])
        @ (if cl_primary_index options \<noteq> 0 then [NlaMaster (cl_primary_index options)] else [])
        @ (if cl_link options \<noteq> 0 then [NlaLink (cl_link options)] else [])
        @ (if - 1 < cl_netns options then [NlaNetNsFd (cl_netns options)] else []))"

text \<open>A request that only expects an acknowledgement.\<close>

definition ack_request :: "'w nl_transport \<Rightarrow> string \<Rightarrow> rtnl_message \<Rightarrow> 16 word \<Rightarrow> ('w, unit) ncomp" where
  "ack_request t fn msg flags =
     bindc (make_netlink_request t msg flags) (\<lambda>result. expect_netlink_result fn result 0)"

definition sock_create_link :: "'w nl_transport \<Rightarrow> create_link_options \<Rightarrow> ('w, unit) ncomp" where
  "sock_create_link t options =
     ack_request t ''create_link'' (NewLink (parse_create_link_options link_default options))
       (NLM_F_ACK OR NLM_F_EXCL OR NLM_F_CREATE)"

definition sock_set_link_name :: "'w nl_transport \<Rightarrow> 32 word \<Rightarrow> string \<Rightarrow> ('w, unit) ncomp" where
  "sock_set_link_name t i name =
     ack_request t ''set_link_name'' (SetLink (LinkMessage i 0 0 [NlaIfName name])) NLM_F_ACK"

definition sock_del_link :: "'w nl_transport \<Rightarrow> link_id \<Rightarrow> ('w, unit) ncomp" where
  "sock_del_link t i = ack_request t ''del_link'' (DelLink (link_with_id i)) NLM_F_ACK"

definition sock_set_link_ns :: "'w nl_transport \<Rightarrow> 32 word \<Rightarrow> int \<Rightarrow> ('w, unit) ncomp" where
  "sock_set_link_ns t i netns_fd =
     ack_request t ''set_link_ns'' (SetLink (LinkMessage i 0 0 [NlaNetNsFd netns_fd])) NLM_F_ACK"

fun create_addr_msg :: "ipnet_lib \<Rightarrow> 32 word \<Rightarrow> ip_net \<Rightarrow> address_message" where
  "create_addr_msg lib i (NetV4 a p) =
     \<lparr>am_index = i, am_family = AF_INET, am_prefix_len = p,
      am_nlas = [ANlaBroadcast (octets4 (ipnet_broadcast lib a p)), ANlaLocal (octets4 a)]\<rparr>"
| "create_addr_msg lib i (NetV6 a p) =
     \<lparr>am_index = i, am_family = AF_INET6, am_prefix_len = p, am_nlas = [ANlaLocal (octets6 a)]\<rparr>"

definition sock_add_addr :: "'w nl_transport \<Rightarrow> ipnet_lib \<Rightarrow> 32 word \<Rightarrow> ip_net \<Rightarrow> ('w, unit) ncomp" where
  "sock_add_addr t lib i addr =
     matchc (make_netlink_request t (NewAddress (create_addr_msg lib i addr))
               (NLM_F_ACK OR NLM_F_EXCL OR NLM_F_CREATE))
       (\<lambda>result. expect_netlink_result ''add_addr'' result 0)
       (\<lambda>err. case err of
          Netlink e \<Rightarrow>
            if - nl_code e = EACCES \<and> net_is_ipv6 addr
            then failc (wrap ''failed to add ipv6 address, is ipv6 enabled in the kernel?'' err)
            else failc err
        | _ \<Rightarrow> failc err)"

definition sock_del_addr :: "'w nl_transport \<Rightarrow> ipnet_lib \<Rightarrow> 32 word \<Rightarrow> ip_net \<Rightarrow> ('w, unit) ncomp" where
  "sock_del_addr t lib i addr =
     ack_request t ''del_addr'' (DelAddress (create_addr_msg lib i addr)) NLM_F_ACK"

fun create_route_msg :: "route \<Rightarrow> route_message" where
  "create_route_msg (RouteIpv4 (a, p) gw metric) =
     \<lparr>rm_protocol = RTPROT_STATIC, rm_address_family = AF_INET, rm_destination_prefix_length = p,
      rm_nlas = [RNlaDestination (octets4 a), RNlaGateway (octets4 gw),
                 RNlaPriority (unwrap_or metric DEFAULT_METRIC)]\<rparr>"
| "create_route_msg (RouteIpv6 (a, p) gw metric) =
     \<lparr>rm_protocol = RTPROT_STATIC, rm_address_family = AF_INET6, rm_destination_prefix_length = p,
      rm_nlas = [RNlaDestination (octets6 a), RNlaGateway (octets6 gw),
                 RNlaPriority (unwrap_or metric DEFAULT_METRIC)]\<rparr>"

definition sock_add_route :: "'w nl_transport \<Rightarrow> route \<Rightarrow> ('w, unit) ncomp" where
  "sock_add_route t r =
     ack_request t ''add_route'' (NewRoute (create_route_msg r)) (NLM_F_ACK OR NLM_F_CREATE)"

definition sock_del_route :: "'w nl_transport \<Rightarrow> route \<Rightarrow> ('w, unit) ncomp" where
  "sock_del_route t r = ack_request t ''del_route'' (DelRoute (create_route_msg r)) NLM_F_ACK"

fun as_link :: "'w nl_transport \<Rightarrow> rtnl_message \<Rightarrow> link_message nres" where
  "as_link t (NewLink m) = Ok m"
| "as_link t m = Err (unexpected_type t m)"

fun as_route :: "'w nl_transport \<Rightarrow> rtnl_message \<Rightarrow> route_message nres" where
  "as_route t (NewRoute m) = Ok m"
| "as_route t m = Err (unexpected_type t m)"

fun as_address :: "'w nl_transport \<Rightarrow> rtnl_message \<Rightarrow> address_message nres" where
  "as_address t (NewAddress m) = Ok m"
| "as_address t m = Err (unexpected_type t m)"

definition sock_dump_routes :: "'w nl_transport \<Rightarrow> ('w, route_message list) ncomp" where
  "sock_dump_routes t =
     bindc (make_netlink_request t
              (GetRoute \<lparr>rm_protocol = RTPROT_UNSPEC, rm_address_family = 0,
                         rm_destination_prefix_length = 0, rm_nlas = []\<rparr>) (NLM_F_DUMP OR NLM_F_ACK))
       (\<lambda>results. liftc (mapM_res (as_route t) results))"

definition sock_dump_links :: "'w nl_transport \<Rightarrow> link_nla list \<Rightarrow> ('w, link_message list) ncomp" where
  "sock_dump_links t nlas =
     bindc (make_netlink_request t (GetLink (LinkMessage 0 0 0 nlas)) (NLM_F_DUMP OR NLM_F_ACK))
       (\<lambda>results. liftc (mapM_res (as_link t) results))"

definition sock_dump_addresses :: "'w nl_transport \<Rightarrow> ('w, address_message list) ncomp" where
  "sock_dump_addresses t =
     bindc (make_netlink_request t
              (GetAddress \<lparr>am_index = 0, am_family = 0, am_prefix_len = 0, am_nlas = []\<rparr>)
              (NLM_F_DUMP OR NLM_F_ACK))
       (\<lambda>results. liftc (mapM_res (as_address t) results))"

fun link_set_up :: "link_message \<Rightarrow> link_message" where
  "link_set_up (LinkMessage i flags change nlas) = LinkMessage i (flags OR IFF_UP) (change OR IFF_UP) nlas"

definition sock_set_up :: "'w nl_transport \<Rightarrow> link_id \<Rightarrow> ('w, unit) ncomp" where
  "sock_set_up t i =
     ack_request t ''set_up'' (SetLink (link_set_up (link_with_id i)))
       (NLM_F_ACK OR NLM_F_EXCL OR NLM_F_CREATE)"

text \<open>
  Opening a socket.  The operations of \<^verbatim>\<open>netlink_sys\<close> are a parameter: creating a socket
  gives the transport it is used through.
\<close>

record 'w nl_sys =
  ns_socket :: "('w, io_error, 'w nl_transport) comp"
  ns_bind :: "'w nl_transport \<Rightarrow> ('w, io_error, unit) comp"
  ns_connect :: "'w nl_transport \<Rightarrow> ('w, io_error, unit) comp"

definition sock_new :: "'w nl_sys \<Rightarrow> ('w, 'w nl_transport) ncomp" where
  "sock_new ns =
     bindc (map_errc (\<lambda>e. wrap ''open'' (Io e)) (ns_socket ns)) (\<lambda>t.
     seqc (map_errc (\<lambda>e. wrap ''bind'' (Io e)) (ns_bind ns t))
    (seqc (map_errc (\<lambda>e. wrap ''connect'' (Io e)) (ns_connect ns t))
       (\<lambda>w. (Ok t, tr_put t \<lparr>sk_sequence_number = 0, sk_buffer = replicate 8192 0\<rparr> w))))"

text \<open>The methods of a socket, as the drivers see it.\<close>

record 'w nl_socket =
  get_link :: "link_id \<Rightarrow> ('w, link_message) ncomp"
  create_link :: "create_link_options \<Rightarrow> ('w, unit) ncomp"
  set_link_name :: "32 word \<Rightarrow> string \<Rightarrow> ('w, unit) ncomp"
  del_link :: "link_id \<Rightarrow> ('w, unit) ncomp"
  add_addr :: "32 word \<Rightarrow> ip_net \<Rightarrow> ('w, unit) ncomp"
  add_route :: "route \<Rightarrow> ('w, unit) ncomp"
  dump_routes :: "('w, route_message list) ncomp"
  dump_links :: "link_nla list \<Rightarrow> ('w, link_message list) ncomp"
  set_up :: "link_id \<Rightarrow> ('w, unit) ncomp"
  set_link_ns :: "32 word \<Rightarrow> int \<Rightarrow> ('w, unit) ncomp"
  dump_addresses :: "('w, address_message list) ncomp"

definition socket_of :: "'w nl_transport \<Rightarrow> ipnet_lib \<Rightarrow> 'w nl_socket" where
  "socket_of t lib =
     \<lparr>get_link = sock_get_link t, create_link = sock_create_link t,
      set_link_name = sock_set_link_name t, del_link = sock_del_link t,
      add_addr = sock_add_addr t lib, add_route = sock_add_route t,
      dump_routes = sock_dump_routes t, dump_links = sock_dump_links t, set_up = sock_set_up t,
      set_link_ns = sock_set_link_ns t, dump_addresses = sock_dump_addresses t\<rparr>"

section \<open>Properties of the receive loop\<close>

text \<open>
  A datagram as the kernel builds it is a list of frames, each the bytes of one packet.
  \<open>decodes\<close> is what the packet crate promises of such bytes: the decoder reads the packet at
  the front of the buffer, whatever follows, and the length in its header is that of its bytes.
\<close>

type_synonym frame = "8 word list \<times> rx_packet"

definition decodes :: "(8 word list \<Rightarrow> (string, rx_packet) res) \<Rightarrow> frame \<Rightarrow> bool" where
  "decodes des f \<longleftrightarrow>
     fst f \<noteq> [] \<and> unat (rx_length (snd f)) = length (fst f) \<and> (\<forall>rest. des (fst f @ rest) = Ok (snd f))"

definition frame_bytes :: "frame list \<Rightarrow> 8 word list" where
  "frame_bytes fs = concat (map fst fs)"

lemma frame_bytes_simps [simp]:
  "frame_bytes [] = []"
  "frame_bytes (f # fs) = fst f @ frame_bytes fs"
  "frame_bytes (fs @ gs) = frame_bytes fs @ frame_bytes gs"
  by (simp_all add: frame_bytes_def)

lemma frame_bytes_empty_iff: "list_all (decodes des) fs \<Longrightarrow> frame_bytes fs = [] \<longleftrightarrow> fs = []"
  by (cases fs) (auto simp: decodes_def)

text \<open>
  The protocol, packet by packet, without datagrams, bytes and offsets.  \<open>verdict\<close> says
  whether a packet ends the exchange and how; \<open>answer\<close> goes through the packets up to the first that
  does.
\<close>

fun verdict :: "bool \<Rightarrow> 32 word \<Rightarrow> rx_packet \<Rightarrow> rtnl_message list \<Rightarrow> rtnl_message list nres option" where
  "verdict multi seq p got =
     (if rx_sequence_number p = seq
      then (case rx_payload p of
          PDone \<Rightarrow> Some (Ok got)
        | PAck e \<Rightarrow> Some (if nl_code e = 0 then Ok got else Err (Netlink e))
        | PError e \<Rightarrow> Some (if nl_code e = 0 then Ok got else Err (Netlink e))
        | PNoop \<Rightarrow> Some (Err (Message ''unimplemented netlink message type NOOP''))
        | POverrun \<Rightarrow> Some (Err (Message ''unimplemented netlink message type OVERRUN''))
        | PInner m \<Rightarrow> if multi then None else Some (Ok (got @ [m]))
        | POther \<Rightarrow> None)
      else Some (Err (Message (''netlink: sequence_number out of sync (got '' @
             show_nat (unat (rx_sequence_number p)) @ '', want '' @ show_nat (unat seq) @ '')''))))"

fun inner_messages :: "nl_payload \<Rightarrow> rtnl_message list" where
  "inner_messages (PInner m) = [m]"
| "inner_messages _ = []"

definition messages :: "rx_packet list \<Rightarrow> rtnl_message list" where
  "messages ps = concat (map (inner_messages \<circ> rx_payload) ps)"

primrec answer :: "bool \<Rightarrow> 32 word \<Rightarrow> rx_packet list \<Rightarrow> rtnl_message list \<Rightarrow> rtnl_message list nres option" where
  "answer multi seq [] got = None"
| "answer multi seq (p # ps) got =
     (case verdict multi seq p got of
        Some out \<Rightarrow> Some out
      | None \<Rightarrow> answer multi seq ps (got @ inner_messages (rx_payload p)))"

declare verdict.simps [simp del]

lemma messages_simps [simp]:
  "messages [] = []"
  "messages (p # ps) = inner_messages (rx_payload p) @ messages ps"
  "messages (ps @ qs) = messages ps @ messages qs"
  by (simp_all add: messages_def)

lemma answer_append:
  "answer multi seq (ps @ qs) got =
     (case answer multi seq ps got of Some out \<Rightarrow> Some out | None \<Rightarrow> answer multi seq qs (got @ messages ps))"
  by (induction ps arbitrary: got) (auto split: option.split)

text \<open>The inner loop over the frames of one datagram.\<close>

lemma recv_inner_frame:
  assumes "decodes des f"
  shows "recv_inner des multi seq (pre @ fst f @ rest) sz (length pre) result =
    (case verdict multi seq (snd f) result of
       Some out \<Rightarrow> Return out
     | None \<Rightarrow>
         if length pre + length (fst f) = sz then Again (result @ inner_messages (rx_payload (snd f)))
         else recv_inner des multi seq ((pre @ fst f) @ rest) sz (length (pre @ fst f))
                (result @ inner_messages (rx_payload (snd f))))"
proof -
  from assms have "rx_length (snd f) \<noteq> 0" by (auto simp: decodes_def)
  with assms show ?thesis
    by (subst recv_inner.simps) (cases "rx_payload (snd f)"; simp add: decodes_def verdict.simps Let_def)
qed

lemma recv_inner_frames:
  assumes "fs \<noteq> []" and "list_all (decodes des) fs"
  shows "recv_inner des multi seq (pre @ frame_bytes fs @ rest) (length (pre @ frame_bytes fs)) (length pre) result =
    (case answer multi seq (map snd fs) result of
       Some out \<Rightarrow> Return out | None \<Rightarrow> Again (result @ messages (map snd fs)))"
  using assms
proof (induction fs arbitrary: pre result)
  case (Cons f fs)
  note step = recv_inner_frame[of des f multi seq pre "frame_bytes fs @ rest"]
  show ?case
  proof (cases "fs = []")
    case True
    with Cons.prems step show ?thesis by (simp split: option.split)
  next
    case False
    with Cons.prems frame_bytes_empty_iff[of des fs] have "frame_bytes fs \<noteq> []" by simp
    with False Cons.prems step Cons.IH[of "pre @ fst f"] show ?thesis by (simp split: option.split)
  qed
qed simp

text \<open>
  The kernel's side: \<open>receives t seq w fs w'\<close> says that the next receive returns the datagram
  with the frames \<open>fs\<close>, which is not empty, fits into the buffer of 8192 bytes and decodes;
  \<open>seq\<close> is the number of the request.
\<close>

definition store_received :: "'w nl_transport \<Rightarrow> 8 word list \<Rightarrow> 'w \<Rightarrow> 'w" where
  "store_received t d w =
     tr_put t ((tr_get t w)\<lparr>sk_buffer := d @ drop (length d) (sk_buffer (tr_get t w))\<rparr>) w"

definition receives :: "'w nl_transport \<Rightarrow> 32 word \<Rightarrow> 'w \<Rightarrow> frame list \<Rightarrow> 'w \<Rightarrow> bool" where
  "receives t seq w fs w' \<longleftrightarrow> fs \<noteq> [] \<and> list_all (decodes (tr_deserialize t)) fs \<and> length (frame_bytes fs) \<le> 8192 \<and>
     (\<exists>w1. tr_recv t w = (Ok (frame_bytes fs), w1) \<and> sk_sequence_number (tr_get t w1) = seq \<and>
           length (sk_buffer (tr_get t w1)) = 8192 \<and> w' = store_received t (frame_bytes fs) w1)"

primrec delivers :: "'w nl_transport \<Rightarrow> 32 word \<Rightarrow> 'w \<Rightarrow> frame list list \<Rightarrow> 'w \<Rightarrow> bool" where
  "delivers t seq w [] w' = (w' = w)"
| "delivers t seq w (fs # dss) w' = (\<exists>w1. receives t seq w fs w1 \<and> delivers t seq w1 dss w')"

abbreviation packets :: "frame list list \<Rightarrow> rx_packet list" where
  "packets dss \<equiv> map snd (concat dss)"

lemma recv_loop_datagram:
  assumes "receives t seq w fs w'"
  shows "recv_loop t multi result w =
    (case answer multi seq (map snd fs) result of
       Some out \<Rightarrow> Some (out, w')
     | None \<Rightarrow> recv_loop t multi (result @ messages (map snd fs)) w')"
proof -
  from assms obtain w1 where fs: "fs \<noteq> []" "list_all (decodes (tr_deserialize t)) fs"
    and w1: "tr_recv t w = (Ok (frame_bytes fs), w1)" "sk_sequence_number (tr_get t w1) = seq"
      "length (frame_bytes fs) \<le> length (sk_buffer (tr_get t w1))" "w' = store_received t (frame_bytes fs) w1"
    by (auto simp: receives_def)
  with recv_inner_frames[OF fs, of multi seq "[]" "drop (length (frame_bytes fs)) (sk_buffer (tr_get t w1))" result]
  show ?thesis by (subst recv_loop.simps) (simp add: store_received_def Let_def split: option.split)
qed

lemma recv_loop_answered:
  assumes "delivers t seq w dss w'" and "answer multi seq (packets dss) result = Some out"
  shows "\<exists>w2. recv_loop t multi result w = Some (out, w2)"
  using assms
proof (induction dss arbitrary: w result)
  case (Cons fs dss)
  then obtain w1 where w1: "receives t seq w fs w1" and rest: "delivers t seq w1 dss w'" by auto
  from recv_loop_datagram[OF w1, of multi result] Cons.prems(2) Cons.IH[OF rest] show ?case
    by (auto simp: answer_append split: option.splits)
qed simp

lemma recv_loop_waits:
  assumes "delivers t seq w dss w'" and "answer multi seq (packets dss) result = None"
  shows "recv_loop t multi result w = recv_loop t multi (result @ messages (packets dss)) w'"
  using assms
proof (induction dss arbitrary: w result)
  case (Cons fs dss)
  then obtain w1 where w1: "receives t seq w fs w1" and rest: "delivers t seq w1 dss w'" by auto
  from recv_loop_datagram[OF w1, of multi result] Cons.prems(2) Cons.IH[OF rest] show ?case
    by (auto simp: answer_append split: option.splits)
qed simp

lemma answer_dump:
  assumes "\<forall>p\<in>set ps. rx_sequence_number p = seq \<and> (rx_payload p = POther \<or> (\<exists>m. rx_payload p = PInner m))"
  shows "answer True seq ps got = None"
  using assms by (induction ps arbitrary: got) (auto simp: verdict.simps)

lemma delivers_snoc: "delivers t seq w (dss @ [fs]) w' \<Longrightarrow> \<exists>w1. delivers t seq w dss w1 \<and> receives t seq w1 fs w'"
  by (induction dss arbitrary: w) (simp, fastforce)

lemma multi_only_dump:
  "(NLM_F_DUMP OR NLM_F_ACK) AND NLM_F_DUMP = NLM_F_DUMP"
  "(NLM_F_ACK OR NLM_F_EXCL OR NLM_F_CREATE) AND NLM_F_DUMP \<noteq> NLM_F_DUMP"
  "(NLM_F_ACK OR NLM_F_CREATE) AND NLM_F_DUMP \<noteq> NLM_F_DUMP"
  "NLM_F_ACK AND NLM_F_DUMP \<noteq> NLM_F_DUMP"
  by (simp_all add: nl_const_defs)

lemma mapM_as_link [simp]: "mapM_res (as_link t) (map NewLink links) = Ok links"
  by (induction links) auto

text \<open>
  C1: a link dump returns, in order, every link the kernel sent, in any number of datagrams that fit into the
  socket's buffer of 8192 bytes, up to the end-of-dump packet; in particular the receive loop ends.
\<close>

theorem dump_links_complete:
  assumes "nl_send t (GetLink (LinkMessage 0 0 0 nlas)) (NLM_F_DUMP OR NLM_F_ACK) w = (Ok (), w0)"
    and "delivers t seq w0 (dss @ [fs @ [d]]) w'"
    and "\<forall>p\<in>set (packets (dss @ [fs])). rx_sequence_number p = seq \<and> (rx_payload p = POther \<or> (\<exists>m. rx_payload p = PInner m))"
    and "rx_sequence_number (snd d) = seq" and "rx_payload (snd d) = PDone"
    and "messages (packets (dss @ [fs])) = map NewLink links"
  shows "sock_dump_links t nlas w = (Ok links, w')"
proof -
  obtain w1 where w1: "delivers t seq w0 dss w1" and last: "receives t seq w1 (fs @ [d]) w'"
    using delivers_snoc[OF assms(2)] by blast
  have wait: "answer True seq (packets dss) [] = None" "answer True seq (map snd fs) got = None" for got
    using assms(3) by (intro answer_dump; simp)+
  have "recv_loop t True [] w0 = Some (Ok (map NewLink links), w')"
    using recv_loop_waits[OF w1 wait(1)] recv_loop_datagram[OF last] assms(4-6) wait(2)
    by (simp add: answer_append verdict.simps)
  with assms(1) have "make_netlink_request t (GetLink (LinkMessage 0 0 0 nlas)) (NLM_F_DUMP OR NLM_F_ACK) w =
    (Ok (map NewLink links), w')"
    by (simp add: make_netlink_request_def multi_only_dump seqc_def bindc_def map_errc_def matchc_def
        retc_def nl_recv_def)
  then show ?thesis by (simp add: sock_dump_links_def bindc_OkI liftc_def)
qed

text \<open>A small transport: packets of two bytes, a tag and the sequence number.\<close>

definition tiny_decode :: "8 word list \<Rightarrow> (string, rx_packet) res" where
  "tiny_decode bs =
     (case bs of
        a # b # _ \<Rightarrow>
          Ok \<lparr>rx_length = 2, rx_sequence_number = ucast b,
              rx_payload = (if a = 1 then PInner (NewLink (LinkMessage 7 0 0 [])) else
                            if a = 2 then PAck (NlError (- 17) ''File exists'') else PDone)\<rparr>
      | _ \<Rightarrow> Err ''short packet'')"

type_synonym tiny = "nl_sock \<times> 8 word list list"

definition tiny_recv :: "(tiny, io_error, 8 word list) comp" where
  "tiny_recv w =
     (case snd w of [] \<Rightarrow> (Err (io_other ''empty''), w) | d # ds \<Rightarrow> (Ok d, (fst w, ds)))"

definition tiny_transport :: "tiny nl_transport" where
  "tiny_transport =
     \<lparr>tr_get = fst, tr_put = (\<lambda>sk w. (sk, snd w)), tr_serialize = (\<lambda>p. [9, ucast (pk_sequence_number p)]),
      tr_send = (\<lambda>bs w. (Ok (), w)), tr_recv = tiny_recv, tr_deserialize = tiny_decode,
      tr_message_type = (\<lambda>m. 16)\<rparr>"

definition tiny_world :: "8 word list list \<Rightarrow> tiny" where
  "tiny_world ds = (\<lparr>sk_sequence_number = 0, sk_buffer = replicate 8192 0\<rparr>, ds)"

definition tiny_frame :: "8 word \<Rightarrow> frame" where
  "tiny_frame a = ([a, 1], \<lparr>rx_length = 2, rx_sequence_number = 1,
     rx_payload = (if a = 1 then PInner (NewLink (LinkMessage 7 0 0 [])) else
                   if a = 2 then PAck (NlError (- 17) ''File exists'') else PDone)\<rparr>)"

lemma tiny_frame_decodes: "decodes tiny_decode (tiny_frame a)"
  by (simp add: decodes_def tiny_decode_def tiny_frame_def)

lemma tiny_receives:
  assumes "fs = map tiny_frame as" "as \<noteq> []" "2 * length as \<le> 8192"
    and "sk_sequence_number sk = 1" "length (sk_buffer sk) = 8192"
  shows "\<exists>sk'. receives tiny_transport 1 (sk, frame_bytes fs # ds) fs (sk', ds) \<and>
    sk_sequence_number sk' = 1 \<and> length (sk_buffer sk') = 8192"
proof -
  have len: "length (frame_bytes fs) = 2 * length as" unfolding assms(1) by (induction as) (simp_all add: tiny_frame_def)
  have "list_all (decodes tiny_decode) fs" unfolding assms(1) by (simp add: list_all_iff tiny_frame_decodes)
  with assms(2-5) len show ?thesis
    by (intro exI[of _ "sk\<lparr>sk_buffer := frame_bytes fs @ drop (length (frame_bytes fs)) (sk_buffer sk)\<rparr>"])
      (auto simp: receives_def tiny_transport_def tiny_recv_def store_received_def assms(1))
qed

lemma tiny_send:
  "\<exists>sk. nl_send tiny_transport msg flags (tiny_world ds) = (Ok (), (sk, ds)) \<and>
     sk_sequence_number sk = 1 \<and> length (sk_buffer sk) = 8192"
  by (simp add: nl_send_def tiny_transport_def tiny_world_def Let_def comp_simps)

theorem dump_links_complete_witness:
  "\<exists>w'. sock_dump_links tiny_transport [] (tiny_world [[1, 1, 1, 1], [1, 1, 3, 1]]) =
     (Ok [LinkMessage 7 0 0 [], LinkMessage 7 0 0 [], LinkMessage 7 0 0 []], w')"
proof -
  let ?l = "tiny_frame 1" and ?d = "tiny_frame 3"
  have bytes: "frame_bytes [?l, ?l] = [1, 1, 1, 1]" "frame_bytes [?l, ?d] = [1, 1, 3, 1]" by (simp_all add: tiny_frame_def)
  obtain sk where send: "nl_send tiny_transport (GetLink (LinkMessage 0 0 0 [])) (NLM_F_DUMP OR NLM_F_ACK)
      (tiny_world [[1, 1, 1, 1], [1, 1, 3, 1]]) = (Ok (), (sk, [[1, 1, 1, 1], [1, 1, 3, 1]]))"
    and sk: "sk_sequence_number sk = 1" "length (sk_buffer sk) = 8192" using tiny_send by blast
  obtain sk1 where r1: "receives tiny_transport 1 (sk, [[1, 1, 1, 1], [1, 1, 3, 1]]) [?l, ?l] (sk1, [[1, 1, 3, 1]])"
    and sk1: "sk_sequence_number sk1 = 1" "length (sk_buffer sk1) = 8192"
    using tiny_receives[of "[?l, ?l]" "[1, 1]" sk "[[1, 1, 3, 1]]"] sk bytes by auto
  obtain sk2 where r2: "receives tiny_transport 1 (sk1, [[1, 1, 3, 1]]) [?l, ?d] (sk2, [])"
    using tiny_receives[of "[?l, ?d]" "[1, 3]" sk1 "[]"] sk1 bytes by auto
  from r1 r2 have "delivers tiny_transport 1 (sk, [[1, 1, 1, 1], [1, 1, 3, 1]]) ([[?l, ?l]] @ [[?l] @ [?d]]) (sk2, [])" by auto
  from dump_links_complete[OF send this, of "[LinkMessage 7 0 0 [], LinkMessage 7 0 0 [], LinkMessage 7 0 0 []]"]
  show ?thesis by (simp add: tiny_frame_def)
qed

text \<open>
  The outcome of a request that expects only an acknowledgement, by the first packet that is not
  of an unknown kind.
\<close>

fun ack_outcome :: "string \<Rightarrow> nl_payload \<Rightarrow> unit nres" where
  "ack_outcome fn (PAck e) = (if nl_code e = 0 then Ok () else Err (Netlink e))"
| "ack_outcome fn (PError e) = (if nl_code e = 0 then Ok () else Err (Netlink e))"
| "ack_outcome fn PDone = Ok ()"
| "ack_outcome fn PNoop = Err (Message ''unimplemented netlink message type NOOP'')"
| "ack_outcome fn POverrun = Err (Message ''unimplemented netlink message type OVERRUN'')"
| "ack_outcome fn (PInner m) = Err (Message (fn @ '': unexpected netlink result (got 1 result(s), want 0)''))"
| "ack_outcome fn POther = Hang"

definition out_of_sync :: "32 word \<Rightarrow> 32 word \<Rightarrow> netavark_error" where
  "out_of_sync got want = Message (''netlink: sequence_number out of sync (got '' @
     show_nat (unat got) @ '', want '' @ show_nat (unat want) @ '')'')"

lemma show_nat_digits [simp]: "show_nat 0 = ''0''" "show_nat (Suc 0) = ''1''"
  by (simp_all add: show_nat_small digit_char_def)

lemma answer_unknown:
  assumes "\<forall>q\<in>set qs. rx_sequence_number q = seq \<and> rx_payload q = POther"
  shows "answer False seq (qs @ ps) got = answer False seq ps got"
  using assms by (induction qs) (auto simp: verdict.simps)

lemma ack_request_outcome:
  assumes "flags AND NLM_F_DUMP \<noteq> NLM_F_DUMP"
    and "nl_send t msg flags w = (Ok (), w0)"
    and "delivers t seq w0 dss w'" and "packets dss = qs @ p # ps"
    and "\<forall>q\<in>set qs. rx_sequence_number q = seq \<and> rx_payload q = POther"
    and "rx_sequence_number p = seq \<longrightarrow> rx_payload p \<noteq> POther"
  shows "fst (ack_request t fn msg flags w) =
    (if rx_sequence_number p = seq then ack_outcome fn (rx_payload p) else Err (out_of_sync (rx_sequence_number p) seq))"
proof -
  have "verdict False seq p [] \<noteq> None" using assms(6) by (cases "rx_payload p") (simp_all add: verdict.simps)
  then obtain out where out: "verdict False seq p [] = Some out" by blast
  then have "answer False seq (packets dss) [] = Some out" using answer_unknown[OF assms(5)] assms(4) by simp
  from recv_loop_answered[OF assms(3) this] obtain w2 where "nl_recv t False w0 = (out, w2)" by (auto simp: nl_recv_def)
  with assms(1,2,6) out show ?thesis
    by (cases "rx_payload p")
      (auto simp: ack_request_def make_netlink_request_def expect_netlink_result_def comp_simps verdict.simps out_of_sync_def
        split: if_splits)
qed

text \<open>
  C30: what comes of adding a route is decided by the first packet of the kernel that is not of an
  unknown kind, in whichever datagram it is.  A packet of another sequence is an error; an
  acknowledgement succeeds when its code is zero and is that very netlink error otherwise; an end
  marker succeeds; a message, a no-op and an overrun are errors.
\<close>

theorem add_route_outcome:
  assumes "nl_send t (NewRoute (create_route_msg r)) (NLM_F_ACK OR NLM_F_CREATE) w = (Ok (), w0)"
    and "delivers t seq w0 dss w'" and "packets dss = qs @ p # ps"
    and "\<forall>q\<in>set qs. rx_sequence_number q = seq \<and> rx_payload q = POther"
    and "rx_sequence_number p = seq \<longrightarrow> rx_payload p \<noteq> POther"
  shows "fst (sock_add_route t r w) =
    (if rx_sequence_number p = seq then ack_outcome ''add_route'' (rx_payload p)
     else Err (out_of_sync (rx_sequence_number p) seq))"
  unfolding sock_add_route_def by (rule ack_request_outcome[OF multi_only_dump(3) assms])

theorem add_route_outcome_witness:
  "fst (sock_add_route tiny_transport
     (RouteIpv4 (Ipv4Addr 0 0 0 0, 0) (Ipv4Addr 10 0 0 1) None) (tiny_world [[2, 1]])) =
   Err (Netlink (NlError (- 17) ''File exists''))"
proof -
  let ?r = "RouteIpv4 (Ipv4Addr 0 0 0 0, 0) (Ipv4Addr 10 0 0 1) None"
  have bytes: "frame_bytes [tiny_frame 2] = [2, 1]" by (simp add: tiny_frame_def)
  obtain sk where send: "nl_send tiny_transport (NewRoute (create_route_msg ?r)) (NLM_F_ACK OR NLM_F_CREATE)
      (tiny_world [[2, 1]]) = (Ok (), (sk, [[2, 1]]))"
    and sk: "sk_sequence_number sk = 1" "length (sk_buffer sk) = 8192" using tiny_send by blast
  obtain sk' where "receives tiny_transport 1 (sk, [[2, 1]]) [tiny_frame 2] (sk', [])"
    using tiny_receives[of "[tiny_frame 2]" "[2]" sk "[]"] sk bytes by auto
  then have "delivers tiny_transport 1 (sk, [[2, 1]]) [[tiny_frame 2]] (sk', [])" by simp
  from add_route_outcome[OF send this, of "[]" "snd (tiny_frame 2)" "[]"] show ?thesis by (simp add: tiny_frame_def)
qed

section \<open>Termination of the receive loop\<close>

lemma recv_loop_returns:
  assumes "recv_loop t multi result w = Some y"
    and "ws 0 = w" and "\<And>n. receives t seq (ws n) (ds n) (ws (Suc n))"
  shows "\<exists>n. answer multi seq (packets (map ds [0..<n])) result \<noteq> None"
  using assms
proof (induction arbitrary: ds ws rule: recv_loop.raw_induct[rotated 1, consumes 1])
  case (1 rec t multi result w y)
  from 1(3) 1(4)[of 0] obtain w1 where fs: "ds 0 \<noteq> []" "list_all (decodes (tr_deserialize t)) (ds 0)"
    and w1: "tr_recv t w = (Ok (frame_bytes (ds 0)), w1)" "sk_sequence_number (tr_get t w1) = seq"
      "length (frame_bytes (ds 0)) \<le> length (sk_buffer (tr_get t w1))" "ws 1 = store_received t (frame_bytes (ds 0)) w1"
    by (auto simp: receives_def)
  have inner: "recv_inner (tr_deserialize t) multi seq
      (frame_bytes (ds 0) @ drop (length (frame_bytes (ds 0))) (sk_buffer (tr_get t w1))) (length (frame_bytes (ds 0))) 0 result =
    (case answer multi seq (map snd (ds 0)) result of
       Some out \<Rightarrow> Return out | None \<Rightarrow> Again (result @ messages (map snd (ds 0))))"
    using recv_inner_frames[OF fs, of multi seq "[]"] by simp
  show ?case
  proof (cases "answer multi seq (map snd (ds 0)) result")
    case None
    with 1(2) w1 inner have "rec t multi (result @ messages (map snd (ds 0))) (ws 1) = Some y"
      by (simp add: Let_def store_received_def)
    from 1(1)[OF this, of "\<lambda>n. ws (Suc n)" "\<lambda>n. ds (Suc n)"] 1(4)
    obtain n where n: "answer multi seq (packets (map (\<lambda>n. ds (Suc n)) [0..<n])) (result @ messages (map snd (ds 0))) \<noteq> None"
      by auto
    have "packets (map ds [0..<Suc n]) = map snd (ds 0) @ packets (map (\<lambda>n. ds (Suc n)) [0..<n])"
      by (simp add: upt_conv_Cons map_Suc_upt[symmetric] comp_def del: upt_Suc)
    then have "answer multi seq (packets (map ds [0..<Suc n])) result \<noteq> None" using n None by (simp only: answer_append) simp
    then show ?thesis ..
  next
    case (Some out)
    then have "answer multi seq (packets (map ds [0..<1])) result \<noteq> None" by simp
    then show ?thesis ..
  qed
qed

lemma stream_delivers:
  assumes "\<And>n. receives t seq (ws n) (ds n) (ws (Suc n))"
  shows "delivers t seq (ws k) (map ds [k..<k + n]) (ws (k + n))"
proof (induction n arbitrary: k)
  case (Suc n)
  have "map ds [k..<k + Suc n] = ds k # map ds [Suc k..<Suc k + n]" by (simp add: upt_conv_Cons del: upt_Suc)
  with Suc[of "Suc k"] assms[of k] show ?case by auto
qed simp

text \<open>
  C2: whatever packets the kernel sends, in whatever datagrams that fit into the buffer, the receive
  loop returns exactly when one of the packets ends the exchange, with the outcome the protocol
  gives to the first such packet and the messages before it; when no packet does, it never
  returns.
\<close>

theorem recv_returns_iff:
  assumes "\<forall>n. receives t seq (ws n) (ds n) (ws (Suc n))"
  shows "((\<exists>w'. recv_loop t multi [] (ws 0) = Some (out, w')) \<longleftrightarrow>
      (\<exists>n. answer multi seq (packets (map ds [0..<n])) [] = Some out)) \<and>
    (recv_loop t multi [] (ws 0) = None \<longleftrightarrow> (\<forall>n. answer multi seq (packets (map ds [0..<n])) [] = None))"
proof -
  have str: "receives t seq (ws n) (ds n) (ws (Suc n))" for n using assms by simp
  have ret: "\<exists>w'. recv_loop t multi [] (ws 0) = Some (out, w')"
    if "answer multi seq (packets (map ds [0..<n])) [] = Some out" for n out
    using recv_loop_answered[OF stream_delivers[of t seq ws ds 0 n, OF str]] that by simp
  have conv: "\<exists>n. answer multi seq (packets (map ds [0..<n])) [] = Some out"
    if run: "recv_loop t multi [] (ws 0) = Some (out, w')" for out w'
  proof -
    obtain n out' where n: "answer multi seq (packets (map ds [0..<n])) [] = Some out'"
      using recv_loop_returns[OF run refl str] by blast
    with ret[OF n] run show ?thesis by auto
  qed
  show ?thesis
  proof (intro conjI)
    show "recv_loop t multi [] (ws 0) = None \<longleftrightarrow> (\<forall>n. answer multi seq (packets (map ds [0..<n])) [] = None)"
    proof
      assume none: "recv_loop t multi [] (ws 0) = None"
      show "\<forall>n. answer multi seq (packets (map ds [0..<n])) [] = None" using ret none by (metis not_None_eq option.distinct(1))
    next
      assume all: "\<forall>n. answer multi seq (packets (map ds [0..<n])) [] = None"
      show "recv_loop t multi [] (ws 0) = None" using conv all by (metis option.distinct(1) option.exhaust surj_pair)
    qed
  qed (use ret conv in blast)
qed

text \<open>A kernel that sends two links, then end markers.\<close>

definition counting_transport :: "nat nl_transport" where
  "counting_transport =
     \<lparr>tr_get = (\<lambda>_. \<lparr>sk_sequence_number = 1, sk_buffer = replicate 8192 0\<rparr>), tr_put = (\<lambda>_ n. n),
      tr_serialize = (\<lambda>_. []), tr_send = (\<lambda>_ n. (Ok (), n)),
      tr_recv = (\<lambda>n. (Ok (fst (tiny_frame (if n < 2 then 1 else 3))), Suc n)), tr_deserialize = tiny_decode,
      tr_message_type = (\<lambda>m. 16)\<rparr>"

theorem recv_returns_iff_witness:
  "\<exists>w'. recv_loop counting_transport True [] 0 = Some (Ok [NewLink (LinkMessage 7 0 0 []), NewLink (LinkMessage 7 0 0 [])], w')"
proof -
  let ?ds = "\<lambda>n :: nat. [tiny_frame (if n < 2 then 1 else 3)]"
  have str: "\<forall>n. receives counting_transport 1 n (?ds n) (Suc n)"
    by (auto simp: receives_def counting_transport_def store_received_def tiny_frame_decodes) (simp_all add: tiny_frame_def)
  have "answer True 1 (packets (map ?ds [0..<3])) [] = Some (Ok [NewLink (LinkMessage 7 0 0 []), NewLink (LinkMessage 7 0 0 [])])"
    by (simp add: upt_rec[of 0] upt_rec[of 1] upt_rec[of 2] tiny_frame_def verdict.simps numeral_eq_Suc)
  then show ?thesis using recv_returns_iff[of counting_transport 1 "\<lambda>n. n", OF str] by blast
qed

end
