(* ===== verification/Core_Utils.thy ===== *)
theory Core_Utils
  imports Netlink
begin

text \<open>
  \<^verbatim>\<open>src/network/core_utils.rs\<close>: options, address assignment, MAC addresses, hashes, sysctls,
  network namespaces and default routes.

  What the operating system and other crates do is a parameter: the record \<open>os\<close> holds the
  calls of \<^verbatim>\<open>nix\<close>, \<^verbatim>\<open>sysctl\<close> and the file system the functions make; \<open>sha512\<close>
  is the upper-case hexadecimal digest; the environment is a map.  The process-wide
  \<^verbatim>\<open>Once\<close> cells are reached through \<open>once_done\<close> and \<open>once_mark\<close>.
\<close>

section \<open>Environment and options\<close>

definition get_netavark_dns_port :: "(string \<rightharpoonup> string) \<Rightarrow> 16 word nres" where
  "get_netavark_dns_port env =
     (case env ''NETAVARK_DNS_PORT'' of
        Some port_string \<Rightarrow>
          map_err (\<lambda>e. Message (''Invalid NETAVARK_DNS_PORT '' @ port_string @ '': '' @ show_parse_int_error e))
            (parse_u16 port_string)
      | None \<Rightarrow> Ok 53)"

text \<open>
  \<open>parse\<close> is the target type's \<^verbatim>\<open>FromStr\<close> with its error already printed; the three
  instances the program uses follow.
\<close>

definition parse_option ::
  "(string \<Rightarrow> (string, 'a) res) \<Rightarrow> (string \<rightharpoonup> string) option \<Rightarrow> string \<Rightarrow> 'a \<Rightarrow> 'a nres" where
  "parse_option parse opts name d =
     (case Option.bind opts (\<lambda>m. m name) of
        Some val \<Rightarrow>
          map_err (\<lambda>err. Message (''unable to parse '' @ [CHR 0x22] @ name @ [CHR 0x22] @ '': '' @ err)) (parse val)
      | None \<Rightarrow> Ok d)"

definition from_str_u32 :: "string \<Rightarrow> (string, 32 word) res" where
  "from_str_u32 s = map_err show_parse_int_error (parse_u32 s)"

definition from_str_string :: "string \<Rightarrow> (string, string) res" where
  "from_str_string s = Ok s"

section \<open>Address assignment\<close>

text \<open>
  One iteration of the loop over the subnets; the four vectors and the flag are the fields of the
  record that is returned.
\<close>

definition ipam_subnet ::
  "ipnet_lib \<Rightarrow> ip_addr list \<Rightarrow> nat \<times> subnet \<Rightarrow> ipam_addresses \<Rightarrow> (io_error, ipam_addresses) res" where
  "ipam_subnet lib static_ips = (\<lambda>(idx, subnet) acc.
     let cidr = net_prefix_len (sub_subnet subnet)
     in bind_res
       (case sub_gateway subnet of
          None \<Rightarrow> Ok acc
        | Some gw \<Rightarrow>
            bind_res
              (map_err (\<lambda>err. io_other (''failed to parse address '' @ show_ip gw @ ''/'' @ show_nat (unat cidr) @ '': '' @ err))
                 (ipnet_new lib gw cidr))
              (\<lambda>gw_net. Ok (acc\<lparr>ia_gateway_addresses := ia_gateway_addresses acc @ [gw_net],
                              ia_nameservers := ia_nameservers acc @ [gw]\<rparr>)))
       (\<lambda>acc1.
          let acc2 = (if net_is_ipv6 (sub_subnet subnet) then acc1\<lparr>ia_ipv6_enabled := True\<rparr> else acc1)
          in if idx < length static_ips
             then bind_res
               (map_err io_other (ipnet_from_str lib (show_ip (static_ips ! idx) @ ''/'' @ show_nat (unat cidr))))
               (\<lambda>addr. Ok (acc2\<lparr>ia_container_addresses := ia_container_addresses acc2 @ [addr],
                              ia_net_addresses := ia_net_addresses acc2 @
                                [\<lparr>na_gateway = sub_gateway subnet, na_ipnet = addr\<rparr>]\<rparr>))
             else Panic))"

definition ipam_empty :: "bool \<Rightarrow> ipam_addresses" where
  "ipam_empty dhcp =
     \<lparr>ia_container_addresses = [], ia_dhcp_enabled = dhcp, ia_gateway_addresses = [],
      ia_ipv6_enabled = False, ia_net_addresses = [], ia_nameservers = []\<rparr>"

definition subnet_list :: "network \<Rightarrow> subnet list" where
  "subnet_list net = (case n_subnets net of None \<Rightarrow> [] | Some xs \<Rightarrow> xs)"

definition get_ipam_addresses ::
  "ipnet_lib \<Rightarrow> per_network_options \<Rightarrow> network \<Rightarrow> (io_error, ipam_addresses) res" where
  "get_ipam_addresses lib opts net =
     (let driver = Option.bind (n_ipam_options net) (\<lambda>m. m ''driver'')
      in if driver = Some IPAM_HOSTLOCAL \<or> driver = None
         then (case pn_static_ips opts of
                 None \<Rightarrow> Err (io_other ''no static ips provided'')
               | Some static_ips \<Rightarrow>
                   fold_res (ipam_subnet lib static_ips) (enumerate 0 (subnet_list net)) (ipam_empty False))
         else if driver = Some IPAM_NONE then Ok (ipam_empty False)
         else if driver = Some IPAM_DHCP then Ok (ipam_empty True)
         else Err (io_other (''unsupported ipam driver '' @ the driver)))"

section \<open>MAC addresses, modes and hashes\<close>

definition encode_address_to_hex :: "8 word list \<Rightarrow> string" where
  "encode_address_to_hex bytes = join '':'' (map hex2 bytes)"

definition decode_address_from_hex :: "string \<Rightarrow> (io_error, 8 word list) res" where
  "decode_address_from_hex input =
     (case mapM_res parse_u8_hex (split_by (\<lambda>c. c = CHR '':'' \<or> c = CHR ''-'') input) of
        Ok bytes \<Rightarrow>
          if length bytes \<noteq> 6 then Err (io_other (''invalid mac length for address: '' @ input)) else Ok bytes
      | Err e \<Rightarrow> Err (io_other (''unable to parse mac address '' @ input @ '': '' @ show_parse_int_error e))
      | Panic \<Rightarrow> Panic
      | Hang \<Rightarrow> Hang)"

definition get_macvlan_mode_from_string :: "string \<Rightarrow> macvlan_mode nres" where
  "get_macvlan_mode_from_string mode =
     (if mode = '''' \<or> mode = ''bridge'' then Ok MODE_BRIDGE
      else if mode = ''private'' then Ok MODE_PRIVATE
      else if mode = ''vepa'' then Ok MODE_VEPA
      else if mode = ''passthru'' then Ok MODE_PASSTHRU
      else if mode = ''source'' then Ok MODE_SOURCE
      else Err (Message (''invalid macvlan mode '' @ [CHR 0x22] @ mode @ [CHR 0x22])))"

definition IPVLAN_MODE_L2 :: "16 word" where "IPVLAN_MODE_L2 = 0"
definition IPVLAN_MODE_L3 :: "16 word" where "IPVLAN_MODE_L3 = 1"
definition IPVLAN_MODE_L3S :: "16 word" where "IPVLAN_MODE_L3S = 2"

definition get_ipvlan_mode_from_string :: "string \<Rightarrow> 16 word nres" where
  "get_ipvlan_mode_from_string mode =
     (if mode = '''' \<or> mode = ''l2'' then Ok IPVLAN_MODE_L2
      else if mode = ''l3'' then Ok IPVLAN_MODE_L3
      else if mode = ''l3s'' then Ok IPVLAN_MODE_L3S
      else Err (Message (''invalid ipvlan mode '' @ [CHR 0x22] @ mode @ [CHR 0x22])))"

text \<open>Slicing the digest beyond its end panics.\<close>

definition create_network_hash :: "(string \<Rightarrow> string) \<Rightarrow> string \<Rightarrow> nat \<Rightarrow> (netavark_error, string) res" where
  "create_network_hash sha512 network_name len =
     (let hash_string = sha512 network_name
      in if len \<le> length hash_string then Ok (take len hash_string) else Panic)"

section \<open>The operating system\<close>

record 'w os =
  os_open :: "string \<Rightarrow> ('w, io_error, int) comp"
  os_setns :: "int \<Rightarrow> ('w, io_error, unit) comp"
  os_nl :: "'w nl_sys"
  once_done :: "string \<Rightarrow> 'w \<Rightarrow> bool"
  once_mark :: "string \<Rightarrow> 'w \<Rightarrow> 'w"
  ctl_new :: "string \<Rightarrow> ('w, sysctl_error, unit) comp"
  ctl_value_string :: "string \<Rightarrow> ('w, sysctl_error, string) comp"
  ctl_set_value_string :: "string \<Rightarrow> string \<Rightarrow> ('w, sysctl_error, string) comp"

subsection \<open>Sysctls\<close>

definition apply_sysctl_value :: "'w os \<Rightarrow> string \<Rightarrow> string \<Rightarrow> ('w, sysctl_error, string) comp" where
  "apply_sysctl_value os ns_value val =
     seqc (ctl_new os ns_value)
       (bindc (ctl_value_string os ns_value) (\<lambda>result.
          if result = val then retc result else ctl_set_value_string os ns_value val))"

definition disable_ipv6_autoconf :: "'w os \<Rightarrow> string \<Rightarrow> ('w, unit) ncomp" where
  "disable_ipv6_autoconf os if_name =
     matchc (apply_sysctl_value os (''/proc/sys/net/ipv6/conf/'' @ if_name @ ''/autoconf'') ''0'')
       (\<lambda>_. retc ())
       (\<lambda>err. case err of
          SysctlNotFound _ \<Rightarrow> retc ()
        | SysctlIo code _ \<Rightarrow>
            if code = Some EROFS then retc ()
            else failc (wrap ''failed to set autoconf sysctl'' (Sysctl err))
        | SysctlOther _ \<Rightarrow> failc (wrap ''failed to set autoconf sysctl'' (Sysctl err)))"

subsection \<open>Network namespaces\<close>

definition join_netns :: "'w os \<Rightarrow> int \<Rightarrow> ('w, unit) ncomp" where
  "join_netns os fd = map_errc (\<lambda>e. wrap ''setns'' (Io e)) (os_setns os fd)"

text \<open>
  The macro \<^verbatim>\<open>exec_netns!\<close>.  The expression it runs has a \<^verbatim>\<open>Result\<close> as its value,
  which is bound to the caller's variable; a \<^verbatim>\<open>?\<close> inside the expression leaves the calling
  function there and then.  So the expression is a computation whose value is a
  \<open>res\<close>: \<open>attempt\<close> turns a call into one.
\<close>

definition attempt :: "('w, 'e, 'a) comp \<Rightarrow> ('w, 'f, ('e, 'a) res) comp" where
  "attempt m = matchc m (\<lambda>x. retc (Ok x)) (\<lambda>e. retc (Err e))"

definition exec_netns :: "'w os \<Rightarrow> int \<Rightarrow> int \<Rightarrow> ('w, 'a) ncomp \<Rightarrow> ('w, 'a) ncomp" where
  "exec_netns os host netns exec =
     seqc (join_netns os netns) (bindc exec (\<lambda>result. seqc (join_netns os host) (retc result)))"

record 'w namespace_options =
  ns_fd :: int
  ns_netlink :: "'w nl_socket"

definition open_netlink_socket :: "'w os \<Rightarrow> string \<Rightarrow> ('w, int) ncomp" where
  "open_netlink_socket os netns_path = map_errc (\<lambda>e. wrap (''open '' @ netns_path) (Io e)) (os_open os netns_path)"

definition open_netlink_sockets ::
  "'w os \<Rightarrow> ipnet_lib \<Rightarrow> string \<Rightarrow> ('w, 'w namespace_options \<times> 'w namespace_options) ncomp" where
  "open_netlink_sockets os lib netns_path =
     bindc (wrapc ''open container netns'' (open_netlink_socket os netns_path)) (\<lambda>netns.
     bindc (wrapc ''open host netns'' (open_netlink_socket os ''/proc/self/ns/net'')) (\<lambda>hostns.
     bindc (wrapc ''host netlink socket'' (sock_new (os_nl os))) (\<lambda>host_socket.
     bindc (exec_netns os hostns netns (attempt (wrapc ''netns netlink socket'' (sock_new (os_nl os))))) (\<lambda>res.
     bindc (liftc res) (\<lambda>netns_sock.
     retc (\<lparr>ns_fd = hostns, ns_netlink = socket_of host_socket lib\<rparr>,
           \<lparr>ns_fd = netns, ns_netlink = socket_of netns_sock lib\<rparr>))))))"

subsection \<open>Default routes\<close>

fun default_route :: "32 word option \<Rightarrow> ip_net \<Rightarrow> route" where
  "default_route metric (NetV4 a _) = RouteIpv4 (Ipv4Addr 0 0 0 0, 0) a metric"
| "default_route metric (NetV6 a _) = RouteIpv6 (Ipv6Addr 0 0 0 0 0 0 0 0, 0) a metric"

definition add_default_route :: "ipnet_lib \<Rightarrow> 'w nl_socket \<Rightarrow> 32 word option \<Rightarrow> ip_net \<Rightarrow> ('w, unit) ncomp" where
  "add_default_route lib sock metric gw =
     (let route = default_route metric gw
      in wrapc (''add default route '' @ show_route lib route) (add_route sock route))"

fun add_default_routes_loop ::
  "ipnet_lib \<Rightarrow> 'w nl_socket \<Rightarrow> 32 word option \<Rightarrow> bool \<Rightarrow> bool \<Rightarrow> ip_net list \<Rightarrow> ('w, unit) ncomp" where
  "add_default_routes_loop lib sock metric ipv4 ipv6 [] = retc ()"
| "add_default_routes_loop lib sock metric ipv4 ipv6 (NetV4 a p # gws) =
     (if ipv4 then add_default_routes_loop lib sock metric ipv4 ipv6 gws
      else seqc (add_default_route lib sock metric (NetV4 a p))
             (add_default_routes_loop lib sock metric True ipv6 gws))"
| "add_default_routes_loop lib sock metric ipv4 ipv6 (NetV6 a p # gws) =
     (if ipv6 then add_default_routes_loop lib sock metric ipv4 ipv6 gws
      else seqc (add_default_route lib sock metric (NetV6 a p))
             (add_default_routes_loop lib sock metric ipv4 True gws))"

definition add_default_routes ::
  "ipnet_lib \<Rightarrow> 'w nl_socket \<Rightarrow> ip_net list \<Rightarrow> 32 word option \<Rightarrow> ('w, unit) ncomp" where
  "add_default_routes lib sock gws metric = add_default_routes_loop lib sock metric False False gws"

section \<open>Properties\<close>

subsection \<open>Options\<close>

text \<open>What the option lookup relies on of a \<^verbatim>\<open>FromStr\<close> type: it reads back what it prints.\<close>

locale from_str =
  fixes parse :: "string \<Rightarrow> (string, 'a) res" and print :: "'a \<Rightarrow> string"
  assumes parse_print: "parse (print x) = Ok x"
    and parse_returns: "parse s \<noteq> Panic" "parse s \<noteq> Hang"
begin

lemma option_set: "parse_option parse (Some (m(name \<mapsto> print x))) name d = Ok x"
  by (simp add: parse_option_def parse_print)

lemma option_error_iff:
  "(\<exists>e. parse_option parse opts name d = Err e) \<longleftrightarrow>
     (\<exists>m val e. opts = Some m \<and> m name = Some val \<and> parse val = Err e)"
proof (cases "Option.bind opts (\<lambda>m. m name)")
  case None
  then show ?thesis by (auto simp: parse_option_def)
next
  case (Some val)
  then obtain m where "opts = Some m" "m name = Some val" by (cases opts) auto
  then show ?thesis
    using parse_returns[of val] by (cases "parse val") (auto simp: parse_option_def)
qed

end

definition print_bool :: "bool \<Rightarrow> string" where
  "print_bool b = (if b then ''true'' else ''false'')"

lemma parse_digits_returns: "parse_digits r mx a s \<noteq> Panic \<and> parse_digits r mx a s \<noteq> Hang"
  by (induction s arbitrary: a) (auto split: option.splits)

lemma parse_uint_returns: "parse_uint r mx s \<noteq> Panic \<and> parse_uint r mx s \<noteq> Hang"
  by (cases "(r, mx, s)" rule: parse_uint.cases) (use parse_digits_returns in \<open>auto split: option.splits\<close>)

lemma from_str_u32_returns: "from_str_u32 s \<noteq> Panic \<and> from_str_u32 s \<noteq> Hang"
  using parse_uint_returns[of 10 4294967295 s]
  by (cases "parse_uint 10 4294967295 s") (simp_all add: from_str_u32_def parse_u32_def)

interpretation u32_opt: from_str from_str_u32 "\<lambda>p. show_nat (unat p)"
  by unfold_locales (use from_str_u32_returns in \<open>auto simp: from_str_u32_def parse_u32_show\<close>)

interpretation bool_opt: from_str parse_bool print_bool
  by unfold_locales (auto simp: parse_bool_def print_bool_def)

interpretation string_opt: from_str from_str_string "\<lambda>s. s"
  by unfold_locales (auto simp: from_str_string_def)

subsection \<open>MAC addresses\<close>

lemma split_encoded:
  "bytes \<noteq> [] \<Longrightarrow>
     split_by (\<lambda>c. c = CHR '':'' \<or> c = CHR ''-'') (encode_address_to_hex bytes) = map hex2 bytes"
  unfolding encode_address_to_hex_def by (intro split_by_join) (auto dest: hex2_clean)

lemma decode_Ok_length: "decode_address_from_hex s = Ok bytes \<Longrightarrow> length bytes = 6"
  by (auto simp: decode_address_from_hex_def split: res.splits if_splits)

text \<open>
  A hardware address of six bytes that is printed for the user reads back as itself; printing an
  address of any other length gives a text that is refused.
\<close>

lemma mac_address_roundtrip:
  "decode_address_from_hex (encode_address_to_hex bytes) =
     (if length bytes = 6 then Ok bytes
      else if bytes = [] then Err (io_other ''unable to parse mac address : cannot parse integer from empty string'')
      else Err (io_other (''invalid mac length for address: '' @ encode_address_to_hex bytes)))"
proof (cases "bytes = []")
  case True
  then show ?thesis by (simp add: decode_address_from_hex_def encode_address_to_hex_def parse_u8_hex_def)
next
  case False
  have "mapM_res parse_u8_hex (map hex2 bytes) = Ok bytes"
    by (induction bytes) (auto simp: parse_u8_hex_hex2)
  with False show ?thesis by (simp add: decode_address_from_hex_def split_encoded)
qed

subsection \<open>Default routes\<close>

text \<open>The first element of every class, in the order of the list.\<close>

fun firsts_by :: "('a \<Rightarrow> 'b) \<Rightarrow> 'a list \<Rightarrow> 'a list" where
  "firsts_by f [] = []"
| "firsts_by f (x # xs) = x # firsts_by f (filter (\<lambda>y. f y \<noteq> f x) xs)"

lemma firsts_by_distinct: "distinct (map f (firsts_by f xs)) \<and> set (firsts_by f xs) \<subseteq> set xs"
  by (induction f xs rule: firsts_by.induct) auto

lemma add_default_routes_loop_eq:
  "add_default_routes_loop lib sock metric b4 b6 gws =
     for_each (add_default_route lib sock metric)
       (firsts_by net_is_ipv6 (filter (\<lambda>n. if net_is_ipv6 n then \<not> b6 else \<not> b4) gws))"
proof (induction lib sock metric b4 b6 gws rule: add_default_routes_loop.induct)
  case (2 lib sock metric b4 b6 a p gws)
  have "filter (\<lambda>n. if net_is_ipv6 n then \<not> b6 else False) gws =
        filter (\<lambda>y. net_is_ipv6 y \<noteq> False) (filter (\<lambda>n. if net_is_ipv6 n then \<not> b6 else True) gws)"
    by (auto intro: filter_cong)
  with 2 show ?case by (cases b4) simp_all
next
  case (3 lib sock metric b4 b6 a p gws)
  have "filter (\<lambda>n. if net_is_ipv6 n then False else \<not> b4) gws =
        filter (\<lambda>y. net_is_ipv6 y \<noteq> True) (filter (\<lambda>n. if net_is_ipv6 n then True else \<not> b4) gws)"
    by (auto intro: filter_cong)
  with 3 show ?case by (cases b6) simp_all
qed simp

text \<open>
  C29: the default routes that are requested are one per address family, through the first gateway of
  that family, in the order of the gateways.
\<close>

theorem add_default_routes_first_per_family:
  "add_default_routes lib sock gws metric =
     for_each (add_default_route lib sock metric) (firsts_by net_is_ipv6 gws)"
  by (simp add: add_default_routes_def add_default_routes_loop_eq)

subsection \<open>Address assignment\<close>

text \<open>A prefix length that fits the addresses the container and the gateway have on a subnet.\<close>

definition gateway_fits :: "subnet \<Rightarrow> bool" where
  "gateway_fits s = (case sub_gateway s of None \<Rightarrow> True
     | Some gw \<Rightarrow> unat (net_prefix_len (sub_subnet s)) \<le> max_prefix gw)"

definition prefix_fits :: "subnet \<times> ip_addr \<Rightarrow> bool" where
  "prefix_fits p \<longleftrightarrow>
     unat (net_prefix_len (sub_subnet (fst p))) \<le> max_prefix (snd p) \<and> gateway_fits (fst p)"

fun assigned :: "subnet \<times> ip_addr \<Rightarrow> ip_net" where
  "assigned (s, ip) = mk_net ip (net_prefix_len (sub_subnet s))"

definition gateways :: "subnet list \<Rightarrow> (ip_addr \<times> ip_net) list" where
  "gateways subs =
     concat (map (\<lambda>s. case sub_gateway s of None \<Rightarrow> []
       | Some gw \<Rightarrow> [(gw, mk_net gw (net_prefix_len (sub_subnet s)))]) subs)"

definition ipam_extend :: "ipam_addresses \<Rightarrow> (subnet \<times> ip_addr) list \<Rightarrow> ipam_addresses" where
  "ipam_extend acc ps =
     \<lparr>ia_container_addresses = ia_container_addresses acc @ map assigned ps,
      ia_dhcp_enabled = ia_dhcp_enabled acc,
      ia_gateway_addresses = ia_gateway_addresses acc @ map snd (gateways (map fst ps)),
      ia_ipv6_enabled = (ia_ipv6_enabled acc \<or> list_ex (\<lambda>p. net_is_ipv6 (sub_subnet (fst p))) ps),
      ia_net_addresses = ia_net_addresses acc @
        map (\<lambda>p. \<lparr>na_gateway = sub_gateway (fst p), na_ipnet = assigned p\<rparr>) ps,
      ia_nameservers = ia_nameservers acc @ map fst (gateways (map fst ps))\<rparr>"

lemma ipam_extend_Cons: "ipam_extend acc (p # ps) = ipam_extend (ipam_extend acc [p]) ps"
  by (simp add: ipam_extend_def gateways_def)

context ipnet_laws
begin

lemma ipam_subnet_fits:
  assumes "idx < length ips" and "prefix_fits (s, ips ! idx)"
  shows "ipam_subnet lib ips (idx, s) acc = Ok (ipam_extend acc [(s, ips ! idx)])"
  using assms from_str_ok[of "net_prefix_len (sub_subnet s)" "ips ! idx"]
    new_ok[of "net_prefix_len (sub_subnet s)"]
  by (auto simp: ipam_subnet_def ipam_extend_def prefix_fits_def gateway_fits_def gateways_def Let_def split: option.splits)

lemma ipam_loop_fits:
  assumes "k + length subs \<le> length ips" and "list_all prefix_fits (zip subs (drop k ips))"
  shows "fold_res (ipam_subnet lib ips) (enumerate k subs) acc =
    Ok (ipam_extend acc (zip subs (drop k ips)))"
  using assms
proof (induction subs arbitrary: k acc)
  case Nil
  then show ?case by (simp add: ipam_extend_def gateways_def)
next
  case (Cons s subs)
  then have d: "drop k ips = ips ! k # drop (Suc k) ips" by (simp add: Cons_nth_drop_Suc)
  then have z: "zip (s # subs) (drop k ips) = (s, ips ! k) # zip subs (drop (Suc k) ips)"
    by (simp only: zip_Cons_Cons)
  from Cons.prems have "k < length ips" and "Suc k + length subs \<le> length ips" by simp_all
  with Cons.prems(2) Cons.IH[of "Suc k"] ipam_subnet_fits[of k ips s acc] show ?case
    by (simp add: z ipam_extend_Cons[of acc "(s, ips ! k)" "zip subs (drop (Suc k) ips)"] del: zip_Cons_Cons)
qed

lemma ipam_loop_short:
  assumes "length ips < k + length subs" and "k \<le> length ips"
    and "list_all prefix_fits (zip subs (drop k ips))"
    and "gateway_fits (subs ! (length ips - k))"
  shows "fold_res (ipam_subnet lib ips) (enumerate k subs) acc = Panic"
  using assms
proof (induction subs arbitrary: k acc)
  case Nil
  then show ?case by simp
next
  case (Cons s subs)
  show ?case
  proof (cases "k = length ips")
    case True
    with Cons.prems(4) new_ok[of "net_prefix_len (sub_subnet s)"] have "ipam_subnet lib ips (k, s) acc = Panic"
      by (auto simp: ipam_subnet_def gateway_fits_def Let_def split: option.splits)
    then show ?thesis by simp
  next
    case False
    with Cons.prems have k: "k < length ips" by simp
    then have "drop k ips = ips ! k # drop (Suc k) ips" by (simp add: Cons_nth_drop_Suc)
    then have z: "zip (s # subs) (drop k ips) = (s, ips ! k) # zip subs (drop (Suc k) ips)"
      by (simp only: zip_Cons_Cons)
    have l: "(s # subs) ! (length ips - k) = subs ! (length ips - Suc k)" using k by (simp add: nth_Cons')
    show ?thesis
      using Cons.prems k ipam_subnet_fits[of k ips s acc] Cons.IH[of "Suc k"]
      by (simp add: z l del: zip_Cons_Cons)
  qed
qed

end

text \<open>
  C25: with host-local address management every subnet gets the static address of the same position
  with the subnet's prefix length, every gateway is recorded as a gateway and as a name server, and
  the network counts as IPv6 exactly when one of its subnets is.
\<close>

theorem ipam_host_local:
  assumes "ipnet_laws lib"
    and "Option.bind (n_ipam_options net) (\<lambda>m. m ''driver'') = None \<or>
         Option.bind (n_ipam_options net) (\<lambda>m. m ''driver'') = Some IPAM_HOSTLOCAL"
    and "pn_static_ips opts = Some ips"
    and "length (subnet_list net) \<le> length ips"
    and "list_all prefix_fits (zip (subnet_list net) ips)"
  shows "get_ipam_addresses lib opts net =
    Ok \<lparr>ia_container_addresses = map assigned (zip (subnet_list net) ips),
        ia_dhcp_enabled = False,
        ia_gateway_addresses = map snd (gateways (subnet_list net)),
        ia_ipv6_enabled = list_ex (\<lambda>s. net_is_ipv6 (sub_subnet s)) (subnet_list net),
        ia_net_addresses = map (\<lambda>(s, ip). \<lparr>na_gateway = sub_gateway s, na_ipnet = assigned (s, ip)\<rparr>)
                             (zip (subnet_list net) ips),
        ia_nameservers = map fst (gateways (subnet_list net))\<rparr>"
proof -
  have "list_ex (\<lambda>p. net_is_ipv6 (sub_subnet (fst p))) (zip xs ys) = list_ex (\<lambda>s. net_is_ipv6 (sub_subnet s)) xs"
    if "length xs \<le> length ys" for xs :: "subnet list" and ys :: "ip_addr list"
    using that by (induction xs ys rule: list_induct2') auto
  with assms(2-4) ipnet_laws.ipam_loop_fits[OF assms(1), of 0 "subnet_list net" ips] assms(5)
  show ?thesis
    by (auto simp: get_ipam_addresses_def ipam_extend_def ipam_empty_def case_prod_unfold map_fst_zip_take)
qed

definition example_subnet :: subnet where
  "example_subnet = \<lparr>sub_gateway = Some (V4 (Ipv4Addr 10 88 0 1)), sub_lease_range = None,
     sub_subnet = NetV4 (Ipv4Addr 10 88 0 0) 16\<rparr>"

definition example_network :: network where
  "example_network = \<lparr>n_dns_enabled = True, n_driver = ''bridge'', n_id = ''id'', n_internal = False,
     n_ipv6_enabled = False, n_name = ''podman'', n_network_interface = Some ''podman0'',
     n_options = None, n_ipam_options = None, n_subnets = Some [example_subnet], n_network_dns_servers = None\<rparr>"

definition example_options :: per_network_options where
  "example_options = \<lparr>pn_aliases = None, pn_interface_name = ''eth0'',
     pn_static_ips = Some [V4 (Ipv4Addr 10 88 0 2)], pn_static_mac = None\<rparr>"

lemmas example_defs = example_subnet_def example_network_def example_options_def

theorem ipam_host_local_witness:
  "get_ipam_addresses ipnet_ref example_options example_network =
    Ok \<lparr>ia_container_addresses = [NetV4 (Ipv4Addr 10 88 0 2) 16], ia_dhcp_enabled = False,
        ia_gateway_addresses = [NetV4 (Ipv4Addr 10 88 0 1) 16], ia_ipv6_enabled = False,
        ia_net_addresses = [\<lparr>na_gateway = Some (V4 (Ipv4Addr 10 88 0 1)), na_ipnet = NetV4 (Ipv4Addr 10 88 0 2) 16\<rparr>],
        ia_nameservers = [V4 (Ipv4Addr 10 88 0 1)]\<rparr>"
  using ipam_host_local[OF ipnet.ipnet_laws_axioms, of example_network example_options "[V4 (Ipv4Addr 10 88 0 2)]"]
  by (simp add: example_defs subnet_list_def prefix_fits_def gateway_fits_def gateways_def)

text \<open>
  A container with fewer static addresses than the network has subnets makes the program panic
  (the slice of addresses is indexed out of range) instead of reporting an error.
\<close>

lemma ipam_missing_address_panics:
  assumes "ipnet_laws lib"
    and "n_ipam_options net = None"
    and "pn_static_ips opts = Some ips"
    and "length ips < length (subnet_list net)"
    and "list_all prefix_fits (zip (subnet_list net) ips)"
    and "sub_gateway (subnet_list net ! length ips) = None"
  shows "get_ipam_addresses lib opts net = Panic"
  using assms ipnet_laws.ipam_loop_short[OF assms(1), of ips 0 "subnet_list net"]
  by (simp add: get_ipam_addresses_def gateway_fits_def)

lemma ipam_missing_address_panics_example:
  "get_ipam_addresses ipnet_ref (example_options\<lparr>pn_static_ips := Some []\<rparr>)
     (example_network\<lparr>n_subnets := Some [example_subnet\<lparr>sub_gateway := None\<rparr>]\<rparr>) = Panic"
  by (rule ipam_missing_address_panics[OF ipnet.ipnet_laws_axioms, of _ _ "[]"])
    (simp_all add: example_defs subnet_list_def)

subsection \<open>Namespaces\<close>

text \<open>
  What a caller of \<^verbatim>\<open>setns\<close> relies on: a successful call changes the calling thread's network
  namespace to the given one, a failed one leaves it.  \<open>cur\<close> observes it.
\<close>

locale netns_laws =
  fixes os :: "'w os" and cur :: "'w \<Rightarrow> int"
  assumes setns_ok: "os_setns os fd w = (Ok (), w') \<Longrightarrow> cur w' = fd"
    and setns_fail: "os_setns os fd w = (r, w') \<Longrightarrow> \<not> is_ok r \<Longrightarrow> cur w' = cur w"
begin

lemma exec_netns_Ok_in_host: "exec_netns os host netns exec w = (Ok x, w') \<Longrightarrow> cur w' = host"
  by (auto simp: exec_netns_def join_netns_def comp_Ok dest: setns_ok)

lemma exec_netns_runs_in_netns:
  assumes "exec_netns os host netns exec w = (Ok x, w')"
  obtains w1 w2 where "cur w1 = netns" and "exec w1 = (Ok x, w2)"
  using assms by (auto simp: exec_netns_def join_netns_def comp_Ok dest: setns_ok)

lemma exec_netns_early_return:
  assumes "os_setns os netns w = (Ok (), w1)" and "exec w1 = (Err e, w2)"
  shows "exec_netns os host netns exec w = (Err e, w2)"
  using assms by (simp add: exec_netns_def join_netns_def comp_simps)

end

text \<open>An executable operating system: namespaces, files and sysctls as maps.\<close>

record ref_world =
  rw_cur :: int
  rw_fds :: "int list"
  rw_files :: "string \<rightharpoonup> int"
  rw_sysctl :: "string \<rightharpoonup> string"
  rw_once :: "string list"

definition os_ref :: "ref_world os" where
  "os_ref =
     \<lparr>os_open = (\<lambda>path w. case rw_files w path of None \<Rightarrow> (Err (IoError NotFound ''not found''), w) | Some fd \<Rightarrow> (Ok fd, w)),
      os_setns = (\<lambda>fd w. if fd \<in> set (rw_fds w) then (Ok (), w\<lparr>rw_cur := fd\<rparr>) else (Err (io_other ''bad fd''), w)),
      os_nl = \<lparr>ns_socket = failc (io_other ''no netlink''), ns_bind = (\<lambda>_. retc ()), ns_connect = (\<lambda>_. retc ())\<rparr>,
      once_done = (\<lambda>c w. c \<in> set (rw_once w)), once_mark = (\<lambda>c w. w\<lparr>rw_once := c # rw_once w\<rparr>),
      ctl_new = (\<lambda>p w. if rw_sysctl w p = None then (Err (SysctlNotFound p), w) else (Ok (), w)),
      ctl_value_string = (\<lambda>p w. case rw_sysctl w p of None \<Rightarrow> (Err (SysctlNotFound p), w) | Some v \<Rightarrow> (Ok v, w)),
      ctl_set_value_string = (\<lambda>p v w. (Ok v, w\<lparr>rw_sysctl := (rw_sysctl w)(p \<mapsto> v)\<rparr>))\<rparr>"

interpretation ref_os: netns_laws os_ref rw_cur
  by unfold_locales (auto simp: os_ref_def split: if_splits)

end
