(* ===== verification/Aardvark.thy ===== *)
theory Aardvark
  imports Core_Utils
begin

text \<open>
  \<^verbatim>\<open>src/dns/aardvark.rs\<close>: the configuration files of the DNS server and its process.

  The file system and process calls are the record \<open>fs\<close>.  Every handle the code
  opens is either fresh, truncated or in append mode, so each write goes to the end of the file:
  \<open>fs_write\<close> appends.  What the code relies on is the locale \<open>fs_laws\<close>, with
  \<open>files\<close> the contents of the files.
\<close>

section \<open>Files and processes\<close>

datatype kill_error = ESRCH | OtherErrno string

record 'w fs =
  fs_read :: "string \<Rightarrow> ('w, io_error, string) comp"
  fs_create_new :: "string \<Rightarrow> ('w, io_error, unit) comp"
  fs_open_append :: "string \<Rightarrow> ('w, io_error, unit) comp"
  fs_create :: "string \<Rightarrow> ('w, io_error, unit) comp"
  fs_write :: "string \<Rightarrow> string \<Rightarrow> ('w, io_error, unit) comp"
  fs_remove :: "string \<Rightarrow> ('w, io_error, unit) comp"
  fs_exists :: "string \<Rightarrow> ('w, io_error, bool) comp"
  fs_metadata_ok :: "string \<Rightarrow> ('w, io_error, bool) comp"
  fs_open_lock :: "string \<Rightarrow> ('w, io_error, unit) comp"
  fs_lock :: "string \<Rightarrow> ('w, io_error, unit) comp"
  fs_unlock :: "string \<Rightarrow> ('w, io_error, unit) comp"
  ps_kill :: "int \<Rightarrow> ('w, kill_error, unit) comp"
  ps_output :: "string list \<Rightarrow> ('w, io_error, unit) comp"

text \<open>\<^verbatim>\<open>Path::join\<close>: an absolute second part replaces the first.\<close>

definition path_join :: "string \<Rightarrow> string \<Rightarrow> string" where
  "path_join a b =
     (if b \<noteq> [] \<and> hd b = CHR ''/'' then b
      else if a = [] \<or> last a = CHR ''/'' then a @ b
      else a @ ''/'' @ b)"

definition dbg_path :: "string \<Rightarrow> string" where
  "dbg_path p = [CHR 0x22] @ p @ [CHR 0x22]"

section \<open>Entries\<close>

record aardvark_entry =
  ae_network_name :: string
  ae_network_gateways :: "ip_addr list"
  ae_network_dns_servers :: "ip_addr list option"
  ae_container_id :: string
  ae_container_ips_v4 :: "ipv4_addr list"
  ae_container_ips_v6 :: "ipv6_addr list"
  ae_container_names :: "string list"
  ae_container_dns_servers :: "ip_addr list option"

record aardvark =
  aa_config :: string
  aa_rootless :: bool
  aa_aardvark_bin :: string
  aa_port :: string

definition aardvark_new :: "string \<Rightarrow> bool \<Rightarrow> string \<Rightarrow> 16 word \<Rightarrow> aardvark" where
  "aardvark_new config rootless bin port =
     \<lparr>aa_config = config, aa_rootless = rootless, aa_aardvark_bin = bin, aa_port = show_nat (unat port)\<rparr>"

definition newline :: char where "newline = CHR 0x0A"

definition servers_column :: "ip_addr list option \<Rightarrow> string" where
  "servers_column servers =
     (case servers of
        Some xs \<Rightarrow> if xs \<noteq> [] then '' '' @ join '','' (map show_ip xs) else []
      | None \<Rightarrow> [])"

definition header_line :: "aardvark_entry \<Rightarrow> string" where
  "header_line e = join '','' (map show_ip (ae_network_gateways e)) @ servers_column (ae_network_dns_servers e)"

definition entry_line :: "aardvark_entry \<Rightarrow> string" where
  "entry_line e =
     ae_container_id e @ '' '' @ join '','' (map show_ipv4 (ae_container_ips_v4 e)) @ '' '' @
     join '','' (map show_ipv6 (ae_container_ips_v6 e)) @ '' '' @ join '','' (ae_container_names e) @
     servers_column (ae_container_dns_servers e)"

section \<open>The server process\<close>

definition get_aardvark_pid :: "'w fs \<Rightarrow> aardvark \<Rightarrow> ('w, io_error, int) comp" where
  "get_aardvark_pid fs a =
     matchc (fs_read fs (path_join (aa_config a) ''aardvark.pid''))
       (\<lambda>content. case parse_i32 content of Ok val \<Rightarrow> retc val | _ \<Rightarrow> retc (- 1))
       (\<lambda>_. retc (- 1))"

fun any_in_path :: "'w fs \<Rightarrow> string \<Rightarrow> string list \<Rightarrow> ('w, io_error, bool) comp" where
  "any_in_path fs program [] = retc False"
| "any_in_path fs program (p # ps) =
     bindc (fs_metadata_ok fs (p @ ''/'' @ program)) (\<lambda>ok. if ok then retc True else any_in_path fs program ps)"

definition is_executable_in_path :: "'w fs \<Rightarrow> (string \<rightharpoonup> string) \<Rightarrow> string \<Rightarrow> ('w, io_error, bool) comp" where
  "is_executable_in_path fs env program =
     (case env ''PATH'' of
        Some path \<Rightarrow> any_in_path fs program (split_by (\<lambda>c. c = CHR '':'') path)
      | None \<Rightarrow> retc False)"

definition server_args :: "aardvark \<Rightarrow> bool \<Rightarrow> string list" where
  "server_args a use_systemd =
     (if use_systemd
      then [''systemd-run'', ''-q'', ''--scope''] @ (if aa_rootless a then [''--user''] else [])
      else [])
     @ [aa_aardvark_bin a, ''--config'', aa_config a, ''-p'', aa_port a, ''run'']"

definition start_aardvark_server :: "'w fs \<Rightarrow> (string \<rightharpoonup> string) \<Rightarrow> aardvark \<Rightarrow> ('w, io_error, unit) comp" where
  "start_aardvark_server fs env a =
     bindc (bindc (fs_exists fs ''/run/systemd/system'') (\<lambda>booted.
              if booted then is_executable_in_path fs env ''systemd-run'' else retc False))
       (\<lambda>use_systemd. ps_output fs (server_args a use_systemd))"

definition notify :: "'w fs \<Rightarrow> (string \<rightharpoonup> string) \<Rightarrow> aardvark \<Rightarrow> bool \<Rightarrow> ('w, io_error, unit) comp" where
  "notify fs env a start =
     (let not_running = (if \<not> start then failc (io_other ''aardvark pid not found'') else start_aardvark_server fs env a)
      in bindc (get_aardvark_pid fs a) (\<lambda>pid.
           if pid \<noteq> - 1
           then matchc (ps_kill fs pid) (\<lambda>_. retc ())
                  (\<lambda>err. case err of
                     ESRCH \<Rightarrow> not_running
                   | OtherErrno e \<Rightarrow> failc (io_other (''failed to send SIGHUP to aardvark: '' @ e)))
           else not_running))"

section \<open>Committing entries\<close>

definition commit_entry :: "'w fs \<Rightarrow> aardvark_entry \<Rightarrow> string \<Rightarrow> ('w, io_error, unit) comp" where
  "commit_entry fs e path = fs_write fs path (entry_line e @ [newline])"

definition open_network_file :: "'w fs \<Rightarrow> aardvark_entry \<Rightarrow> string \<Rightarrow> ('w, io_error, unit) comp" where
  "open_network_file fs e path =
     matchc (fs_create_new fs path)
       (\<lambda>_. fs_write fs path (header_line e @ [newline]))
       (\<lambda>err. if ioe_kind err = AlreadyExists then fs_open_append fs path else failc err)"

text \<open>\<open>dbg\<close> is the derived \<^verbatim>\<open>Debug\<close> text of an entry.\<close>

definition commit_one ::
  "'w fs \<Rightarrow> (aardvark_entry \<Rightarrow> string) \<Rightarrow> aardvark \<Rightarrow> string \<Rightarrow> aardvark_entry \<Rightarrow> ('w, io_error, unit) comp" where
  "commit_one fs dbg a lockfile_path e =
     (let path = path_join (aa_config a) (ae_network_name e)
      in seqc (open_network_file fs e path)
           (matchc (commit_entry fs e path) (\<lambda>_. retc ())
              (\<lambda>er. seqc (map_errc (\<lambda>u. io_other (''Failed to unlock exclusive lock on '' @ dbg_path lockfile_path @ '': '' @ ioe_msg u))
                            (fs_unlock fs lockfile_path))
                      (failc (io_other (''Failed to commit entry '' @ dbg e @ '': '' @ ioe_msg er))))))"

definition commit_entries ::
  "'w fs \<Rightarrow> (aardvark_entry \<Rightarrow> string) \<Rightarrow> aardvark \<Rightarrow> aardvark_entry list \<Rightarrow> ('w, io_error, unit) comp" where
  "commit_entries fs dbg a entries =
     (let lockfile_path = path_join (path_join (aa_config a) ''..'') ''aardvark.lock''
      in seqc (map_errc (\<lambda>e. io_other (''Failed to open/create lockfile '' @ dbg_path lockfile_path @ '': '' @ ioe_msg e))
                 (fs_open_lock fs lockfile_path))
        (seqc (map_errc (\<lambda>e. io_other (''Failed to acquire exclusive lock on '' @ dbg_path lockfile_path @ '': '' @ ioe_msg e))
                 (fs_lock fs lockfile_path))
        (seqc (for_each (commit_one fs dbg a lockfile_path) entries)
              (map_errc (\<lambda>e. io_other (''Failed to unlock exclusive lock on '' @ dbg_path lockfile_path @ '': '' @ ioe_msg e))
                 (fs_unlock fs lockfile_path)))))"

definition commit_netavark_entries ::
  "'w fs \<Rightarrow> (aardvark_entry \<Rightarrow> string) \<Rightarrow> (string \<rightharpoonup> string) \<Rightarrow> aardvark \<Rightarrow> aardvark_entry list \<Rightarrow> ('w, io_error, unit) comp" where
  "commit_netavark_entries fs dbg env a entries =
     (if entries \<noteq> [] then seqc (commit_entries fs dbg a entries) (notify fs env a True) else retc ())"

section \<open>Removing entries\<close>

definition write_lines :: "'w fs \<Rightarrow> string \<Rightarrow> string list \<Rightarrow> ('w, io_error, unit) comp" where
  "write_lines fs path xs =
     for_each (\<lambda>line. seqc (fs_write fs path line) (fs_write fs path [newline])) xs"

definition delete_entry :: "'w fs \<Rightarrow> aardvark \<Rightarrow> string \<Rightarrow> string \<Rightarrow> ('w, io_error, unit) comp" where
  "delete_entry fs a container_id network_name =
     (let path = path_join (aa_config a) network_name
      in bindc (fs_read fs path) (\<lambda>file_content.
           let kept = filter (\<lambda>line. \<not> str_contains container_id line) (split_terminator newline file_content)
           in seqc (fs_create fs path)
             (seqc (write_lines fs path kept)
                   (if length kept \<le> 1 then fs_remove fs path else retc ()))))"

definition delete_from_netavark_entries ::
  "'w fs \<Rightarrow> (string \<rightharpoonup> string) \<Rightarrow> aardvark \<Rightarrow> network_options \<Rightarrow> ('w, io_error, unit) comp" where
  "delete_from_netavark_entries fs env a opts =
     (let concerned = filter (\<lambda>(key, net). n_dns_enabled net \<and> n_driver net = DRIVER_BRIDGE) (no_network_info opts)
      in seqc (for_each (\<lambda>(key, net). delete_entry fs a (no_container_id opts) key) concerned)
              (if concerned \<noteq> [] then notify fs env a False else retc ()))"

section \<open>Changing the servers of a network\<close>

definition new_header :: "string list \<Rightarrow> string \<Rightarrow> string" where
  "new_header servers line =
     hd (split_by (\<lambda>c. c = CHR '' '') line) @ (if servers \<noteq> [] then '' '' @ join '','' servers else [])"

definition modify_network_dns_servers ::
  "'w fs \<Rightarrow> (string \<rightharpoonup> string) \<Rightarrow> aardvark \<Rightarrow> string \<Rightarrow> string list \<Rightarrow> ('w, io_error, unit) comp" where
  "modify_network_dns_servers fs env a network_name servers =
     (let path = path_join (aa_config a) network_name
      in matchc (fs_read fs path)
           (\<lambda>file_content.
              let old = split_terminator newline file_content;
                  new = (case old of [] \<Rightarrow> [] | l # ls \<Rightarrow> new_header servers l # ls)
              in seqc (fs_create fs path)
                (seqc (write_lines fs path new)
                      (if old \<noteq> [] \<and> servers \<noteq> [] then notify fs env a False else retc ())))
           (\<lambda>err. if ioe_kind err = NotFound then retc () else failc err))"

section \<open>What the code relies on of the file system\<close>

locale fs_laws =
  fixes fs :: "'w fs" and files :: "'w \<Rightarrow> string \<rightharpoonup> string"
  assumes read_reads: "reads files (fs_read fs p)"
    and read_ok: "fs_read fs p w = (Ok c, w') \<Longrightarrow> files w p = Some c"
    and read_missing: "fs_read fs p w = (Err e, w') \<Longrightarrow> ioe_kind e = NotFound \<Longrightarrow> files w p = None"
    and create_new_ok: "fs_create_new fs p w = (Ok (), w') \<Longrightarrow> files w p = None \<and> files w' = (files w)(p \<mapsto> [])"
    and create_new_err: "fs_create_new fs p w = (Err e, w') \<Longrightarrow>
        files w' = files w \<and> (ioe_kind e = AlreadyExists \<longrightarrow> files w p \<noteq> None)"
    and open_append_reads: "reads files (fs_open_append fs p)"
    and create_ok: "fs_create fs p w = (Ok (), w') \<Longrightarrow> files w' = (files w)(p \<mapsto> [])"
    and write_ok: "fs_write fs p s w = (Ok (), w') \<Longrightarrow> files w p = Some c \<Longrightarrow> files w' = (files w)(p \<mapsto> c @ s)"
    and remove_ok: "fs_remove fs p w = (Ok (), w') \<Longrightarrow> files w' = (files w)(p := None)"
    and open_lock_others: "fs_open_lock fs p w = (Ok (), w') \<Longrightarrow> q \<noteq> p \<Longrightarrow> files w' q = files w q"
    and lock_reads: "reads files (fs_lock fs p)"
    and unlock_reads: "reads files (fs_unlock fs p)"
    and kill_reads: "reads files (ps_kill fs pid)"
begin

lemma write_lines_ok:
  assumes "write_lines fs p xs w = (Ok (), w')" and "files w p = Some c"
  shows "files w' = (files w)(p \<mapsto> c @ concat (map (\<lambda>x. x @ [newline]) xs))"
  using assms
proof (induction xs arbitrary: w c)
  case Nil
  then show ?case by (auto simp: write_lines_def)
next
  case (Cons x xs)
  from Cons.prems(1) obtain w1 w2 where w1: "fs_write fs p x w = (Ok (), w1)"
    and w2: "fs_write fs p [newline] w1 = (Ok (), w2)" and rest: "write_lines fs p xs w2 = (Ok (), w')"
    by (auto simp: write_lines_def comp_Ok)
  have f1: "files w1 = (files w)(p \<mapsto> c @ x)" using write_ok[OF w1 Cons.prems(2)] .
  then have f2: "files w2 = (files w)(p \<mapsto> (c @ x) @ [newline])" using write_ok[OF w2, of "c @ x"] by simp
  with Cons.IH[OF rest, of "c @ x @ [newline]"] show ?case by (simp add: fun_eq_iff)
qed

lemma open_network_file_ok:
  assumes "open_network_file fs e p w = (Ok (), w')"
  shows "files w' = (files w)(p \<mapsto> (case files w p of None \<Rightarrow> header_line e @ [newline] | Some c \<Rightarrow> c))"
proof (cases "fs_create_new fs p w")
  case (Pair r w1)
  show ?thesis
  proof (cases r)
    case (Ok u)
    with Pair assms have cr: "fs_create_new fs p w = (Ok (), w1)"
      and wr: "fs_write fs p (header_line e @ [newline]) w1 = (Ok (), w')"
      by (simp_all add: open_network_file_def matchc_def)
    from create_new_ok[OF cr] write_ok[OF wr, of "[]"] show ?thesis by simp
  next
    case (Err er)
    with Pair assms have cr: "fs_create_new fs p w = (Err er, w1)" and k: "ioe_kind er = AlreadyExists"
      and op: "fs_open_append fs p w1 = (Ok (), w')"
      by (auto simp: open_network_file_def matchc_def failc_def split: if_splits)
    from create_new_err[OF cr] k readsD[OF open_append_reads op] show ?thesis
      by (auto simp: fun_upd_idem)
  qed (use Pair assms in \<open>auto simp: open_network_file_def matchc_def\<close>)
qed

end

text \<open>What committing an entry means for the files.\<close>

definition commit_file :: "aardvark \<Rightarrow> aardvark_entry \<Rightarrow> (string \<rightharpoonup> string) \<Rightarrow> (string \<rightharpoonup> string)" where
  "commit_file a e F =
     (let p = path_join (aa_config a) (ae_network_name e)
      in F(p \<mapsto> (case F p of None \<Rightarrow> header_line e @ [newline] | Some c \<Rightarrow> c) @ entry_line e @ [newline]))"

definition lock_path :: "aardvark \<Rightarrow> string" where
  "lock_path a = path_join (path_join (aa_config a) ''..'') ''aardvark.lock''"

lemma commit_file_agree:
  "(\<And>q. q \<noteq> l \<Longrightarrow> F q = G q) \<Longrightarrow> path_join (aa_config a) (ae_network_name e) \<noteq> l \<Longrightarrow>
     q \<noteq> l \<Longrightarrow> commit_file a e F q = commit_file a e G q"
  by (auto simp: commit_file_def Let_def)

lemma commit_files_agree:
  assumes "\<And>q. q \<noteq> l \<Longrightarrow> F q = G q" and "\<forall>e\<in>set es. path_join (aa_config a) (ae_network_name e) \<noteq> l" and "q \<noteq> l"
  shows "fold (commit_file a) es F q = fold (commit_file a) es G q"
  using assms
proof (induction es arbitrary: F G)
  case Nil
  then show ?case by simp
next
  case (Cons e es)
  have "commit_file a e F q = commit_file a e G q" if "q \<noteq> l" for q
    using Cons.prems(1,2) that by (intro commit_file_agree) auto
  with Cons.IH[of "commit_file a e F" "commit_file a e G"] Cons.prems(2,3) show ?case by simp
qed

context fs_laws
begin

lemma commit_one_ok:
  assumes "commit_one fs dbg a l e w = (Ok (), w')"
  shows "files w' = commit_file a e (files w)"
proof -
  let ?p = "path_join (aa_config a) (ae_network_name e)"
  from assms obtain w1 where op: "open_network_file fs e ?p w = (Ok (), w1)"
    and wr: "fs_write fs ?p (entry_line e @ [newline]) w1 = (Ok (), w')"
    by (auto simp: commit_one_def commit_entry_def Let_def comp_Ok)
      (auto simp: matchc_def seqc_def bindc_def failc_def retc_def map_errc_def split: prod.splits res.splits)
  from open_network_file_ok[OF op] write_ok[OF wr] show ?thesis
    by (simp add: commit_file_def Let_def)
qed

lemma commit_all_ok:
  "for_each (commit_one fs dbg a l) es w = (Ok (), w') \<Longrightarrow> files w' = fold (commit_file a) es (files w)"
  by (induction es arbitrary: w) (auto simp: comp_Ok dest!: commit_one_ok)

lemma commit_entries_ok:
  assumes "commit_entries fs dbg a es w = (Ok (), w')"
    and "\<forall>e\<in>set es. path_join (aa_config a) (ae_network_name e) \<noteq> lock_path a" and "q \<noteq> lock_path a"
  shows "files w' q = fold (commit_file a) es (files w) q"
proof -
  from assms(1) obtain w1 w2 w3 where op: "fs_open_lock fs (lock_path a) w = (Ok (), w1)"
    and lk: "fs_lock fs (lock_path a) w1 = (Ok (), w2)"
    and body: "for_each (commit_one fs dbg a (lock_path a)) es w2 = (Ok (), w3)"
    and un: "fs_unlock fs (lock_path a) w3 = (Ok (), w')"
    by (auto simp: commit_entries_def lock_path_def Let_def comp_Ok)
  have "files w' = fold (commit_file a) es (files w2)"
    using commit_all_ok[OF body] readsD[OF unlock_reads un] by simp
  moreover have "files w2 q = files w q" if "q \<noteq> lock_path a" for q
    using readsD[OF lock_reads lk] open_lock_others[OF op that] by simp
  ultimately show ?thesis using commit_files_agree[of "lock_path a" "files w2" "files w" es a q] assms(2,3) by simp
qed

lemma notify_reads: "reads files (notify fs env a False)"
  unfolding notify_def get_aardvark_pid_def Let_def
  by (intro reads_intros) (auto simp: read_reads kill_reads split: res.split kill_error.split)

lemma delete_entry_ok:
  assumes "delete_entry fs a cid net w = (Ok (), w')"
    and "files w (path_join (aa_config a) net) = Some c"
  shows "files w' = (files w)(path_join (aa_config a) net :=
    (let kept = filter (\<lambda>l. \<not> str_contains cid l) (split_terminator newline c)
     in if length kept \<le> 1 then None else Some (concat (map (\<lambda>x. x @ [newline]) kept))))"
proof -
  let ?p = "path_join (aa_config a) net"
  from assms(1) obtain c' w1 w2 w3 where rd: "fs_read fs ?p w = (Ok c', w1)" and cr: "fs_create fs ?p w1 = (Ok (), w2)"
    and wr: "write_lines fs ?p (filter (\<lambda>l. \<not> str_contains cid l) (split_terminator newline c')) w2 = (Ok (), w3)"
    and rm: "(if length (filter (\<lambda>l. \<not> str_contains cid l) (split_terminator newline c')) \<le> 1
              then fs_remove fs ?p else retc ()) w3 = (Ok (), w')"
    by (auto simp: delete_entry_def Let_def comp_Ok)
  have "c' = c" using read_ok[OF rd] assms(2) by simp
  moreover have "files w2 = (files w)(?p \<mapsto> [])" using create_ok[OF cr] readsD[OF read_reads rd] by simp
  ultimately show ?thesis
    using write_lines_ok[OF wr, of "[]"] rm
    by (auto simp: Let_def split: if_splits dest!: remove_ok)
qed

end

section \<open>An executable instance\<close>

record fs_world =
  fw_files :: "string \<rightharpoonup> string"
  fw_alive :: "int list"
  fw_spawned :: "string list list"

definition fs_ref :: "fs_world fs" where
  "fs_ref =
     \<lparr>fs_read = (\<lambda>p w. case fw_files w p of None \<Rightarrow> (Err (IoError NotFound ''not found''), w) | Some c \<Rightarrow> (Ok c, w)),
      fs_create_new = (\<lambda>p w. if fw_files w p = None then (Ok (), w\<lparr>fw_files := (fw_files w)(p \<mapsto> [])\<rparr>)
                             else (Err (IoError AlreadyExists ''exists''), w)),
      fs_open_append = (\<lambda>p w. if fw_files w p = None then (Err (IoError NotFound ''not found''), w) else (Ok (), w)),
      fs_create = (\<lambda>p w. (Ok (), w\<lparr>fw_files := (fw_files w)(p \<mapsto> [])\<rparr>)),
      fs_write = (\<lambda>p s w. case fw_files w p of None \<Rightarrow> (Err (io_other ''bad handle''), w)
                          | Some c \<Rightarrow> (Ok (), w\<lparr>fw_files := (fw_files w)(p \<mapsto> c @ s)\<rparr>)),
      fs_remove = (\<lambda>p w. (Ok (), w\<lparr>fw_files := (fw_files w)(p := None)\<rparr>)),
      fs_exists = (\<lambda>p w. (Ok (fw_files w p \<noteq> None), w)),
      fs_metadata_ok = (\<lambda>p w. (Ok (fw_files w p \<noteq> None), w)),
      fs_open_lock = (\<lambda>p w. (Ok (), w\<lparr>fw_files := (fw_files w)(p \<mapsto> [])\<rparr>)),
      fs_lock = (\<lambda>p. retc ()), fs_unlock = (\<lambda>p. retc ()),
      ps_kill = (\<lambda>pid w. if pid \<in> set (fw_alive w) then (Ok (), w) else (Err ESRCH, w)),
      ps_output = (\<lambda>args w. (Ok (), w\<lparr>fw_spawned := fw_spawned w @ [args]\<rparr>))\<rparr>"

interpretation ref_fs: fs_laws fs_ref fw_files
  by unfold_locales (auto simp: fs_ref_def reads_def retc_def split: option.splits if_splits)

section \<open>Properties\<close>

definition file_of_lines :: "string list \<Rightarrow> string" where
  "file_of_lines ls = concat (map (\<lambda>x. x @ [newline]) ls)"

lemma split_file_of_lines: "\<forall>l\<in>set ls. newline \<notin> set l \<Longrightarrow> split_terminator newline (file_of_lines ls) = ls"
  unfolding file_of_lines_def by (rule split_terminator_lines)

lemma show_ip_no_newline: "newline \<notin> set (show_ip a)"
  using show_ip_addr_chars[of a] by (auto simp: list_all_iff addr_char_def to_digit_def newline_def)

lemma join_no_newline: "newline \<notin> set sep \<Longrightarrow> \<forall>x\<in>set xs. newline \<notin> set x \<Longrightarrow> newline \<notin> set (join sep xs)"
  by (induction sep xs rule: join.induct) auto

lemma ips_no_newline: "newline \<notin> set (join '','' (map show_ip xs))"
proof (rule join_no_newline)
  show "newline \<notin> set '',''" by (simp add: newline_def)
qed (simp add: show_ip_no_newline)

lemma servers_column_no_newline: "newline \<notin> set (servers_column s)"
  using ips_no_newline by (auto simp: servers_column_def newline_def split: option.splits)

lemma header_no_newline: "newline \<notin> set (header_line e)"
  using servers_column_no_newline ips_no_newline by (auto simp: header_line_def)

text \<open>
  C26: committing entries appends one line per entry to the file of its network, in order, and a file
  that did not exist first gets the line with the network's gateways and servers; no other
  configuration file changes.
\<close>

theorem commit_entries_content:
  assumes "fs_laws fs files"
    and "commit_entries fs dbg a es w = (Ok (), w')"
    and "\<forall>e\<in>set es. path_join (aa_config a) (ae_network_name e) \<noteq> lock_path a" and "q \<noteq> lock_path a"
  shows "files w' q = fold (commit_file a) es (files w) q"
  by (rule fs_laws.commit_entries_ok[OF assms])

definition example_aardvark :: aardvark where
  "example_aardvark = \<lparr>aa_config = ''/run/dns'', aa_rootless = False, aa_aardvark_bin = ''aardvark-dns'', aa_port = ''53''\<rparr>"

definition example_entry :: aardvark_entry where
  "example_entry = \<lparr>ae_network_name = ''podman'', ae_network_gateways = [V4 (Ipv4Addr 10 88 0 1)],
     ae_network_dns_servers = None, ae_container_id = ''abc'', ae_container_ips_v4 = [Ipv4Addr 10 88 0 2],
     ae_container_ips_v6 = [], ae_container_names = [''web''], ae_container_dns_servers = None\<rparr>"

definition fs_empty :: fs_world where
  "fs_empty = \<lparr>fw_files = Map.empty, fw_alive = [], fw_spawned = []\<rparr>"

lemmas aardvark_run_defs =
  commit_entries_def commit_one_def commit_entry_def open_network_file_def delete_entry_def write_lines_def
  fs_ref_def fs_empty_def example_aardvark_def example_entry_def comp_simps path_join_def lock_path_def
  header_line_def entry_line_def servers_column_def newline_def

lemma example_commit_run:
  "\<exists>w'. commit_entries fs_ref (\<lambda>_. []) example_aardvark [example_entry] fs_empty = (Ok (), w')"
  by (simp add: aardvark_run_defs Let_def)

theorem commit_entries_content_witness:
  "\<exists>w'. commit_entries fs_ref (\<lambda>_. []) example_aardvark [example_entry] fs_empty = (Ok (), w') \<and>
     fw_files w' ''/run/dns/podman'' = Some (file_of_lines [''10.88.0.1'', ''abc 10.88.0.2  web''])"
proof -
  obtain w' where run: "commit_entries fs_ref (\<lambda>_. []) example_aardvark [example_entry] fs_empty = (Ok (), w')"
    using example_commit_run ..
  have "fw_files w' ''/run/dns/podman'' = fold (commit_file example_aardvark) [example_entry] (fw_files fs_empty) ''/run/dns/podman''"
    by (rule commit_entries_content[OF ref_fs.fs_laws_axioms run])
      (simp_all add: example_aardvark_def example_entry_def path_join_def lock_path_def)
  also have "\<dots> = Some (file_of_lines [''10.88.0.1'', ''abc 10.88.0.2  web''])"
    by (simp add: commit_file_def aardvark_run_defs Let_def file_of_lines_def show_nat.simps digit_char_def)
  finally show ?thesis using run by blast
qed

lemma entry_line_contains: "str_contains (ae_container_id e) (entry_line e)"
  unfolding str_contains_iff entry_line_def by (metis append_Nil)

text \<open>
  The entries of one container, written by \<open>commit_netavark_entries\<close> and taken out by
  \<open>delete_from_netavark_entries\<close>.  Before, a network's file is absent or lists other containers.
\<close>

definition prior_ok :: "string \<Rightarrow> string option \<Rightarrow> bool" where
  "prior_ok cid f \<longleftrightarrow> f = None \<or> (\<exists>ls. f = Some (file_of_lines ls) \<and> 2 \<le> length ls \<and>
     (\<forall>l\<in>set ls. newline \<notin> set l \<and> \<not> str_contains cid l))"

abbreviation net_file :: "aardvark \<Rightarrow> string \<Rightarrow> string" where
  "net_file a k \<equiv> path_join (aa_config a) k"

abbreviation pid_path :: "aardvark \<Rightarrow> string" where
  "pid_path a \<equiv> path_join (aa_config a) ''aardvark.pid''"

definition dns_keys :: "network_options \<Rightarrow> string list" where
  "dns_keys opts =
     map fst (filter (\<lambda>(key, net). n_dns_enabled net \<and> n_driver net = DRIVER_BRIDGE) (no_network_info opts))"

lemma commit_file_same: "F (net_file a (ae_network_name e)) = G (net_file a (ae_network_name e)) \<Longrightarrow>
    commit_file a e F (net_file a (ae_network_name e)) = commit_file a e G (net_file a (ae_network_name e))"
  by (simp add: commit_file_def Let_def)

lemma commit_file_other: "q \<noteq> net_file a (ae_network_name e) \<Longrightarrow> commit_file a e F q = F q"
  by (simp add: commit_file_def Let_def)

lemma commit_files_other: "q \<notin> net_file a ` ae_network_name ` set es \<Longrightarrow> fold (commit_file a) es F q = F q"
  by (induction es arbitrary: F) (auto simp: commit_file_other)

lemma commit_files_distinct:
  assumes "distinct (map (\<lambda>e. net_file a (ae_network_name e)) es)" and "e \<in> set es"
  shows "fold (commit_file a) es F (net_file a (ae_network_name e)) = commit_file a e F (net_file a (ae_network_name e))"
  using assms
proof (induction es arbitrary: F)
  case (Cons d es)
  show ?case
  proof (cases "d = e")
    case True
    with Cons.prems show ?thesis by (auto intro!: commit_files_other)
  next
    case False
    with Cons.prems(2) have "e \<in> set es" by simp
    moreover from this Cons.prems(1) have "net_file a (ae_network_name e) \<noteq> net_file a (ae_network_name d)"
      by (auto simp: image_iff)
    ultimately show ?thesis using Cons commit_file_same[of "commit_file a d F" a e F] commit_file_other[of "net_file a (ae_network_name e)" a d F]
      by simp
  qed
qed simp

context fs_laws
begin

lemma delete_committed:
  assumes del: "delete_entry fs a (ae_container_id e) (ae_network_name e) w = (Ok (), w')"
    and committed: "files w (net_file a (ae_network_name e)) = commit_file a e F (net_file a (ae_network_name e))"
    and clean: "newline \<notin> set (entry_line e)"
    and prior: "prior_ok (ae_container_id e) (F (net_file a (ae_network_name e)))"
  shows "files w' = (files w)(net_file a (ae_network_name e) := F (net_file a (ae_network_name e)))"
proof -
  let ?p = "net_file a (ae_network_name e)" and ?kept = "filter (\<lambda>l. \<not> str_contains (ae_container_id e) l)"
  obtain ls where ls: "files w ?p = Some (file_of_lines (ls @ [entry_line e]))" "\<forall>l\<in>set ls. newline \<notin> set l"
    and restored: "F ?p = (if length (?kept ls) \<le> 1 then None else Some (file_of_lines (?kept ls)))"
  proof (cases "F ?p")
    case None
    then show ?thesis
      by (intro that[of "[header_line e]"])
        (auto simp: committed commit_file_def file_of_lines_def header_no_newline Let_def)
  next
    case (Some c)
    with prior obtain xs where xs: "c = file_of_lines xs" "2 \<le> length xs"
      "\<forall>l\<in>set xs. newline \<notin> set l \<and> \<not> str_contains (ae_container_id e) l" by (auto simp: prior_ok_def)
    moreover from xs(3) have "?kept xs = xs" by (simp add: filter_id_conv)
    ultimately show ?thesis using Some
      by (intro that[of xs]) (auto simp: committed commit_file_def Let_def file_of_lines_def)
  qed
  have "\<forall>l\<in>set (ls @ [entry_line e]). newline \<notin> set l" using ls(2) clean by simp
  note sp = split_file_of_lines[OF this]
  from delete_entry_ok[OF del ls(1)] sp restored show ?thesis
    by (simp add: entry_line_contains Let_def file_of_lines_def)
qed

lemma delete_loop:
  assumes "for_each (delete_entry fs a cid) ks w = (Ok (), w')" and "distinct (map (net_file a) ks)"
    and "\<forall>k\<in>set ks. \<exists>e. ae_network_name e = k \<and> ae_container_id e = cid \<and> newline \<notin> set (entry_line e) \<and>
      prior_ok cid (F (net_file a k)) \<and> files w (net_file a k) = commit_file a e F (net_file a k)"
  shows "files w' q = (if q \<in> net_file a ` set ks then F q else files w q)"
  using assms
proof (induction ks arbitrary: w)
  case (Cons k ks)
  from Cons.prems(1) obtain w1 where d: "delete_entry fs a cid k w = (Ok (), w1)"
    and rest: "for_each (delete_entry fs a cid) ks w1 = (Ok (), w')" by (auto simp: comp_Ok)
  from Cons.prems(3) d have f1: "files w1 = (files w)(net_file a k := F (net_file a k))"
    by (auto dest: delete_committed)
  then have "files w1 (net_file a j) = files w (net_file a j)" if "j \<in> set ks" for j
    using that Cons.prems(2) by (auto simp: image_iff)
  then have "files w' q = (if q \<in> net_file a ` set ks then F q else files w1 q)"
    using Cons.prems(2,3) by (intro Cons.IH[OF rest]) simp_all
  with f1 show ?case by auto
qed auto

lemma delete_from_ok:
  assumes "delete_from_netavark_entries fs env a opts w = (Ok (), w')"
  obtains w1 where "for_each (delete_entry fs a (no_container_id opts)) (dns_keys opts) w = (Ok (), w1)" "files w' = files w1"
proof -
  have eq: "for_each (\<lambda>(key, net). delete_entry fs a c key) xs = for_each (delete_entry fs a c) (map fst xs)" for c xs
    by (induction xs) auto
  from assms obtain w1 where "for_each (delete_entry fs a (no_container_id opts)) (dns_keys opts) w = (Ok (), w1)"
    and "notify fs env a False w1 = (Ok (), w') \<or> w' = w1"
    by (auto simp: delete_from_netavark_entries_def Let_def eq comp_Ok dns_keys_def split: if_splits)
  then show thesis using that readsD[OF notify_reads] by metis
qed

end

text \<open>Starting the server writes no file but the one with its process id.\<close>

locale dns_process = fs_laws +
  assumes start_pid_only: "reads (\<lambda>w. (files w)(pid_path a := None)) (ps_output fs (server_args a use_systemd))"
    and exists_reads: "reads files (fs_exists fs p)"
    and metadata_reads: "reads files (fs_metadata_ok fs p)"
begin

lemma reads_but_pid: "reads files m \<Longrightarrow> reads (\<lambda>w. (files w)(p := None)) m"
  by (simp add: reads_def)

lemma in_path_reads: "reads files (any_in_path fs program ps)"
  by (induction ps) (auto intro!: reads_intros metadata_reads)

lemma start_reads: "reads (\<lambda>w. (files w)(pid_path a := None)) (start_aardvark_server fs env a)"
  unfolding start_aardvark_server_def is_executable_in_path_def
  by (intro reads_bindc start_pid_only)
    (auto intro!: reads_but_pid reads_intros exists_reads in_path_reads split: option.split)

lemma notify_start_reads: "reads (\<lambda>w. (files w)(pid_path a := None)) (notify fs env a start)"
  unfolding notify_def get_aardvark_pid_def Let_def
  by (intro reads_intros)
    (auto intro!: reads_but_pid read_reads kill_reads start_reads split: res.split kill_error.split)

lemma commit_netavark_ok:
  assumes "commit_netavark_entries fs dbg env a es w = (Ok (), w')"
    and "\<forall>e\<in>set es. net_file a (ae_network_name e) \<noteq> lock_path a" and "q \<noteq> lock_path a" "q \<noteq> pid_path a"
  shows "files w' q = fold (commit_file a) es (files w) q"
proof (cases "es = []")
  case False
  with assms(1) obtain w1 where w1: "commit_entries fs dbg a es w = (Ok (), w1)" and n: "notify fs env a True w1 = (Ok (), w')"
    by (auto simp: commit_netavark_entries_def comp_Ok)
  have "files w' q = files w1 q" using readsD[OF notify_start_reads n] assms(4) by (metis fun_upd_other)
  with commit_entries_ok[OF w1 assms(2,3)] show ?thesis by simp
qed (use assms(1) in \<open>simp add: commit_netavark_entries_def retc_def\<close>)

end

interpretation ref_dns: dns_process fs_ref fw_files
  by unfold_locales (auto simp: fs_ref_def reads_def)

text \<open>
  C7: writing the DNS entries of a container for all its networks, the server started or signalled,
  and taking them out again brings every configuration file back to what it was: the same lines
  where other containers were listed, no file where there was none.  The lock file and the
  server's process id file are not part of the configuration.
\<close>

theorem commit_delete_roundtrip:
  assumes "dns_process fs files"
    and "commit_netavark_entries fs dbg env a es w = (Ok (), w1)"
    and "delete_from_netavark_entries fs env a opts w1 = (Ok (), w2)"
    and "set (dns_keys opts) = ae_network_name ` set es" and "distinct (dns_keys opts)"
    and "distinct (map (\<lambda>e. net_file a (ae_network_name e)) es)"
    and "\<forall>e\<in>set es. ae_container_id e = no_container_id opts \<and> newline \<notin> set (entry_line e) \<and>
           net_file a (ae_network_name e) \<notin> {lock_path a, pid_path a} \<and>
           prior_ok (no_container_id opts) (files w (net_file a (ae_network_name e)))"
    and "q \<notin> {lock_path a, pid_path a}"
  shows "files w2 q = files w q"
proof -
  let ?cid = "no_container_id opts"
  from assms(1) have laws: "fs_laws fs files" by (simp add: dns_process_def)
  obtain w3 where del: "for_each (delete_entry fs a ?cid) (dns_keys opts) w1 = (Ok (), w3)" and w2: "files w2 = files w3"
    using fs_laws.delete_from_ok[OF laws assms(3)] .
  have w1: "files w1 p = fold (commit_file a) es (files w) p" if "p \<notin> {lock_path a, pid_path a}" for p
    using dns_process.commit_netavark_ok[OF assms(1,2)] assms(7) that by simp
  have "inj_on (net_file a) (ae_network_name ` set es)"
    using assms(6) by (auto simp: distinct_map inj_on_def)
  with assms(4,5) have "distinct (map (net_file a) (dns_keys opts))" by (simp add: distinct_map)
  moreover have "\<exists>e. ae_network_name e = k \<and> ae_container_id e = ?cid \<and> newline \<notin> set (entry_line e) \<and>
      prior_ok ?cid (files w (net_file a k)) \<and> files w1 (net_file a k) = commit_file a e (files w) (net_file a k)"
    if k: "k \<in> set (dns_keys opts)" for k
  proof -
    from k obtain e where e: "e \<in> set es" "ae_network_name e = k" unfolding assms(4) by blast
    with assms(7) w1 commit_files_distinct[OF assms(6) e(1)] show ?thesis by (intro exI[of _ e]) auto
  qed
  ultimately have "files w3 q = (if q \<in> net_file a ` set (dns_keys opts) then files w q else files w1 q)"
    by (intro fs_laws.delete_loop[OF laws del]) blast+
  with w1[OF assms(8)] commit_files_other[of q a es] assms(4) w2 show ?thesis by (auto split: if_splits)
qed


definition shared_entry :: aardvark_entry where
  "shared_entry = example_entry\<lparr>ae_network_name := ''shared''\<rparr>"

definition fs_running :: fs_world where
  "fs_running = \<lparr>fw_files = [''/run/dns/aardvark.pid'' \<mapsto> ''7'',
       ''/run/dns/shared'' \<mapsto> file_of_lines [''10.89.0.1'', ''db 10.89.0.5  db'']],
     fw_alive = [7], fw_spawned = []\<rparr>"

definition dns_options :: network_options where
  "dns_options = \<lparr>no_container_id = ''abc'', no_container_name = ''web'', no_networks = Map.empty,
     no_network_info = [(''shared'', example_network), (''podman'', example_network)],
     no_port_mappings = None, no_dns_servers = None\<rparr>"

lemmas example_dns_defs = dns_options_def fs_running_def shared_entry_def example_network_def dns_keys_def

lemma parse_seven: "parse_i32 ''7'' = Ok 7"
  by (simp add: parse_i32_def to_digit_def)

lemma notify_running:
  "fw_files w ''/run/dns/aardvark.pid'' = Some ''7'' \<Longrightarrow> 7 \<in> set (fw_alive w) \<Longrightarrow>
     notify fs_ref env example_aardvark start w = (Ok (), w)"
  by (simp add: notify_def get_aardvark_pid_def fs_ref_def example_aardvark_def path_join_def comp_simps Let_def parse_seven)

lemma example_commit_delete_run:
  "\<exists>w1 w2. commit_netavark_entries fs_ref (\<lambda>_. []) Map.empty example_aardvark [example_entry, shared_entry] fs_running = (Ok (), w1) \<and>
     delete_from_netavark_entries fs_ref Map.empty example_aardvark dns_options w1 = (Ok (), w2)"
  by (simp add: aardvark_run_defs Let_def show_nat.simps digit_char_def split_terminator_def example_dns_defs
      commit_netavark_entries_def delete_from_netavark_entries_def file_of_lines_def DRIVER_BRIDGE_def
      notify_running[unfolded fs_ref_def example_aardvark_def, simplified])

theorem commit_delete_roundtrip_witness:
  "\<exists>w1 w2. commit_netavark_entries fs_ref (\<lambda>_. []) Map.empty example_aardvark [example_entry, shared_entry] fs_running = (Ok (), w1) \<and>
     delete_from_netavark_entries fs_ref Map.empty example_aardvark dns_options w1 = (Ok (), w2) \<and>
     fw_files w2 ''/run/dns/shared'' = Some (file_of_lines [''10.89.0.1'', ''db 10.89.0.5  db''])"
proof -
  obtain w1 w2 where run:
    "commit_netavark_entries fs_ref (\<lambda>_. []) Map.empty example_aardvark [example_entry, shared_entry] fs_running = (Ok (), w1)"
    "delete_from_netavark_entries fs_ref Map.empty example_aardvark dns_options w1 = (Ok (), w2)"
    using example_commit_delete_run by blast
  have prior: "prior_ok ''abc'' (Some (file_of_lines [''10.89.0.1'', ''db 10.89.0.5  db'']))"
    unfolding prior_ok_def by (intro disjI2 exI[of _ "[''10.89.0.1'', ''db 10.89.0.5  db'']"]) (simp add: newline_def)
  have "fw_files w2 ''/run/dns/shared'' = fw_files fs_running ''/run/dns/shared''"
    by (rule commit_delete_roundtrip[OF ref_dns.dns_process_axioms run])
      (use prior in \<open>simp_all add: example_dns_defs example_aardvark_def example_entry_def path_join_def lock_path_def prior_ok_def[of _ None]
         entry_line_def servers_column_def newline_def show_nat.simps digit_char_def DRIVER_BRIDGE_def insert_commute\<close>)
  with run show ?thesis by (simp add: fs_running_def)
qed

lemma split_by_hd_clean: "c \<in> set (hd (split_by p s)) \<Longrightarrow> \<not> p c"
  by (induction s) (auto split: list.splits if_splits)

lemma join_clean: "c \<in> set (join sep xs) \<Longrightarrow> c \<in> set sep \<or> (\<exists>x\<in>set xs. c \<in> set x)"
  by (induction sep xs rule: join.induct) auto

text \<open>
  The columns of the new first line: the first column of the old one and, when there are servers, one more
  that lists them.
\<close>

lemma new_header_columns:
  assumes "\<forall>s\<in>set servers. CHR '' '' \<notin> set s \<and> CHR '','' \<notin> set s"
  shows "if servers = [] then split_by (\<lambda>c. c = CHR '' '') (new_header servers l) = [hd (split_by (\<lambda>c. c = CHR '' '') l)]
    else \<exists>col. split_by (\<lambda>c. c = CHR '' '') (new_header servers l) = [hd (split_by (\<lambda>c. c = CHR '' '') l), col] \<and>
      split_by (\<lambda>c. c = CHR '','') col = servers"
proof -
  let ?sp = "\<lambda>c. c = CHR '' ''" and ?col = "join '','' servers"
  let ?b = "hd (split_by ?sp l)"
  have b: "\<forall>c\<in>set ?b. \<not> ?sp c" using split_by_hd_clean by blast
  show ?thesis
  proof (cases "servers = []")
    case True
    with split_by_clean[OF b] show ?thesis by (simp add: new_header_def)
  next
    case False
    have "\<forall>c\<in>set ?col. \<not> ?sp c" using assms join_clean[of _ "'',''" servers] by fastforce
    then have "split_by ?sp (?b @ CHR '' '' # ?col) = [?b, ?col]"
      using split_by_append_sep[OF b, of "CHR '' ''" ?col] split_by_clean[of ?col ?sp] by simp
    moreover have "split_by (\<lambda>c. c = CHR '','') ?col = servers"
      using assms False by (intro split_by_join) auto
    ultimately show ?thesis using False by (simp add: new_header_def)
  qed
qed

context fs_laws
begin

lemma modify_ok:
  assumes "modify_network_dns_servers fs env a net servers w = (Ok (), w')"
    and "files w (path_join (aa_config a) net) = Some (file_of_lines (l # ls))"
    and "\<forall>x\<in>set (l # ls). newline \<notin> set x"
  shows "files w' (path_join (aa_config a) net) = Some (file_of_lines (new_header servers l # ls))"
proof -
  let ?p = "path_join (aa_config a) net" and ?new = "new_header servers l # ls"
  let ?n = "if servers \<noteq> [] then notify fs env a False else retc ()"
  obtain r w1 where rd: "fs_read fs ?p w = (r, w1)" by (cases "fs_read fs ?p w")
  show ?thesis
  proof (cases r)
    case (Ok c)
    have c: "c = file_of_lines (l # ls)" using read_ok rd Ok assms(2) by fastforce
    from assms(1) rd Ok obtain w2 w3 where cr: "fs_create fs ?p w1 = (Ok (), w2)"
      and wr: "write_lines fs ?p ?new w2 = (Ok (), w3)" and nt: "?n w3 = (Ok (), w')"
      by (auto simp: modify_network_dns_servers_def Let_def matchc_def c split_file_of_lines[OF assms(3)] comp_Ok)
    have "files w2 ?p = Some []" using create_ok[OF cr] by simp
    from write_lines_ok[OF wr this] have "files w3 ?p = Some (file_of_lines ?new)" by (simp add: file_of_lines_def)
    moreover have "reads files ?n" by (simp add: notify_reads)
    from readsD[OF this nt] have "files w' = files w3" .
    ultimately show ?thesis by simp
  next
    case (Err e)
    with rd assms(1,2) read_missing[of ?p w e w1] show ?thesis
      by (auto simp: modify_network_dns_servers_def Let_def matchc_def failc_def split: if_splits)
  qed (use assms(1) rd in \<open>auto simp: modify_network_dns_servers_def Let_def matchc_def\<close>)
qed

end

text \<open>
  C31: changing a network's servers replaces the servers in the first line of its file: afterwards that line
  consists of its old first column, the addresses the server binds to, and of one more column that lists
  exactly the new servers, in order (of nothing else when there are none).  Every container's line is kept.
  The servers contain neither spaces nor commas.
\<close>

theorem modify_servers_content:
  assumes "fs_laws fs files"
    and "modify_network_dns_servers fs env a net servers w = (Ok (), w')"
    and "files w (path_join (aa_config a) net) = Some (file_of_lines (l # ls))"
    and "\<forall>x\<in>set (l # ls). newline \<notin> set x"
    and "\<forall>s\<in>set servers. CHR '' '' \<notin> set s \<and> CHR '','' \<notin> set s"
  shows "\<exists>h. files w' (path_join (aa_config a) net) = Some (file_of_lines (h # ls)) \<and>
    (if servers = [] then split_by (\<lambda>c. c = CHR '' '') h = [hd (split_by (\<lambda>c. c = CHR '' '') l)]
     else \<exists>col. split_by (\<lambda>c. c = CHR '' '') h = [hd (split_by (\<lambda>c. c = CHR '' '') l), col] \<and>
       split_by (\<lambda>c. c = CHR '','') col = servers)"
  using fs_laws.modify_ok[OF assms(1-4)] new_header_columns[OF assms(5), of l] by blast

definition modify_start :: fs_world where
  "modify_start = fs_running\<lparr>fw_files := (fw_files fs_running)
     (''/run/dns/podman'' \<mapsto> file_of_lines [''10.88.0.1 9.9.9.9'', ''abc 10.88.0.2  web''])\<rparr>"

lemma example_modify_run:
  "\<exists>w'. modify_network_dns_servers fs_ref Map.empty example_aardvark ''podman'' [''1.1.1.1'', ''8.8.8.8''] modify_start = (Ok (), w')"
  by (simp add: aardvark_run_defs Let_def modify_network_dns_servers_def file_of_lines_def split_terminator_def
      new_header_def modify_start_def example_dns_defs notify_running[unfolded fs_ref_def example_aardvark_def, simplified])

theorem modify_servers_content_witness:
  "\<exists>w' h col. modify_network_dns_servers fs_ref Map.empty example_aardvark ''podman'' [''1.1.1.1'', ''8.8.8.8''] modify_start = (Ok (), w') \<and>
     fw_files w' ''/run/dns/podman'' = Some (file_of_lines [h, ''abc 10.88.0.2  web'']) \<and>
     split_by (\<lambda>c. c = CHR '' '') h = [''10.88.0.1'', col] \<and> split_by (\<lambda>c. c = CHR '','') col = [''1.1.1.1'', ''8.8.8.8'']"
proof -
  obtain w' where run:
    "modify_network_dns_servers fs_ref Map.empty example_aardvark ''podman'' [''1.1.1.1'', ''8.8.8.8''] modify_start = (Ok (), w')"
    using example_modify_run ..
  have "\<exists>h. fw_files w' (path_join (aa_config example_aardvark) ''podman'') = Some (file_of_lines (h # [''abc 10.88.0.2  web''])) \<and>
    (if [''1.1.1.1'', ''8.8.8.8''] = [] then split_by (\<lambda>c. c = CHR '' '') h = [hd (split_by (\<lambda>c. c = CHR '' '') ''10.88.0.1 9.9.9.9'')]
     else \<exists>col. split_by (\<lambda>c. c = CHR '' '') h = [hd (split_by (\<lambda>c. c = CHR '' '') ''10.88.0.1 9.9.9.9''), col] \<and>
       split_by (\<lambda>c. c = CHR '','') col = [''1.1.1.1'', ''8.8.8.8''])"
    by (rule modify_servers_content[OF ref_fs.fs_laws_axioms run])
      (simp_all add: example_aardvark_def path_join_def newline_def modify_start_def)
  with run show ?thesis by (auto simp: example_aardvark_def path_join_def)
qed

text \<open>
  Removing all servers of a network rewrites its file without ever signalling the server: the run
  is the same whatever sending the signal would do, so a running server keeps the old servers.
\<close>

lemma clearing_servers_not_notified:
  "modify_network_dns_servers (fs\<lparr>ps_kill := k\<rparr>) env a net [] w = modify_network_dns_servers fs env a net [] w"
  by (simp add: modify_network_dns_servers_def write_lines_def)

end
