(* ===== verification/Driver_Info.thy ===== *)
theory Driver_Info
  imports Firewall Aardvark
begin

text \<open>
  What every network driver is given: \<^verbatim>\<open>DriverInfo\<close> of \<^verbatim>\<open>src/network/driver.rs\<close>; what
  the drivers' proofs share: computations that do not switch the network namespace
  (\<open>sock_reads\<close>, \<open>sysctl_reads\<close>) and those that end in a given one
  (\<open>ends_in\<close>); and the sockets, driver information and world of the examples.
\<close>

record 'w driver_info =
  di_firewall :: "'w firewall_driver"
  di_container_id :: string
  di_container_name :: string
  di_container_dns_servers :: "ip_addr list option"
  di_netns_host :: int
  di_netns_container :: int
  di_netns_path :: string
  di_network :: network
  di_per_network_opts :: per_network_options
  di_port_mappings :: "port_mapping list option"
  di_dns_port :: "16 word"

definition show_kind :: "info_kind \<Rightarrow> string" where
  "show_kind k = (case k of KBridge \<Rightarrow> ''Bridge'' | KVeth \<Rightarrow> ''Veth'' | KMacVlan \<Rightarrow> ''MacVlan''
     | KIpVlan \<Rightarrow> ''IpVlan'' | KOther s \<Rightarrow> s)"

section \<open>Namespaces\<close>

definition sock_reads :: "('w \<Rightarrow> 's) \<Rightarrow> 'w nl_socket \<Rightarrow> bool" where
  "sock_reads obs s \<longleftrightarrow>
     (\<forall>i opts idx name net r nlas.
        reads obs (get_link s i) \<and> reads obs (create_link s opts) \<and> reads obs (set_link_name s idx name) \<and>
        reads obs (del_link s i) \<and> reads obs (add_addr s idx net) \<and> reads obs (add_route s r) \<and>
        reads obs (dump_routes s) \<and> reads obs (dump_links s nlas) \<and> reads obs (set_up s i))"

definition sysctl_reads :: "('w \<Rightarrow> 's) \<Rightarrow> 'w os \<Rightarrow> bool" where
  "sysctl_reads obs os \<longleftrightarrow>
     (\<forall>c v w. reads obs (ctl_new os c) \<and> reads obs (ctl_value_string os c) \<and>
        reads obs (ctl_set_value_string os c v) \<and> obs (once_mark os c w) = obs w)"

lemma apply_sysctl_reads: "sysctl_reads obs os \<Longrightarrow> reads obs (apply_sysctl_value os c v)"
  unfolding apply_sysctl_value_def by (intro reads_intros) (auto simp: sysctl_reads_def)

lemma autoconf_reads: "sysctl_reads obs os \<Longrightarrow> reads obs (disable_ipv6_autoconf os n)"
  unfolding disable_ipv6_autoconf_def
  by (intro reads_intros) (auto simp: apply_sysctl_reads split: sysctl_error.split)

lemma add_default_routes_reads: "sock_reads obs s \<Longrightarrow> reads obs (add_default_routes lib s gws m)"
  unfolding add_default_routes_def add_default_routes_loop_eq add_default_route_def Let_def
  by (intro reads_intros) (simp add: sock_reads_def)

text \<open>Successful parts that end in the host's namespace.\<close>

definition ends_in :: "('w \<Rightarrow> int) \<Rightarrow> int \<Rightarrow> ('w, 'e, 'a) comp \<Rightarrow> bool" where
  "ends_in cur fd m \<longleftrightarrow> (\<forall>w x w'. cur w = fd \<longrightarrow> m w = (Ok x, w') \<longrightarrow> cur w' = fd)"

lemma ends_in_reads: "reads cur m \<Longrightarrow> ends_in cur fd m"
  by (auto simp: ends_in_def dest: readsD)

lemma ends_in_bindc: "ends_in cur fd m \<Longrightarrow> (\<And>x. ends_in cur fd (f x)) \<Longrightarrow> ends_in cur fd (bindc m f)"
  unfolding ends_in_def bindc_Ok_iff by blast

lemma ends_in_seqc: "ends_in cur fd m \<Longrightarrow> ends_in cur fd n \<Longrightarrow> ends_in cur fd (seqc m n)"
  unfolding seqc_def by (intro ends_in_bindc)

lemma ends_in_if: "ends_in cur fd m \<Longrightarrow> ends_in cur fd n \<Longrightarrow> ends_in cur fd (if c then m else n)"
  by simp

context netns_laws
begin

lemma exec_ends_in: "ends_in cur host (exec_netns os host netns exec)"
  by (auto simp: ends_in_def dest: exec_netns_Ok_in_host)

end

text \<open>Sockets for examples: links exist and every change succeeds.\<close>

definition sock_ref :: "link_nla list \<Rightarrow> link_message list \<Rightarrow> 'w nl_socket" where
  "sock_ref nlas links =
     \<lparr>get_link = (\<lambda>i. retc (LinkMessage 7 0 0 nlas)), create_link = (\<lambda>_. retc ()), set_link_name = (\<lambda>_ _. retc ()),
      del_link = (\<lambda>_. retc ()), add_addr = (\<lambda>_ _. retc ()), add_route = (\<lambda>_. retc ()), dump_routes = retc [],
      dump_links = (\<lambda>_. retc links), set_up = (\<lambda>_. retc ()),
      set_link_ns = (\<lambda>_ _. retc ()), dump_addresses = retc []\<rparr>"

lemma sock_ref_reads: "sock_reads obs (sock_ref nlas links)"
  by (simp add: sock_reads_def sock_ref_def)

lemma os_ref_sysctl_reads: "sysctl_reads rw_cur os_ref"
  by (auto simp: sysctl_reads_def os_ref_def reads_def split: option.split)

definition example_info :: "'w firewall_driver \<Rightarrow> 'w driver_info" where
  "example_info fw =
     \<lparr>di_firewall = fw, di_container_id = ''abc'', di_container_name = ''web'', di_container_dns_servers = None,
      di_netns_host = 3, di_netns_container = 4, di_netns_path = ''/run/netns/x'', di_network = example_network,
      di_per_network_opts = example_options, di_port_mappings = None, di_dns_port = 53\<rparr>"

definition ref_start :: ref_world where
  "ref_start = \<lparr>rw_cur = 3, rw_fds = [3, 4], rw_files = Map.empty,
     rw_sysctl = [''net.ipv4.ip_forward'' \<mapsto> ''0''], rw_once = []\<rparr>"

end
