(* ===== verification/Bridge.thy ===== *)
theory Bridge
  imports Driver_Info
begin

text \<open>
  \<^verbatim>\<open>src/network/bridge.rs\<close>: the bridge driver.  A driver value is the pair of what it was
  given and the data \<^verbatim>\<open>validate\<close> computed.  The two netlink sockets are records of methods
  (\<open>nl_socket\<close>), the firewall is a record of methods, sysctls and namespaces are
  in \<open>os\<close>.
\<close>

definition NO_BRIDGE_NAME_ERROR :: string where
  "NO_BRIDGE_NAME_ERROR = ''no bridge interface name given''"

record bridge_data =
  bd_container_interface_name :: string
  bd_bridge_interface_name :: string
  bd_mac_address :: "8 word list option"
  bd_ipam :: ipam_addresses
  bd_mtu :: "32 word"
  bd_isolate :: bool
  bd_metric :: "32 word option"

definition get_interface_name :: "string option \<Rightarrow> string nres" where
  "get_interface_name name =
     (case name of
        None \<Rightarrow> Err (Message NO_BRIDGE_NAME_ERROR)
      | Some n \<Rightarrow> if n = [] then Err (Message NO_BRIDGE_NAME_ERROR) else Ok n)"

definition decode_static_mac :: "string option \<Rightarrow> 8 word list option nres" where
  "decode_static_mac mac =
     (case mac of
        Some m \<Rightarrow> bind_res (map_err Io (decode_address_from_hex m)) (\<lambda>b. Ok (Some b))
      | None \<Rightarrow> Ok None)"

definition bridge_validate :: "ipnet_lib \<Rightarrow> 'w driver_info \<Rightarrow> bridge_data nres" where
  "bridge_validate lib info =
     (let net = di_network info; opts = di_per_network_opts info
      in bind_res (get_interface_name (n_network_interface net)) (\<lambda>bridge_name.
         if pn_interface_name opts = [] then Err (Message NO_CONTAINER_INTERFACE_ERROR)
         else bind_res (map_err Io (get_ipam_addresses lib opts net)) (\<lambda>ipam.
         bind_res (parse_option from_str_u32 (n_options net) OPTION_MTU 0) (\<lambda>mtu.
         bind_res (parse_option parse_bool (n_options net) OPTION_ISOLATE False) (\<lambda>isolate.
         bind_res (parse_option from_str_u32 (n_options net) OPTION_METRIC 100) (\<lambda>metric.
         bind_res (decode_static_mac (pn_static_mac opts)) (\<lambda>static_mac.
         Ok \<lparr>bd_container_interface_name = pn_interface_name opts, bd_bridge_interface_name = bridge_name,
             bd_mac_address = static_mac, bd_ipam = ipam, bd_mtu = mtu, bd_isolate = isolate,
             bd_metric = Some metric\<rparr>)))))))"

section \<open>Forwarding sysctls, set once per process\<close>

definition sysctlc :: "('w, sysctl_error, 'a) comp \<Rightarrow> ('w, 'a) ncomp" where
  "sysctlc m = map_errc Sysctl m"

definition set_sysctl :: "'w os \<Rightarrow> string \<Rightarrow> string \<Rightarrow> ('w, unit) ncomp" where
  "set_sysctl os ctl val = bindc (sysctlc (apply_sysctl_value os ctl val)) (\<lambda>_. retc ())"

definition setup_forward_once :: "'w os \<Rightarrow> string \<Rightarrow> string \<Rightarrow> ('w, unit) ncomp" where
  "setup_forward_once os cell ctl w =
     (if once_done os cell w then (Ok (), w)
      else case apply_sysctl_value os ctl ''1'' w of (r, w1) \<Rightarrow>
        (case r of
           Ok _ \<Rightarrow> (Ok (), once_mark os cell w1)
         | Err e \<Rightarrow> (Err (Sysctl e), once_mark os cell w1)
         | Panic \<Rightarrow> (Panic, w1)
         | Hang \<Rightarrow> (Hang, w1)))"

definition setup_ipv4_fw_sysctl :: "'w os \<Rightarrow> ('w, unit) ncomp" where
  "setup_ipv4_fw_sysctl os = setup_forward_once os ''IPV4_FORWARD_ONCE'' ''net.ipv4.ip_forward''"

definition setup_ipv6_fw_sysctl :: "'w os \<Rightarrow> ('w, unit) ncomp" where
  "setup_ipv6_fw_sysctl os = setup_forward_once os ''IPV6_FORWARD_ONCE'' ''net.ipv6.conf.all.forwarding''"

section \<open>Links\<close>

fun first_kind :: "link_info list \<Rightarrow> info_kind option" where
  "first_kind [] = None"
| "first_kind (InfoKind k # xs) = Some k"
| "first_kind (_ # xs) = first_kind xs"

fun find_kind :: "link_nla list \<Rightarrow> info_kind option" where
  "find_kind [] = None"
| "find_kind (NlaInfo info # nlas) = (case first_kind info of Some k \<Rightarrow> Some k | None \<Rightarrow> find_kind nlas)"
| "find_kind (_ # nlas) = find_kind nlas"

definition check_link_is_bridge :: "link_message \<Rightarrow> string \<Rightarrow> link_message nres" where
  "check_link_is_bridge msg br_name =
     (case find_kind (lm_nlas msg) of
        Some kind \<Rightarrow>
          if kind = KBridge then Ok msg
          else Err (Message (''bridge interface '' @ br_name @ '' already exists but is a '' @ show_kind kind @ '' interface''))
      | None \<Rightarrow> Err (Message (''could not determine namespace link kind for bridge '' @ br_name)))"

fun last_address :: "link_nla list \<Rightarrow> string \<Rightarrow> string" where
  "last_address [] mac = mac"
| "last_address (NlaAddress a # nlas) mac = last_address nlas (encode_address_to_hex a)"
| "last_address (_ # nlas) mac = last_address nlas mac"

fun last_link :: "link_nla list \<Rightarrow> 32 word \<Rightarrow> 32 word" where
  "last_link [] l = l"
| "last_link (NlaLink l' # nlas) l = last_link nlas l'"
| "last_link (_ # nlas) l = last_link nlas l"

fun link_names :: "link_nla list \<Rightarrow> string list" where
  "link_names [] = []"
| "link_names (NlaIfName n # nlas) = n # link_names nlas"
| "link_names (_ # nlas) = link_names nlas"

definition veth_options :: "bridge_data \<Rightarrow> 32 word \<Rightarrow> int \<Rightarrow> create_link_options" where
  "veth_options data primary_index netns_fd =
     (let peer_opts = (create_link_options_new (bd_container_interface_name data) KVeth)
            \<lparr>cl_mac := unwrap_or (bd_mac_address data) [], cl_mtu := bd_mtu data, cl_netns := netns_fd\<rparr>;
          peer = parse_create_link_options link_default peer_opts
      in (create_link_options_new [] KVeth)
           \<lparr>cl_mtu := bd_mtu data, cl_primary_index := primary_index, cl_info_data := Some (DataVethPeer peer)\<rparr>)"

definition veth_error :: "string \<Rightarrow> netavark_error \<Rightarrow> netavark_error" where
  "veth_error name err =
     (case err of
        Netlink e \<Rightarrow>
          if - nl_code e = EEXIST
          then wrap (''create veth pair: interface '' @ name @ '' already exists on container namespace'') err
          else wrap ''create veth pair'' err
      | _ \<Rightarrow> wrap ''create veth pair'' err)"

definition create_veth_pair ::
  "'w os \<Rightarrow> ipnet_lib \<Rightarrow> 'w nl_socket \<Rightarrow> 'w nl_socket \<Rightarrow> bridge_data \<Rightarrow> 32 word \<Rightarrow> bool \<Rightarrow> int \<Rightarrow> int \<Rightarrow>
     ('w, string) ncomp" where
  "create_veth_pair os lib host netns data primary_index internal hostns_fd netns_fd =
     (let name = bd_container_interface_name data; v6 = ia_ipv6_enabled (bd_ipam data)
      in seqc (map_errc (veth_error name) (create_link host (veth_options data primary_index netns_fd)))
        (bindc (wrapc ''get container veth'' (get_link netns (LinkName name))) (\<lambda>veth.
         let mac = last_address (lm_nlas veth) []; host_link = last_link (lm_nlas veth) 0
         in if mac = [] then failc (Message ''failed to get the mac address from the container veth interface'')
            else
              bindc (exec_netns os hostns_fd netns_fd
                       (seqc (disable_ipv6_autoconf os name)
                       (seqc (if v6 then set_sysctl os (''/proc/sys/net/ipv6/conf/'' @ name @ ''/accept_dad'') ''0'' else retc ())
                             (retc (Ok ()))))) (\<lambda>res.
              seqc (liftc res)
             (seqc (if v6
                    then bindc (get_link host (LinkID host_link)) (\<lambda>host_veth.
                           for_each (\<lambda>n. set_sysctl os (''/proc/sys/net/ipv6/conf/'' @ n @ ''/accept_dad'') ''0'')
                             (link_names (lm_nlas host_veth)))
                    else retc ())
             (seqc (wrapc ''failed to set host veth up'' (set_up host (LinkID host_link)))
             (seqc (for_each (\<lambda>addr. wrapc ''add ip addr to container veth'' (add_addr netns (lm_index veth) addr))
                      (ia_container_addresses (bd_ipam data)))
             (seqc (wrapc ''set container veth up'' (set_up netns (LinkID (lm_index veth))))
             (seqc (if \<not> internal then add_default_routes lib netns (ia_gateway_addresses (bd_ipam data)) (bd_metric data)
                    else retc ())
                   (retc mac))))))))))"

definition create_bridge ::
  "'w os \<Rightarrow> 'w nl_socket \<Rightarrow> bridge_data \<Rightarrow> ('w, link_message) ncomp" where
  "create_bridge os host data =
     (let br = bd_bridge_interface_name data
      in seqc (wrapc ''create bridge'' (create_link host ((create_link_options_new br KBridge)\<lparr>cl_mtu := bd_mtu data\<rparr>)))
        (seqc (if ia_ipv6_enabled (bd_ipam data)
               then seqc (set_sysctl os (''/proc/sys/net/ipv6/conf/'' @ br @ ''/accept_dad'') ''0'')
                         (set_sysctl os (''net/ipv6/conf/'' @ br @ ''/accept_ra'') ''0'')
               else retc ())
        (bindc (wrapc ''get bridge interface'' (get_link host (LinkName br))) (\<lambda>link.
         seqc (for_each (\<lambda>addr. wrapc ''add ip addr to bridge'' (add_addr host (lm_index link) addr))
                 (ia_gateway_addresses (bd_ipam data)))
        (seqc (wrapc ''set bridge up'' (set_up host (LinkID (lm_index link))))
              (retc link))))))"

definition create_interfaces ::
  "'w os \<Rightarrow> ipnet_lib \<Rightarrow> 'w nl_socket \<Rightarrow> 'w nl_socket \<Rightarrow> bridge_data \<Rightarrow> bool \<Rightarrow> int \<Rightarrow> int \<Rightarrow> ('w, string) ncomp" where
  "create_interfaces os lib host netns data internal hostns_fd netns_fd =
     bindc (matchc (get_link host (LinkName (bd_bridge_interface_name data)))
              (\<lambda>bridge. liftc (check_link_is_bridge bridge (bd_bridge_interface_name data)))
              (\<lambda>err. case unwrap_error err of
                 Netlink e \<Rightarrow>
                   if - nl_code e \<noteq> ENODEV then failc (wrap ''get bridge interface'' err)
                   else create_bridge os host data
               | _ \<Rightarrow> failc err))
       (\<lambda>bridge. create_veth_pair os lib host netns data (lm_index bridge) internal hostns_fd netns_fd)"

definition remove_link ::
  "'w nl_socket \<Rightarrow> 'w nl_socket \<Rightarrow> string \<Rightarrow> string \<Rightarrow> ('w, bool) ncomp" where
  "remove_link host netns br_name container_veth_name =
     seqc (wrapc (''failed to delete container veth '' @ container_veth_name) (del_link netns (LinkName container_veth_name)))
    (bindc (wrapc ''failed to get bridge interface'' (get_link host (LinkName br_name))) (\<lambda>br.
     bindc (wrapc ''failed to get connected bridge interfaces'' (dump_links host [NlaMaster (lm_index br)])) (\<lambda>links.
       if links = []
       then seqc (wrapc (''failed to delete bridge '' @ container_veth_name) (del_link host (LinkID (lm_index br)))) (retc True)
       else retc False)))"

section \<open>Firewall\<close>

text \<open>
  The loop over the container's addresses: the address and the network of the first one of each
  family, or the error of the first network that cannot be made, in the order of the list.
\<close>

fun conf_addresses ::
  "ipnet_lib \<Rightarrow> (ip_addr \<times> ip_net) option \<Rightarrow> (ip_addr \<times> ip_net) option \<Rightarrow> ip_net list \<Rightarrow>
     ((ip_addr \<times> ip_net) option \<times> (ip_addr \<times> ip_net) option) nres" where
  "conf_addresses lib v4 v6 [] = Ok (v4, v6)"
| "conf_addresses lib v4 v6 (net # nets) =
     (if net_is_ipv6 net then
        if v6 \<noteq> None then conf_addresses lib v4 v6 nets
        else bind_res (map_err Message (ipnet_new lib (ipnet_network lib net) (net_prefix_len net))) (\<lambda>n.
               conf_addresses lib v4 (Some (net_addr net, n)) nets)
      else
        if v4 \<noteq> None then conf_addresses lib v4 v6 nets
        else bind_res (map_err Message (ipnet_new lib (ipnet_network lib net) (net_prefix_len net))) (\<lambda>n.
               conf_addresses lib (Some (net_addr net, n)) v6 nets))"

definition get_firewall_conf ::
  "ipnet_lib \<Rightarrow> (string \<Rightarrow> string) \<Rightarrow> 'w driver_info \<Rightarrow> ip_net list \<Rightarrow> ip_addr list \<Rightarrow> bool \<Rightarrow>
     (setup_network \<times> port_forward_config) nres" where
  "get_firewall_conf lib sha512 info container_addresses nameservers isolate =
     (let net = di_network info
      in bind_res (create_network_hash sha512 (n_name net) MAX_HASH_SIZE) (\<lambda>h.
         bind_res (conf_addresses lib None None container_addresses) (\<lambda>(v4, v6).
         Ok (\<lparr>sn_net = net, sn_network_hash_name = h, sn_isolation = isolate\<rparr>,
             \<lparr>pf_container_id = di_container_id info, pf_port_mappings = di_port_mappings info,
              pf_network_name = n_name net, pf_network_hash_name = h,
              pf_container_ip_v4 = map_option fst v4, pf_subnet_v4 = map_option snd v4,
              pf_container_ip_v6 = map_option fst v6, pf_subnet_v6 = map_option snd v6,
              pf_dns_port = di_dns_port info, pf_dns_server_ips = nameservers\<rparr>))))"

definition setup_firewall ::
  "'w os \<Rightarrow> ipnet_lib \<Rightarrow> (string \<Rightarrow> string) \<Rightarrow> 'w driver_info \<Rightarrow> bridge_data \<Rightarrow> ('w, unit) ncomp" where
  "setup_firewall os lib sha512 info data =
     bindc (liftc (get_firewall_conf lib sha512 info (ia_container_addresses (bd_ipam data))
                     (ia_nameservers (bd_ipam data)) (bd_isolate data))) (\<lambda>(sn, spf).
     seqc (fw_setup_network (di_firewall info) sn)
    (seqc (if pf_port_mappings spf \<noteq> None
           then set_sysctl os (''net.ipv4.conf.'' @ bd_bridge_interface_name data @ ''.route_localnet'') ''1''
           else retc ())
          (fw_setup_port_forward (di_firewall info) spf)))"

text \<open>
  What tear-down knows of the network: the validated data, or as much of the options as can be
  parsed.
\<close>

definition teardown_view ::
  "ipnet_lib \<Rightarrow> 'w driver_info \<Rightarrow> bridge_data option \<Rightarrow> (netavark_error, ip_net list \<times> ip_addr list \<times> bool) res" where
  "teardown_view lib info data =
     (case data of
        Some d \<Rightarrow> Ok (ia_container_addresses (bd_ipam d), ia_nameservers (bd_ipam d), bd_isolate d)
      | None \<Rightarrow>
          (let isolate = (case parse_option parse_bool (n_options (di_network info)) OPTION_ISOLATE False of
                            Ok i \<Rightarrow> i | _ \<Rightarrow> False)
           in case get_ipam_addresses lib (di_per_network_opts info) (di_network info) of
                Ok i \<Rightarrow> Ok (ia_container_addresses i, ia_nameservers i, isolate)
              | Err _ \<Rightarrow> Ok ([], [], isolate)
              | Panic \<Rightarrow> Panic
              | Hang \<Rightarrow> Hang))"

definition teardown_firewall ::
  "ipnet_lib \<Rightarrow> (string \<Rightarrow> string) \<Rightarrow> 'w driver_info \<Rightarrow> bridge_data option \<Rightarrow> bool \<Rightarrow> ('w, unit) ncomp" where
  "teardown_firewall lib sha512 info data complete_teardown =
     bindc (liftc (teardown_view lib info data)) (\<lambda>(addresses, nameservers, isolate).
     bindc (liftc (get_firewall_conf lib sha512 info addresses nameservers isolate)) (\<lambda>(sn, spf).
     seqc (if complete_teardown
           then fw_teardown_network (di_firewall info) \<lparr>tn_config = sn, tn_complete_teardown = complete_teardown\<rparr>
           else retc ())
          (fw_teardown_port_forward (di_firewall info) \<lparr>tpf_config = spf, tpf_complete_teardown = complete_teardown\<rparr>)))"

section \<open>The driver\<close>

fun v4_of :: "ip_net list \<Rightarrow> ipv4_addr list" where
  "v4_of [] = []"
| "v4_of (NetV4 a p # ns) = a # v4_of ns"
| "v4_of (NetV6 a p # ns) = v4_of ns"

fun v6_of :: "ip_net list \<Rightarrow> ipv6_addr list" where
  "v6_of [] = []"
| "v6_of (NetV6 a p # ns) = a # v6_of ns"
| "v6_of (NetV4 a p # ns) = v6_of ns"

definition bridge_entry :: "'w driver_info \<Rightarrow> bridge_data \<Rightarrow> aardvark_entry" where
  "bridge_entry info data =
     \<lparr>ae_network_name = n_name (di_network info),
      ae_network_gateways = map net_addr (ia_gateway_addresses (bd_ipam data)),
      ae_network_dns_servers = n_network_dns_servers (di_network info),
      ae_container_id = di_container_id info,
      ae_container_ips_v4 = v4_of (ia_container_addresses (bd_ipam data)),
      ae_container_ips_v6 = v6_of (ia_container_addresses (bd_ipam data)),
      ae_container_names = di_container_name info #
        (case pn_aliases (di_per_network_opts info) of None \<Rightarrow> [] | Some n \<Rightarrow> n),
      ae_container_dns_servers = di_container_dns_servers info\<rparr>"

definition bridge_response :: "'w driver_info \<Rightarrow> bridge_data \<Rightarrow> string \<Rightarrow> status_block \<times> aardvark_entry option" where
  "bridge_response info data mac =
     (let interfaces = [bd_container_interface_name data \<mapsto>
            \<lparr>ni_mac_address = mac, ni_subnets = Some (ia_net_addresses (bd_ipam data))\<rparr>]
      in if n_dns_enabled (di_network info)
         then (\<lparr>sb_dns_search_domains = Some [PODMAN_DEFAULT_SEARCH_DOMAIN],
                sb_dns_server_ips = Some (ia_nameservers (bd_ipam data)), sb_interfaces = Some interfaces\<rparr>,
               Some (bridge_entry info data))
         else (\<lparr>sb_dns_search_domains = Some [],
                sb_dns_server_ips = Some (case di_container_dns_servers info of None \<Rightarrow> [] | Some s \<Rightarrow> s),
                sb_interfaces = Some interfaces\<rparr>, None))"

definition bridge_setup ::
  "'w os \<Rightarrow> ipnet_lib \<Rightarrow> (string \<Rightarrow> string) \<Rightarrow> 'w driver_info \<Rightarrow> bridge_data option \<Rightarrow>
     'w nl_socket \<times> 'w nl_socket \<Rightarrow> ('w, status_block \<times> aardvark_entry option) ncomp" where
  "bridge_setup os lib sha512 info data_opt = (\<lambda>(host_sock, netns_sock).
     case data_opt of
       None \<Rightarrow> failc (Message ''must call validate() before setup()'')
     | Some data \<Rightarrow>
         (let br = bd_bridge_interface_name data; v6 = ia_ipv6_enabled (bd_ipam data)
          in seqc (setup_ipv4_fw_sysctl os)
            (seqc (if v6 then setup_ipv6_fw_sysctl os else retc ())
            (bindc (create_interfaces os lib host_sock netns_sock data (n_internal (di_network info))
                      (di_netns_host info) (di_netns_container info)) (\<lambda>mac.
               if n_internal (di_network info)
               then seqc (set_sysctl os (''/proc/sys/net/ipv4/conf/'' @ br @ ''/forwarding'') ''0'')
                   (seqc (if v6 then set_sysctl os (''/proc/sys/net/ipv6/conf/'' @ br @ ''/forwarding'') ''0'' else retc ())
                         (retc (bridge_response info data mac)))
               else seqc (setup_firewall os lib sha512 info data)
                         (retc (bridge_response info data mac)))))))"

text \<open>
  Tear-down collects the errors of its two parts; a link that could not be removed counts as a
  network that is still in use.
\<close>

definition bridge_teardown ::
  "ipnet_lib \<Rightarrow> (string \<Rightarrow> string) \<Rightarrow> 'w driver_info \<Rightarrow> bridge_data option \<Rightarrow>
     'w nl_socket \<times> 'w nl_socket \<Rightarrow> ('w, unit) ncomp" where
  "bridge_teardown lib sha512 info data = (\<lambda>(host_sock, netns_sock).
     bindc (liftc (get_interface_name (n_network_interface (di_network info)))) (\<lambda>br.
     bindc (matchc (remove_link host_sock netns_sock br (pn_interface_name (di_per_network_opts info)))
              (\<lambda>teardown. retc (teardown, []))
              (\<lambda>err. retc (False, errorlist_push [] err))) (\<lambda>(complete, errs).
       if n_internal (di_network info)
       then (if \<not> errorlist_is_empty errs then failc (ErrList errs) else retc ())
       else bindc (matchc (teardown_firewall lib sha512 info data complete)
                     (\<lambda>_. retc errs)
                     (\<lambda>err. retc (errorlist_push errs err))) (\<lambda>errs.
            if \<not> errorlist_is_empty errs then failc (ErrList errs) else retc ()))))"

section \<open>Properties\<close>

subsection \<open>Namespaces\<close>

lemma set_sysctl_reads: "sysctl_reads obs os \<Longrightarrow> reads obs (set_sysctl os c v)"
  unfolding set_sysctl_def sysctlc_def by (intro reads_intros) (auto simp: apply_sysctl_reads)

lemma forward_once_reads: "sysctl_reads obs os \<Longrightarrow> reads obs (setup_forward_once os cell ctl)"
  using apply_sysctl_reads[of obs os ctl "''1''"]
  by (auto simp: reads_def setup_forward_once_def sysctl_reads_def split: prod.split res.split) (metis snd_conv)+

lemma create_bridge_reads: "sysctl_reads obs os \<Longrightarrow> sock_reads obs host \<Longrightarrow> reads obs (create_bridge os host data)"
  unfolding create_bridge_def Let_def
  by (intro reads_intros) (auto simp: set_sysctl_reads sock_reads_def)

lemma setup_firewall_reads:
  "sysctl_reads obs os \<Longrightarrow> firewall_frame (di_firewall info) obs \<Longrightarrow> reads obs (setup_firewall os lib sha info data)"
  unfolding setup_firewall_def
  by (intro reads_intros) (auto simp: set_sysctl_reads firewall_frame_def split: prod.split intro!: reads_intros)

context netns_laws
begin

lemma veth_ends_in:
  assumes "sysctl_reads cur os" and "sock_reads cur host" and "sock_reads cur netns"
  shows "ends_in cur hostns (create_veth_pair os lib host netns data i internal hostns netnsfd)"
proof -
  note [simp] = set_sysctl_reads[OF assms(1)] add_default_routes_reads[OF assms(3)]
    assms(2,3)[unfolded sock_reads_def]
  show ?thesis
    unfolding create_veth_pair_def Let_def
    by (intro ends_in_bindc ends_in_seqc ends_in_if exec_ends_in)
      (auto intro!: ends_in_reads reads_intros)
qed

lemma create_interfaces_ends_in:
  assumes "sysctl_reads cur os" and "sock_reads cur host" and "sock_reads cur netns"
  shows "ends_in cur hostns (create_interfaces os lib host netns data internal hostns netnsfd)"
proof -
  have "reads cur (matchc (get_link host (LinkName (bd_bridge_interface_name data)))
              (\<lambda>bridge. liftc (check_link_is_bridge bridge (bd_bridge_interface_name data)))
              (\<lambda>err. case unwrap_error err of
                 Netlink e \<Rightarrow> if - nl_code e \<noteq> ENODEV then failc (wrap ''get bridge interface'' err)
                   else create_bridge os host data
               | _ \<Rightarrow> failc err))"
    using assms(2) create_bridge_reads[OF assms(1,2), of data]
    by (intro reads_intros) (auto simp: sock_reads_def split: netavark_error.split)
  then show ?thesis
    unfolding create_interfaces_def
    by (intro ends_in_bindc ends_in_reads veth_ends_in assms)
qed

lemma bridge_setup_ends_in:
  assumes "sysctl_reads cur os" and "sock_reads cur host" and "sock_reads cur netns"
    and "firewall_frame (di_firewall info) cur"
  shows "ends_in cur (di_netns_host info) (bridge_setup os lib sha info data (host, netns))"
proof (cases data)
  case None
  then show ?thesis by (simp add: bridge_setup_def ends_in_reads)
next
  case (Some d)
  note [simp] = set_sysctl_reads[OF assms(1)] forward_once_reads[OF assms(1)] setup_firewall_reads[OF assms(1,4)]
  show ?thesis
    unfolding bridge_setup_def Some Let_def prod.case option.case setup_ipv4_fw_sysctl_def setup_ipv6_fw_sysctl_def
    by (intro ends_in_bindc ends_in_seqc ends_in_if create_interfaces_ends_in assms)
      (auto intro!: ends_in_reads)
qed

end

definition host_sock_ref :: "'w nl_socket" where
  "host_sock_ref = sock_ref [NlaInfo [InfoKind KBridge]] []"

definition netns_sock_ref :: "'w nl_socket" where
  "netns_sock_ref = sock_ref [NlaAddress [1, 2, 3, 4, 5, 6], NlaLink 3] []"

definition sha_ref :: "string \<Rightarrow> string" where
  "sha_ref s = replicate 128 CHR ''A''"

definition example_data :: bridge_data where
  "example_data =
     \<lparr>bd_container_interface_name = ''eth0'', bd_bridge_interface_name = ''podman0'', bd_mac_address = None,
      bd_ipam = \<lparr>ia_container_addresses = [NetV4 (Ipv4Addr 10 88 0 2) 16], ia_dhcp_enabled = False,
        ia_gateway_addresses = [NetV4 (Ipv4Addr 10 88 0 1) 16], ia_ipv6_enabled = False,
        ia_net_addresses = [\<lparr>na_gateway = Some (V4 (Ipv4Addr 10 88 0 1)), na_ipnet = NetV4 (Ipv4Addr 10 88 0 2) 16\<rparr>],
        ia_nameservers = [V4 (Ipv4Addr 10 88 0 1)]\<rparr>,
      bd_mtu = 0, bd_isolate = False, bd_metric = Some 100\<rparr>"

lemmas bridge_run_defs =
  bridge_setup_def setup_ipv4_fw_sysctl_def setup_forward_once_def apply_sysctl_value_def create_interfaces_def
  check_link_is_bridge_def create_veth_pair_def exec_netns_def join_netns_def disable_ipv6_autoconf_def
  setup_firewall_def get_firewall_conf_def create_network_hash_def set_sysctl_def sysctlc_def
  add_default_routes_def add_default_route_def
  host_sock_ref_def netns_sock_ref_def sock_ref_def os_ref_def ref_start_def example_info_def example_data_def
  sha_ref_def fwnone_driver_def comp_simps MAX_HASH_SIZE_def new_ref_def

lemma example_bridge_setup_run:
  "\<exists>r w'. bridge_setup os_ref ipnet_ref sha_ref (example_info fwnone_driver) (Some example_data)
     (host_sock_ref, netns_sock_ref) ref_start = (Ok r, w')"
  by (simp add: bridge_run_defs Let_def example_defs encode_address_to_hex_def hex2_def)

text \<open>
  C6: a successful set-up of a bridge network leaves the process in the host's network namespace,
  for every firewall driver that does not itself switch namespaces.
\<close>

theorem bridge_setup_returns_to_host:
  assumes "netns_laws os cur" and "sysctl_reads cur os" and "sock_reads cur host" and "sock_reads cur netns"
    and "firewall_frame (di_firewall info) cur" and "cur w = di_netns_host info"
    and "bridge_setup os lib sha info data (host, netns) w = (Ok r, w')"
  shows "cur w' = di_netns_host info"
  using netns_laws.bridge_setup_ends_in[OF assms(1-5), of lib sha data] assms(6,7)
  unfolding ends_in_def by blast

theorem bridge_setup_returns_to_host_witness:
  "\<exists>r w'. bridge_setup os_ref ipnet_ref sha_ref (example_info fwnone_driver) (Some example_data)
     (host_sock_ref, netns_sock_ref) ref_start = (Ok r, w') \<and> rw_cur w' = 3"
proof -
  obtain r w' where run: "bridge_setup os_ref ipnet_ref sha_ref (example_info fwnone_driver) (Some example_data)
     (host_sock_ref, netns_sock_ref) ref_start = (Ok r, w')"
    using example_bridge_setup_run by blast
  have "rw_cur w' = di_netns_host (example_info (fwnone_driver :: ref_world firewall_driver))"
    by (rule bridge_setup_returns_to_host[OF ref_os.netns_laws_axioms os_ref_sysctl_reads _ _ _ _ run])
      (simp_all add: host_sock_ref_def netns_sock_ref_def sock_ref_reads example_info_def ref_start_def
        fwnone.firewall_frame_axioms)
  with run show ?thesis by (simp add: example_info_def)
qed

text \<open>
  C39: when turning off address autoconfiguration inside the container fails, the function returns
  from within the namespace switch: the error comes back while the process still is in the
  container's namespace.
\<close>

theorem veth_error_stays_in_netns:
  assumes "netns_laws os cur" and "sysctl_reads cur os"
    and "create_link host (veth_options data i netnsfd) w = (Ok (), w1)"
    and "get_link netns (LinkName (bd_container_interface_name data)) w1 = (Ok veth, w2)"
    and "last_address (lm_nlas veth) [] \<noteq> []"
    and "os_setns os netnsfd w2 = (Ok (), w3)"
    and "disable_ipv6_autoconf os (bd_container_interface_name data) w3 = (Err e, w4)"
  shows "\<exists>w'. create_veth_pair os lib host netns data i internal hostns netnsfd w = (Err e, w') \<and> cur w' = netnsfd"
proof -
  have "cur w3 = netnsfd" using netns_laws.setns_ok[OF assms(1,6)] .
  then have "cur w4 = netnsfd" using readsD[OF autoconf_reads[OF assms(2)] assms(7)] by simp
  moreover have "create_veth_pair os lib host netns data i internal hostns netnsfd w = (Err e, w4)"
    using assms(3-7)
    by (simp add: create_veth_pair_def Let_def exec_netns_def join_netns_def comp_simps)
  ultimately show ?thesis by blast
qed

definition os_denied :: "ref_world os" where
  "os_denied = os_ref\<lparr>ctl_new := (\<lambda>_. failc (SysctlOther ''permission denied''))\<rparr>"

theorem veth_error_stays_in_netns_witness:
  "\<exists>w'. create_veth_pair os_denied ipnet_ref host_sock_ref netns_sock_ref example_data 7 False 3 4 ref_start =
     (Err (Chain ''failed to set autoconf sysctl'' (Sysctl (SysctlOther ''permission denied''))), w') \<and> rw_cur w' = 4"
proof (rule veth_error_stays_in_netns[where veth = "LinkMessage 7 0 0 [NlaAddress [1, 2, 3, 4, 5, 6], NlaLink 3]"])
  show "netns_laws os_denied rw_cur"
    by unfold_locales (auto simp: os_denied_def os_ref_def split: if_splits)
  show "sysctl_reads rw_cur os_denied"
    using os_ref_sysctl_reads by (auto simp: sysctl_reads_def os_denied_def)
  show "os_setns os_denied 4 ref_start = (Ok (), ref_start\<lparr>rw_cur := 4\<rparr>)"
    by (simp add: os_denied_def os_ref_def ref_start_def)
  show "disable_ipv6_autoconf os_denied (bd_container_interface_name example_data) (ref_start\<lparr>rw_cur := 4\<rparr>) =
      (Err (Chain ''failed to set autoconf sysctl'' (Sysctl (SysctlOther ''permission denied''))), ref_start\<lparr>rw_cur := 4\<rparr>)"
    by (simp add: disable_ipv6_autoconf_def apply_sysctl_value_def os_denied_def comp_simps wrap_def)
qed (simp_all add: host_sock_ref_def netns_sock_ref_def sock_ref_def encode_address_to_hex_def hex2_def)

subsection \<open>Firewall rules\<close>

lemma bridge_response_fw: "bridge_response (info\<lparr>di_firewall := fw\<rparr>) d mac = bridge_response info d mac"
  by (cases "n_dns_enabled (di_network info)") (simp_all add: bridge_response_def bridge_entry_def Let_def)

text \<open>
  An internal network gets no firewall rules: neither setting it up nor tearing it down depends
  on the firewall driver.
\<close>

lemma internal_network_no_firewall:
  assumes "n_internal (di_network info)"
  shows "bridge_setup os lib sha (info\<lparr>di_firewall := fw\<rparr>) data socks w = bridge_setup os lib sha info data socks w \<and>
    bridge_teardown lib sha (info\<lparr>di_firewall := fw\<rparr>) data socks w = bridge_teardown lib sha info data socks w"
proof
  show "bridge_setup os lib sha (info\<lparr>di_firewall := fw\<rparr>) data socks w = bridge_setup os lib sha info data socks w"
    using assms by (cases data) (simp_all add: bridge_setup_def bridge_response_fw case_prod_unfold)
  show "bridge_teardown lib sha (info\<lparr>di_firewall := fw\<rparr>) data socks w = bridge_teardown lib sha info data socks w"
    using assms by (simp add: bridge_teardown_def case_prod_unfold)
qed

definition panicking_driver :: "'w firewall_driver" where
  "panicking_driver =
     \<lparr>fw_setup_network = (\<lambda>_. liftc Panic), fw_teardown_network = (\<lambda>_. liftc Panic),
      fw_setup_port_forward = (\<lambda>_. liftc Panic), fw_teardown_port_forward = (\<lambda>_. liftc Panic)\<rparr>"

definition internal_info :: "ref_world driver_info" where
  "internal_info = (example_info fwnone_driver)\<lparr>di_network := example_network\<lparr>n_internal := True\<rparr>\<rparr>"

lemma internal_network_no_firewall_example:
  "bridge_teardown ipnet_ref sha_ref (internal_info\<lparr>di_firewall := panicking_driver\<rparr>) None
     (host_sock_ref, netns_sock_ref) ref_start = (Ok (), ref_start)"
proof -
  have "n_internal (di_network internal_info)" by (simp add: internal_info_def)
  from internal_network_no_firewall[OF this, of os_ref ipnet_ref sha_ref panicking_driver None
      "(host_sock_ref, netns_sock_ref)" ref_start]
  have "bridge_teardown ipnet_ref sha_ref (internal_info\<lparr>di_firewall := panicking_driver\<rparr>) None
      (host_sock_ref, netns_sock_ref) ref_start =
    bridge_teardown ipnet_ref sha_ref internal_info None (host_sock_ref, netns_sock_ref) ref_start" ..
  also have "\<dots> = (Ok (), ref_start)"
    by (simp add: bridge_teardown_def internal_info_def example_info_def example_network_def get_interface_name_def
        remove_link_def host_sock_ref_def netns_sock_ref_def sock_ref_def comp_simps errorlist_is_empty_def)
  finally show ?thesis .
qed

text \<open>
  C27: as long as another interface is attached to the bridge, tearing a container down neither removes
  the bridge nor the network's firewall rules: only the container's port forwarding is torn down,
  marked as not complete.
\<close>

theorem teardown_keeps_shared_bridge:
  assumes "n_network_interface (di_network info) = Some br" and "br \<noteq> []"
    and "\<not> n_internal (di_network info)"
    and "del_link netns (LinkName (pn_interface_name (di_per_network_opts info))) w = (Ok (), w1)"
    and "get_link host (LinkName br) w1 = (Ok link, w2)"
    and "dump_links host [NlaMaster (lm_index link)] w2 = (Ok (l # ls), w3)"
    and "teardown_view lib info data = Ok (addresses, nameservers, isolate)"
    and "get_firewall_conf lib sha info addresses nameservers isolate = Ok (sn, spf)"
    and "fw_teardown_port_forward (di_firewall info) \<lparr>tpf_config = spf, tpf_complete_teardown = False\<rparr> w3 = (r, w4)"
    and "is_ok r"
  shows "bridge_teardown lib sha info data (host, netns) w = (Ok (), w4)"
proof -
  obtain u where "r = Ok u" using assms(10) by (cases r) auto
  with assms show ?thesis
    by (simp add: bridge_teardown_def get_interface_name_def remove_link_def teardown_firewall_def comp_simps
        errorlist_is_empty_def)
qed

theorem teardown_keeps_shared_bridge_witness:
  "bridge_teardown ipnet_ref sha_ref (example_info fwnone_driver) (Some example_data)
     (sock_ref [] [LinkMessage 9 0 0 []], netns_sock_ref) ref_start = (Ok (), ref_start)"
proof -
  let ?info = "example_info (fwnone_driver :: ref_world firewall_driver)"
  obtain sn spf where conf: "get_firewall_conf ipnet_ref sha_ref ?info
      [NetV4 (Ipv4Addr 10 88 0 2) 16] [V4 (Ipv4Addr 10 88 0 1)] False = Ok (sn, spf)"
    by (simp add: get_firewall_conf_def create_network_hash_def sha_ref_def MAX_HASH_SIZE_def
        new_ref_def Let_def)
  have view: "teardown_view ipnet_ref ?info (Some example_data) =
      Ok ([NetV4 (Ipv4Addr 10 88 0 2) 16], [V4 (Ipv4Addr 10 88 0 1)], False)"
    by (simp add: teardown_view_def example_data_def)
  show ?thesis
    by (rule teardown_keeps_shared_bridge[OF _ _ _ _ _ _ view conf, where br = "''podman0''"
          and link = "LinkMessage 7 0 0 []" and l = "LinkMessage 9 0 0 []" and ls = "[]" and r = "Ok ()"])
      (simp_all add: example_info_def example_network_def netns_sock_ref_def sock_ref_def retc_def fwnone_driver_def)
qed

text \<open>
  C28: what tear-down of a network that is not internal does about errors.  It goes on to the firewall
  when the link cannot be removed; the rules of the network are torn down when the bridge was removed and
  only then; the container's port forwarding is torn down unless tearing the network's rules down failed.
  The errors of the link and of the firewall are reported together in one list, and tear-down succeeds
  exactly when that list is empty.
\<close>

theorem teardown_collects_errors:
  assumes "n_network_interface (di_network info) = Some br" and "br \<noteq> []"
    and "\<not> n_internal (di_network info)"
    and "teardown_view lib info data = Ok (addresses, nameservers, isolate)"
    and "get_firewall_conf lib sha info addresses nameservers isolate = Ok (sn, spf)"
    and "remove_link host netns br (pn_interface_name (di_per_network_opts info)) w = (r1, w1)"
    and "(if r1 = Ok True then fw_teardown_network (di_firewall info) \<lparr>tn_config = sn, tn_complete_teardown = True\<rparr> w1
          else (Ok (), w1)) = (r2, w2)"
    and "(if r2 = Ok () then fw_teardown_port_forward (di_firewall info)
            \<lparr>tpf_config = spf, tpf_complete_teardown = (r1 = Ok True)\<rparr> w2
          else (r2, w2)) = (r3, w3)"
    and "r1 \<notin> {Panic, Hang}" and "r3 \<notin> {Panic, Hang}"
  shows "bridge_teardown lib sha info data (host, netns) w =
    (let es = error_items r1 @ error_items r3 in if es = [] then Ok () else Err (ErrList es), w3)"
proof -
  have fw: "teardown_firewall lib sha info data (r1 = Ok True) w1 = (r3, w3)"
    using assms(4,5,7,8) by (cases r2) (auto simp: teardown_firewall_def comp_simps split: if_splits)
  show ?thesis
    using assms(1-3,6,9,10) fw
    by (cases r1; cases r3)
      (auto simp: bridge_teardown_def get_interface_name_def comp_simps errorlist_is_empty_def push_members Let_def)
qed

definition gone_sock :: "'w nl_socket" where
  "gone_sock = (sock_ref [] [])\<lparr>del_link := (\<lambda>_. failc (Netlink (NlError (- 19) ''No such device'')))\<rparr>"

definition failing_driver :: "'w firewall_driver" where
  "failing_driver = fwnone_driver\<lparr>fw_teardown_port_forward := (\<lambda>_. failc (Message ''iptables failed''))\<rparr>"

theorem teardown_collects_errors_witness:
  "bridge_teardown ipnet_ref sha_ref (example_info failing_driver) (Some example_data)
     (host_sock_ref, gone_sock) ref_start =
   (Err (ErrList [Chain ''failed to delete container veth eth0'' (Netlink (NlError (- 19) ''No such device'')),
                  Message ''iptables failed'']), ref_start)"
proof -
  let ?info = "example_info (failing_driver :: ref_world firewall_driver)"
  let ?e = "Chain ''failed to delete container veth eth0'' (Netlink (NlError (- 19) ''No such device''))"
  obtain sn spf where conf: "get_firewall_conf ipnet_ref sha_ref ?info
      [NetV4 (Ipv4Addr 10 88 0 2) 16] [V4 (Ipv4Addr 10 88 0 1)] False = Ok (sn, spf)"
    by (simp add: get_firewall_conf_def create_network_hash_def sha_ref_def MAX_HASH_SIZE_def new_ref_def Let_def)
  have view: "teardown_view ipnet_ref ?info (Some example_data) =
      Ok ([NetV4 (Ipv4Addr 10 88 0 2) 16], [V4 (Ipv4Addr 10 88 0 1)], False)"
    by (simp add: teardown_view_def example_data_def)
  have link: "remove_link host_sock_ref gone_sock ''podman0'' (pn_interface_name (di_per_network_opts ?info)) ref_start =
      (Err ?e, ref_start)"
    by (simp add: example_info_def example_options_def gone_sock_def sock_ref_def remove_link_def comp_simps wrap_def)
  have "bridge_teardown ipnet_ref sha_ref ?info (Some example_data) (host_sock_ref, gone_sock) ref_start =
    (let es = error_items (Err ?e :: bool nres) @ error_items (Err (Message ''iptables failed'') :: unit nres)
     in if es = [] then Ok () else Err (ErrList es), ref_start)"
    by (rule teardown_collects_errors[OF _ _ _ view conf link, where ?r2.0 = "Ok ()" and ?w2.0 = ref_start])
      (simp_all add: example_info_def example_network_def failing_driver_def failc_def)
  then show ?thesis by (simp add: members_def)
qed

text \<open>
  With a digest of 128 characters every chain that belongs to a network has a name of at most 28
  characters, the longest iptables accepts, whatever the network is called.
\<close>

lemma chain_names_short:
  assumes "length (sha (n_name (di_network info))) = 128"
    and "get_firewall_conf lib sha info addresses nameservers isolate = Ok (sn, spf)"
  shows "(\<forall>c\<in>set (concat (network_chains lib' sn)). length (vc_chain_name c) \<le> 28) \<and>
    (\<forall>cs conn ip s v6. get_port_forwarding_chains lib' conn spf ip s v6 = Ok cs \<longrightarrow>
       (\<forall>c\<in>set cs. length (vc_chain_name c) \<le> 28))"
proof -
  have h: "length (sn_network_hash_name sn) = 13 \<and> length (pf_network_hash_name spf) = 13"
    using assms by (auto simp: get_firewall_conf_def create_network_hash_def MAX_HASH_SIZE_def Let_def)
  then show ?thesis
    by (auto simp: network_chains_def subnet_chains_def get_network_chains_def get_port_forwarding_chains_def
        build_rule_def vark_chain_new_def Let_def split: option.splits if_splits)
qed

lemma chain_names_short_example:
  "\<exists>sn spf. get_firewall_conf ipnet_ref sha_ref (example_info (fwnone_driver :: ref_world firewall_driver)) [] [] False = Ok (sn, spf) \<and>
     (\<forall>c\<in>set (concat (network_chains ipnet_ref sn)). length (vc_chain_name c) \<le> 28)"
proof -
  obtain sn spf where conf:
    "get_firewall_conf ipnet_ref sha_ref (example_info (fwnone_driver :: ref_world firewall_driver)) [] [] False = Ok (sn, spf)"
    by (simp add: get_firewall_conf_def create_network_hash_def sha_ref_def MAX_HASH_SIZE_def Let_def)
  from chain_names_short[OF _ conf, of ipnet_ref] conf show ?thesis by (auto simp: sha_ref_def)
qed

end
