(* ===== verification/Dhcp_Lib.thy ===== *)
theory Dhcp_Lib
  imports Net_Types Errors
begin

text \<open>
  \<^verbatim>\<open>src/dhcp_proxy/lib.rs\<close> and \<^verbatim>\<open>src/dhcp_proxy/types.rs\<close>: the messages between
  netavark and the DHCP proxy, the conversions between a lease of the DHCP library and a lease of
  the protocol, the errors of the proxy and the client side of the connection.

  A \<^verbatim>\<open>ProxyError\<close> is its message.  \<open>dhcp_v4_lease\<close> has the fields of the
  library's lease that the program reads or sets, and \<open>ml_srv_mac\<close>, the private field the
  source comments on; \<^verbatim>\<open>DhcpV4Lease::default()\<close> is the parameter \<open>dflt\<close>.
  The connection is the record \<open>grpc\<close>.
\<close>

section \<open>Messages\<close>

record network_config =
  nc_host_iface :: string
  nc_container_iface :: string
  nc_container_mac_addr :: string
  nc_domain_name :: string
  nc_host_name :: string
  nc_version :: int
  nc_ns_path :: string

record lease =
  l_t1 :: "32 word"
  l_t2 :: "32 word"
  l_lease_time :: "32 word"
  l_mtu :: "32 word"
  l_domain_name :: string
  l_mac_address :: string
  l_is_v6 :: bool
  l_siaddr :: string
  l_yiaddr :: string
  l_srv_id :: string
  l_subnet_mask :: string
  l_broadcast_addr :: string
  l_dns_servers :: "string list"
  l_gateways :: "string list"
  l_ntp_servers :: "string list"
  l_host_name :: string

record dhcp_v4_lease =
  ml_siaddr :: ipv4_addr
  ml_yiaddr :: ipv4_addr
  ml_t1 :: "32 word"
  ml_t2 :: "32 word"
  ml_lease_time :: "32 word"
  ml_srv_id :: ipv4_addr
  ml_subnet_mask :: ipv4_addr
  ml_broadcast_addr :: "ipv4_addr option"
  ml_dns_srvs :: "ipv4_addr list option"
  ml_gateways :: "ipv4_addr list option"
  ml_ntp_srvs :: "ipv4_addr list option"
  ml_mtu :: "16 word option"
  ml_host_name :: "string option"
  ml_domain_name :: "string option"
  ml_srv_mac :: "8 word list"

type_synonym 'a pres = "(string, 'a) res"
type_synonym ('w, 'a) pcomp = "('w, string, 'a) comp"

text \<open>\<^verbatim>\<open>FromStr for NetworkConfig\<close> ignores the text it is given.\<close>

definition network_config_from_str :: "string \<Rightarrow> (parse_int_error, network_config) res" where
  "network_config_from_str s =
     Ok \<lparr>nc_host_iface = [], nc_container_iface = [], nc_container_mac_addr = [],
         nc_domain_name = [], nc_host_name = [], nc_version = 0, nc_ns_path = []\<rparr>"

definition add_mac_address :: "string \<Rightarrow> lease \<Rightarrow> lease" where
  "add_mac_address mac_addr l = l\<lparr>l_mac_address := mac_addr\<rparr>"

definition add_domain_name :: "string \<Rightarrow> lease \<Rightarrow> lease" where
  "add_domain_name domain_name l = l\<lparr>l_domain_name := domain_name\<rparr>"

section \<open>Conversions\<close>

definition handle_ip_vectors :: "ipv4_addr list option \<Rightarrow> string list" where
  "handle_ip_vectors ip = (case ip of None \<Rightarrow> [] | Some j \<Rightarrow> map show_ipv4 j)"

definition to_v4_addrs :: "string list \<Rightarrow> ipv4_addr list option pres" where
  "to_v4_addrs xs =
     (if xs = [] then Ok None else bind_res (mapM_res parse_ipv4 xs) (\<lambda>ys. Ok (Some ys)))"

definition to_v6_addrs :: "string list \<Rightarrow> ipv6_addr list option pres" where
  "to_v6_addrs xs =
     (if xs = [] then Ok None else bind_res (mapM_res parse_ipv6 xs) (\<lambda>ys. Ok (Some ys)))"

definition nv_ipv4_addr :: "ipv4_addr \<Rightarrow> 8 word list" where
  "nv_ipv4_addr ip = octets4 ip"

definition nv_ipv4_addr_opt :: "ipv4_addr option \<Rightarrow> 8 word list" where
  "nv_ipv4_addr_opt ip = (case ip of Some addr \<Rightarrow> octets4 addr | None \<Rightarrow> [0, 0, 0, 0])"

definition lease_from_mozim :: "dhcp_v4_lease \<Rightarrow> lease" where
  "lease_from_mozim l =
     \<lparr>l_t1 = ml_t1 l, l_t2 = ml_t2 l, l_lease_time = ml_lease_time l,
      l_mtu = (case ml_mtu l of None \<Rightarrow> 0 | Some m \<Rightarrow> ucast m),
      l_domain_name = (case ml_domain_name l of None \<Rightarrow> [] | Some d \<Rightarrow> d),
      l_mac_address = [], l_is_v6 = False,
      l_siaddr = show_ipv4 (ml_siaddr l), l_yiaddr = show_ipv4 (ml_yiaddr l),
      l_srv_id = show_ipv4 (ml_srv_id l), l_subnet_mask = show_ipv4 (ml_subnet_mask l),
      l_broadcast_addr = [],
      l_dns_servers = handle_ip_vectors (ml_dns_srvs l),
      l_gateways = handle_ip_vectors (ml_gateways l),
      l_ntp_servers = handle_ip_vectors (ml_ntp_srvs l),
      l_host_name = (case ml_host_name l of None \<Rightarrow> [] | Some h \<Rightarrow> h)\<rparr>"

definition opt_text :: "string \<Rightarrow> string option" where
  "opt_text s = (if s = [] then None else Some s)"

text \<open>\<^verbatim>\<open>u16::try_from\<close> on a \<^verbatim>\<open>u32\<close>.\<close>

definition u16_try_from :: "32 word \<Rightarrow> 16 word pres" where
  "u16_try_from m =
     (if unat m \<le> 65535 then Ok (ucast m) else Err ''out of range integral type conversion attempted'')"

definition mozim_try_from :: "dhcp_v4_lease \<Rightarrow> lease \<Rightarrow> dhcp_v4_lease pres" where
  "mozim_try_from dflt l =
     bind_res (if l_broadcast_addr l = [] then Ok None
               else bind_res (parse_ipv4 (l_broadcast_addr l)) (\<lambda>a. Ok (Some a))) (\<lambda>broadcast_addr.
     bind_res (u16_try_from (l_mtu l)) (\<lambda>mtu.
     bind_res (parse_ipv4 (l_siaddr l)) (\<lambda>siaddr.
     bind_res (parse_ipv4 (l_yiaddr l)) (\<lambda>yiaddr.
     bind_res (parse_ipv4 (l_srv_id l)) (\<lambda>srv_id.
     bind_res (parse_ipv4 (l_subnet_mask l)) (\<lambda>subnet_mask.
     bind_res (to_v4_addrs (l_dns_servers l)) (\<lambda>dns_srvs.
     bind_res (to_v4_addrs (l_gateways l)) (\<lambda>gateways.
     bind_res (to_v4_addrs (l_ntp_servers l)) (\<lambda>ntp_srvs.
       Ok (dflt\<lparr>ml_siaddr := siaddr, ml_yiaddr := yiaddr, ml_t1 := l_t1 l, ml_t2 := l_t2 l,
                ml_lease_time := l_lease_time l, ml_srv_id := srv_id, ml_subnet_mask := subnet_mask,
                ml_broadcast_addr := broadcast_addr, ml_dns_srvs := dns_srvs, ml_gateways := gateways,
                ml_ntp_srvs := ntp_srvs, ml_mtu := Some mtu, ml_host_name := opt_text (l_host_name l),
                ml_domain_name := opt_text (l_domain_name l)\<rparr>))))))))))"

section \<open>Errors of the proxy\<close>

definition proxy_status :: "string \<Rightarrow> status" where
  "proxy_status pe = Status CodeUnknown pe"

definition proxy_error_of :: "(status \<Rightarrow> string) \<Rightarrow> netavark_error \<Rightarrow> string" where
  "proxy_error_of sh cause = display sh cause"

section \<open>The client side\<close>

text \<open>
  A transport error is its text and the chain below it: the text of its source, and the I/O error
  below that, if it is one.
\<close>

datatype transport_error = TransportError (te_text: string) (te_source: "(string \<times> io_error option) option")

record 'w grpc =
  gr_connect :: "string \<Rightarrow> ('w, transport_error, int) comp"
  gr_setup :: "int \<Rightarrow> network_config \<Rightarrow> ('w, status, lease) comp"
  gr_teardown :: "int \<Rightarrow> network_config \<Rightarrow> ('w, status, lease) comp"

definition client_error :: "string \<Rightarrow> transport_error \<Rightarrow> netavark_error" where
  "client_error path e =
     Message (case te_source e of
        None \<Rightarrow> te_text e
      | Some (err, None) \<Rightarrow> err
      | Some (err, Some io) \<Rightarrow>
          if ioe_kind io = NotFound \<or> ioe_kind io = ConnectionRefused
          then ''socket '' @ [CHR 0x22] @ path @ [CHR 0x22] @ '': '' @ ioe_msg io
                 @ '', is the netavark-dhcp-proxy.socket unit enabled?''
          else err)"

definition get_client :: "'w grpc \<Rightarrow> string \<Rightarrow> ('w, int) ncomp" where
  "get_client g p = map_errc (client_error p) (gr_connect g p)"

definition client_get_lease :: "'w grpc \<Rightarrow> network_config \<Rightarrow> string \<Rightarrow> ('w, lease) ncomp" where
  "client_get_lease g self p = bindc (get_client g p) (\<lambda>client. map_errc DHCPProxy (gr_setup g client self))"

definition client_drop_lease :: "'w grpc \<Rightarrow> network_config \<Rightarrow> string \<Rightarrow> ('w, lease) ncomp" where
  "client_drop_lease g self p = bindc (get_client g p) (\<lambda>client. map_errc DHCPProxy (gr_teardown g client self))"

section \<open>Properties\<close>

lemma mapM_parse_show: "mapM_res parse_ipv4 (map show_ipv4 xs) = Ok xs"
  by (induction xs) (simp_all add: parse_ipv4_show)

definition nonempty :: "'a list option \<Rightarrow> 'a list option" where
  "nonempty x = (if x = Some [] then None else x)"

lemma to_v4_handle_ip: "to_v4_addrs (handle_ip_vectors ip) = Ok (nonempty ip)"
  by (cases ip) (auto simp: to_v4_addrs_def handle_ip_vectors_def nonempty_def mapM_parse_show)

lemma opt_text_case: "opt_text (case x of None \<Rightarrow> [] | Some d \<Rightarrow> d) = nonempty x"
  by (cases x) (auto simp: opt_text_def nonempty_def)

lemma u16_try_from_ucast: "u16_try_from (ucast (m :: 16 word)) = Ok m"
proof -
  have "unat (ucast m :: 32 word) = unat m" 
    using less_trans[OF unat_u16_less[of m], of 4294967296] by (simp add: unsigned_ucast_eq take_bit_eq_mod)
  moreover have "unat m \<le> 65535" using unat_u16_less[of m] by (simp del: unat_u16_less)
  moreover have "ucast (ucast m :: 32 word) = m" by (rule bit_word_eqI) (simp add: bit_simps)
  ultimately show ?thesis by (simp add: u16_try_from_def)
qed

lemma u16_try_from_mtu:
  "u16_try_from (case m of None \<Rightarrow> 0 | Some x \<Rightarrow> ucast (x :: 16 word)) = Ok (case m of None \<Rightarrow> 0 | Some x \<Rightarrow> x)"
  using u16_try_from_ucast[of 0] by (cases m) (simp_all add: u16_try_from_ucast)

lemmas lease_conversion_simps =
  lease_from_mozim_def parse_ipv4_show to_v4_handle_ip opt_text_case u16_try_from_mtu

text \<open>
  C33: a lease of the DHCP library that is sent over the connection and converted back keeps its
  addresses, its times and its server lists: what is lost is the broadcast address, the hardware
  address of the server (replaced by that of a default lease), an absent MTU (which becomes 0), and the
  difference between an absent and an empty text or list.
\<close>

theorem lease_conversion_roundtrip:
  "mozim_try_from dflt (lease_from_mozim l) =
     Ok (l\<lparr>ml_broadcast_addr := None, ml_mtu := Some (case ml_mtu l of None \<Rightarrow> 0 | Some m \<Rightarrow> m),
           ml_dns_srvs := nonempty (ml_dns_srvs l), ml_gateways := nonempty (ml_gateways l),
           ml_ntp_srvs := nonempty (ml_ntp_srvs l), ml_host_name := nonempty (ml_host_name l),
           ml_domain_name := nonempty (ml_domain_name l), ml_srv_mac := ml_srv_mac dflt\<rparr>)"
  by (cases l) (simp add: mozim_try_from_def lease_conversion_simps)

end
