(* ===== verification/Dhcp_Ip.thy ===== *)
theory Dhcp_Ip
  imports Core_Utils Dhcp_Lib
begin

text \<open>
  \<^verbatim>\<open>src/dhcp_proxy/ip.rs\<close>: the proxy gives the interface of the container the address and
  the default route of its lease.  \<open>sh\<close> prints a status inside an error; \<open>lib\<close> is
  the address library, \<open>os\<close> the operating system.
\<close>

section \<open>Operations\<close>

definition to_v4 :: "ip_addr \<Rightarrow> ipv4_addr pres" where
  "to_v4 ip = (case ip of V4 a \<Rightarrow> Ok a | V6 _ \<Rightarrow> Err ''invalid value for ipv4 conversion'')"

definition to_v6 :: "ip_addr \<Rightarrow> ipv6_addr pres" where
  "to_v6 ip = (case ip of V4 _ \<Rightarrow> Err ''invalid value for ipv6 conversion'' | V6 a \<Rightarrow> Ok a)"

record mac_vlan =
  mv_address :: ip_addr
  mv_gateways :: "ip_net list"
  mv_interface :: string
  mv_prefix_length :: "8 word"

text \<open>\<^verbatim>\<open>u32::count_ones\<close>.\<close>

definition count_ones :: "32 word \<Rightarrow> nat" where
  "count_ones w = length (filter (bit w) [0..<32])"

definition handle_gw :: "ipnet_lib \<Rightarrow> string \<Rightarrow> string \<Rightarrow> ip_net pres" where
  "handle_gw lib netmask route =
     bind_res (parse_ipv4 netmask) (\<lambda>sub_mask.
     let prefix = count_ones (v4_u32 sub_mask) in
     bind_res (parse_ipv4 route) (\<lambda>ip.
       map_err (\<lambda>e. e @ '':'' @ [CHR 0x27] @ route @ [CHR 0x27])
         (ipnet_new lib (V4 ip) (word_of_nat prefix))))"

definition handle_gws :: "ipnet_lib \<Rightarrow> string list \<Rightarrow> string \<Rightarrow> ip_net list pres" where
  "handle_gws lib g netmask = mapM_res (handle_gw lib netmask) g"

definition get_prefix_length_v4 :: "string \<Rightarrow> nat pres" where
  "get_prefix_length_v4 netmask =
     bind_res (parse_ipv4 netmask) (\<lambda>sub_mask. Ok (count_ones (v4_u32 sub_mask)))"

definition mac_vlan_new :: "ipnet_lib \<Rightarrow> lease \<Rightarrow> string \<Rightarrow> mac_vlan pres" where
  "mac_vlan_new lib l interface =
     bind_res (map_err (\<lambda>e. ''bad address: '' @ e) (parse_ip (l_yiaddr l))) (\<lambda>address.
     bind_res (map_err (\<lambda>e. ''bad gateways: '' @ e) (handle_gws lib (l_gateways l) (l_subnet_mask l))) (\<lambda>gateways.
     bind_res (get_prefix_length_v4 (l_subnet_mask l)) (\<lambda>u.
       Ok \<lparr>mv_address = address, mv_gateways = gateways, mv_interface = interface,
           mv_prefix_length = word_of_nat u\<rparr>)))"

definition add_ip :: "(status \<Rightarrow> string) \<Rightarrow> ipnet_lib \<Rightarrow> mac_vlan \<Rightarrow> 'w nl_socket \<Rightarrow> ('w, unit) pcomp" where
  "add_ip sh lib self nls =
     bindc (liftc (ipnet_new lib (mv_address self) (mv_prefix_length self))) (\<lambda>ip.
     bindc (map_errc (proxy_error_of sh) (get_link nls (LinkName (mv_interface self)))) (\<lambda>dev.
       map_errc (display sh) (add_addr nls (lm_index dev) ip)))"

definition add_gws :: "(status \<Rightarrow> string) \<Rightarrow> ipnet_lib \<Rightarrow> mac_vlan \<Rightarrow> 'w nl_socket \<Rightarrow> ('w, unit) pcomp" where
  "add_gws sh lib self nls = map_errc (display sh) (add_default_routes lib nls (mv_gateways self) None)"

text \<open>\<^verbatim>\<open>remove\<close> and \<^verbatim>\<open>teardown\<close> are \<^verbatim>\<open>todo!()\<close>.\<close>

definition mac_vlan_remove :: "mac_vlan \<Rightarrow> unit pres" where
  "mac_vlan_remove self = Panic"

definition ip_teardown :: "unit pres" where
  "ip_teardown = Panic"

definition ip_setup ::
  "(status \<Rightarrow> string) \<Rightarrow> 'w os \<Rightarrow> ipnet_lib \<Rightarrow> lease \<Rightarrow> string \<Rightarrow> string \<Rightarrow> ('w, unit) pcomp" where
  "ip_setup sh os lib lease interface ns_path =
     bindc (liftc (mac_vlan_new lib lease interface)) (\<lambda>vlan.
     bindc (map_errc (proxy_error_of sh) (open_netlink_sockets os lib ns_path)) (\<lambda>(_, netns).
       seqc (add_ip sh lib vlan (ns_netlink netns)) (add_gws sh lib vlan (ns_netlink netns))))"

section \<open>Properties\<close>

lemma count_ones_le: "count_ones w \<le> 32"
  unfolding count_ones_def by (rule order_trans[OF length_filter_le]) simp

lemma unat_count_ones: "unat (word_of_nat (count_ones w) :: 8 word) = count_ones w"
  using count_ones_le[of w] by (simp add: unat_of_nat take_bit_nat_eq_self order_le_less_trans)

text \<open>The netmask of a prefix length, in the printed form of a lease.\<close>

definition netmask :: "nat \<Rightarrow> ipv4_addr" where
  "netmask n = Ipv4Addr (mask_bits 8 0 n) (mask_bits 8 1 n) (mask_bits 8 2 n) (mask_bits 8 3 n)"

lemma netmask_count: "list_all (\<lambda>n. count_ones (v4_u32 (netmask n)) = n) [0..<33]"
  by code_simp

text \<open>
  The netmask of every prefix length is read as that length.
\<close>

lemma netmask_prefix:
  "n \<le> 32 \<Longrightarrow> get_prefix_length_v4 (show_ipv4 (netmask n)) = Ok n"
  using netmask_count by (auto simp: get_prefix_length_v4_def parse_ipv4_show list_all_iff)

lemma netmask_prefix_witness:
  "get_prefix_length_v4 ''255.255.240.0'' = Ok 20"
proof -
  have "show_ipv4 (netmask 20) = ''255.255.240.0''" by code_simp
  then show ?thesis using netmask_prefix[of 20] by simp
qed

end
