(* ===== verification/Macvlan_Dhcp.thy ===== *)
theory Macvlan_Dhcp
  imports Dhcp_Ip Aardvark
begin

text \<open>
  \<^verbatim>\<open>src/dhcp_proxy/proxy_conf.rs\<close> and \<^verbatim>\<open>src/network/macvlan_dhcp.rs\<close>: where the proxy
  keeps its files, and how the vlan driver asks it for a lease.  \<open>env\<close> is the environment,
  \<open>rt\<close> the construction of the asynchronous runtime.
\<close>

section \<open>Paths\<close>

definition NETAVARK_PROXY_RUN_DIR :: string where "NETAVARK_PROXY_RUN_DIR = ''/run/podman''"
definition NETAVARK_PROXY_RUN_DIR_ENV :: string where
  "NETAVARK_PROXY_RUN_DIR_ENV = ''NETAVARK_PROXY_RUN_DIR_ENV''"
definition DEFAULT_UDS_PATH :: string where "DEFAULT_UDS_PATH = ''/run/podman/nv-proxy.sock''"
definition DEFAULT_NETWORK_CONFIG :: string where "DEFAULT_NETWORK_CONFIG = ''/dev/stdin''"
definition DEFAULT_TIMEOUT :: "32 word" where "DEFAULT_TIMEOUT = 8"
definition PROXY_SOCK_NAME :: string where "PROXY_SOCK_NAME = ''nv-proxy.sock''"
definition CACHE_FILE_NAME :: string where "CACHE_FILE_NAME = ''nv-proxy.lease''"
definition DEFAULT_INACTIVITY_TIMEOUT :: "64 word" where "DEFAULT_INACTIVITY_TIMEOUT = 300"

lemmas proxy_const_defs =
  NETAVARK_PROXY_RUN_DIR_def NETAVARK_PROXY_RUN_DIR_ENV_def DEFAULT_UDS_PATH_def
  DEFAULT_NETWORK_CONFIG_def DEFAULT_TIMEOUT_def PROXY_SOCK_NAME_def CACHE_FILE_NAME_def
  DEFAULT_INACTIVITY_TIMEOUT_def

definition get_run_dir :: "(string \<rightharpoonup> string) \<Rightarrow> string option \<Rightarrow> string" where
  "get_run_dir env run_cli =
     (case env NETAVARK_PROXY_RUN_DIR_ENV of
        Some v \<Rightarrow> v
      | None \<Rightarrow> (case run_cli of Some val \<Rightarrow> val | None \<Rightarrow> NETAVARK_PROXY_RUN_DIR))"

definition get_proxy_sock_fqname :: "(string \<rightharpoonup> string) \<Rightarrow> string option \<Rightarrow> string" where
  "get_proxy_sock_fqname env run_dir_opt = path_join (get_run_dir env run_dir_opt) PROXY_SOCK_NAME"

definition get_cache_fqname :: "(string \<rightharpoonup> string) \<Rightarrow> string option \<Rightarrow> string" where
  "get_cache_fqname env run_dir = path_join (get_run_dir env run_dir) CACHE_FILE_NAME"

section \<open>Leases for the vlan driver\<close>

definition dhcp_request :: "string \<Rightarrow> string \<Rightarrow> string \<Rightarrow> string \<Rightarrow> network_config" where
  "dhcp_request host_iface container_iface ns_path mac =
     \<lparr>nc_host_iface = host_iface, nc_container_iface = container_iface, nc_container_mac_addr = mac,
      nc_domain_name = [], nc_host_name = [], nc_version = 0, nc_ns_path = ns_path\<rparr>"

definition build_runtime :: "('w, string, unit) comp \<Rightarrow> ('w, unit) ncomp" where
  "build_runtime rt = map_errc (\<lambda>e. Message (''unable to build thread: '' @ e)) rt"

definition lease_address :: "ipnet_lib \<Rightarrow> lease \<Rightarrow> net_address list nres" where
  "lease_address lib lease =
     (case l_gateways lease of
        [] \<Rightarrow> Panic
      | g # _ \<Rightarrow>
          bind_res (map_err (\<lambda>e. Message (''bad gateway address: '' @ e)) (parse_ip g)) (\<lambda>gw.
          bind_res (map_err Message (parse_ip (l_yiaddr lease))) (\<lambda>ip_addr.
          bind_res (map_err Message (parse_ipv4 (l_subnet_mask lease))) (\<lambda>subnet_mask.
          let prefix_len = count_ones (v4_u32 subnet_mask) in
          bind_res (map_err Message (ipnet_new lib ip_addr (word_of_nat prefix_len))) (\<lambda>ip.
            Ok [\<lparr>na_gateway = Some gw, na_ipnet = ip\<rparr>])))))"

definition get_dhcp_lease ::
  "(status \<Rightarrow> string) \<Rightarrow> 'w grpc \<Rightarrow> ('w, string, unit) comp \<Rightarrow> ipnet_lib \<Rightarrow>
     string \<Rightarrow> string \<Rightarrow> string \<Rightarrow> string \<Rightarrow> ('w, net_address list) ncomp" where
  "get_dhcp_lease sh g rt lib host_iface container_iface ns_path mac =
     (let nvp_config = dhcp_request host_iface container_iface ns_path mac in
      seqc (build_runtime rt)
        (bindc (map_errc (\<lambda>e. Message (''unable to obtain lease: '' @ display sh e))
                  (client_get_lease g nvp_config DEFAULT_UDS_PATH)) (\<lambda>lease.
         liftc (lease_address lib lease))))"

definition release_dhcp_lease ::
  "(status \<Rightarrow> string) \<Rightarrow> 'w grpc \<Rightarrow> ('w, string, unit) comp \<Rightarrow>
     string \<Rightarrow> string \<Rightarrow> string \<Rightarrow> string \<Rightarrow> ('w, unit) ncomp" where
  "release_dhcp_lease sh g rt host_iface container_iface ns_path mac =
     (let nvp_config = dhcp_request host_iface container_iface ns_path mac in
      seqc (build_runtime rt)
        (bindc (map_errc (\<lambda>e. Message (display sh e)) (client_drop_lease g nvp_config DEFAULT_UDS_PATH))
           (\<lambda>_. retc ())))"

section \<open>Properties\<close>

lemma parse_ip_of_v4: "parse_ipv4 s = Ok a \<Longrightarrow> parse_ip s = Ok (V4 a)"
  by (auto simp: parse_ipv4_def parse_ip_def read_ip_def split: if_splits option.splits prod.splits list.splits)

lemma eq_mk_net: "n = mk_net ip p \<longleftrightarrow> net_addr n = ip \<and> net_prefix_len n = p"
  by auto

lemma count_ones_prefix:
  "ipnet_laws lib \<Longrightarrow> ipnet_new lib ip (word_of_nat (count_ones w)) = Ok (mk_net ip (word_of_nat (count_ones w)))"
  using count_ones_le[of w] by (cases ip) (auto simp: ipnet_laws.new_ok unat_count_ones)

text \<open>
  C32: what netavark reports for a leased interface is what the proxy configured: for a lease the
  proxy can apply, the reported address is the one the proxy assigns and the reported gateway is the
  one its first default route goes through.  A lease the proxy applies without any gateway makes the
  driver panic.
\<close>

theorem dhcp_report_agrees:
  assumes lib: "ipnet_laws lib" and mv: "mac_vlan_new lib lease ifname = Ok mv"
  shows "(if l_gateways lease = [] then lease_address lib lease = Panic
          else \<exists>gw rest net. lease_address lib lease = Ok [\<lparr>na_gateway = Some gw, na_ipnet = net\<rparr>]
            \<and> ipnet_new lib (mv_address mv) (mv_prefix_length mv) = Ok net
            \<and> mv_gateways mv = mk_net gw (mv_prefix_length mv) # rest)"
proof (cases "l_gateways lease")
  case Nil
  then show ?thesis by (simp add: lease_address_def)
next
  case (Cons g gs)
  from mv obtain address gws sub_mask where "parse_ip (l_yiaddr lease) = Ok address"
    and gws: "handle_gws lib (l_gateways lease) (l_subnet_mask lease) = Ok gws"
    and mask: "parse_ipv4 (l_subnet_mask lease) = Ok sub_mask"
    and "mv = \<lparr>mv_address = address, mv_gateways = gws, mv_interface = ifname,
               mv_prefix_length = word_of_nat (count_ones (v4_u32 sub_mask))\<rparr>"
    by (auto simp: mac_vlan_new_def get_prefix_length_v4_def)
  moreover from gws mask obtain ip rest where "parse_ipv4 g = Ok ip"
    and "gws = mk_net (V4 ip) (word_of_nat (count_ones (v4_u32 sub_mask))) # rest"
    using lib by (auto simp: handle_gws_def handle_gw_def Cons count_ones_prefix Let_def)
  ultimately show ?thesis
    using lib by (simp add: lease_address_def Cons parse_ip_of_v4 count_ones_prefix Let_def)
qed

definition example_lease :: lease where
  "example_lease =
     \<lparr>l_t1 = 30, l_t2 = 50, l_lease_time = 60, l_mtu = 0, l_domain_name = [], l_mac_address = [],
      l_is_v6 = False, l_siaddr = ''10.0.0.1'', l_yiaddr = ''10.0.0.9'', l_srv_id = ''10.0.0.1'',
      l_subnet_mask = ''255.0.0.0'', l_broadcast_addr = [], l_dns_servers = [], l_gateways = [''10.0.0.1''],
      l_ntp_servers = [], l_host_name = []\<rparr>"

lemma example_mac_vlan:
  "mac_vlan_new ipnet_ref example_lease ''eth0'' =
     Ok \<lparr>mv_address = V4 (Ipv4Addr 10 0 0 9), mv_gateways = [NetV4 (Ipv4Addr 10 0 0 1) 8],
         mv_interface = ''eth0'', mv_prefix_length = 8\<rparr>"
  by code_simp

theorem dhcp_report_agrees_witness:
  "\<exists>gw net. lease_address ipnet_ref example_lease = Ok [\<lparr>na_gateway = Some gw, na_ipnet = net\<rparr>]
     \<and> net = NetV4 (Ipv4Addr 10 0 0 9) 8 \<and> gw = V4 (Ipv4Addr 10 0 0 1)"
  using dhcp_report_agrees[OF ipnet.ipnet_laws_axioms example_mac_vlan]
  by (auto simp: example_lease_def new_ref_def eq_mk_net)

end
