(* ===== verification/Vlan.thy ===== *)
theory Vlan
  imports Driver_Info Macvlan_Dhcp
begin

text \<open>
  \<^verbatim>\<open>src/network/vlan.rs\<close>: the macvlan and ipvlan driver.  \<open>rng\<close> gives the random part
  of a temporary interface name, \<open>g\<close> and \<open>rt\<close> the connection to the DHCP proxy,
  \<open>sh\<close> prints a status inside an error.
\<close>

section \<open>Data\<close>

datatype kind_data =
    KindMacVlan (kd_mac_address: "8 word list option") (kd_mac_mode: macvlan_mode)
  | KindIpVlan (kd_ip_mode: "16 word")

definition show_kind_data :: "kind_data \<Rightarrow> string" where
  "show_kind_data k = (case k of KindMacVlan _ _ \<Rightarrow> ''macvlan'' | KindIpVlan _ \<Rightarrow> ''ipvlan'')"

record vlan_data =
  vd_container_interface_name :: string
  vd_host_interface_name :: string
  vd_ipam :: ipam_addresses
  vd_mtu :: "32 word"
  vd_metric :: "32 word option"
  vd_kind :: kind_data

definition vlan_kind :: "'w driver_info \<Rightarrow> string \<Rightarrow> kind_data nres" where
  "vlan_kind info mode =
     (let driver = n_driver (di_network info)
      in if driver = DRIVER_IPVLAN
         then bind_res (get_ipvlan_mode_from_string mode) (\<lambda>m. Ok (KindIpVlan m))
         else if driver = DRIVER_MACVLAN
         then bind_res (get_macvlan_mode_from_string mode) (\<lambda>m.
              bind_res (case pn_static_mac (di_per_network_opts info) of
                          Some mac \<Rightarrow> bind_res (map_err Io (decode_address_from_hex mac)) (\<lambda>b. Ok (Some b))
                        | None \<Rightarrow> Ok None) (\<lambda>mac_address.
              Ok (KindMacVlan mac_address m)))
         else Err (Message (''unsupported VLAN type '' @ driver)))"

definition vlan_validate :: "ipnet_lib \<Rightarrow> 'w driver_info \<Rightarrow> vlan_data nres" where
  "vlan_validate lib info =
     (let net = di_network info; opts = di_per_network_opts info
      in if pn_interface_name opts = [] then Err (Message NO_CONTAINER_INTERFACE_ERROR)
         else bind_res (parse_option from_str_string (n_options net) OPTION_MODE []) (\<lambda>mode.
         bind_res (map_err Io (get_ipam_addresses lib opts net)) (\<lambda>ipam.
         bind_res (parse_option from_str_u32 (n_options net) OPTION_MTU 0) (\<lambda>mtu.
         bind_res (parse_option from_str_u32 (n_options net) OPTION_METRIC 100) (\<lambda>metric.
         bind_res (vlan_kind info mode) (\<lambda>kind.
         Ok \<lparr>vd_container_interface_name = pn_interface_name opts,
             vd_host_interface_name = unwrap_or (n_network_interface net) [],
             vd_ipam = (if n_internal net then ipam\<lparr>ia_gateway_addresses := []\<rparr> else ipam),
             vd_mtu = mtu, vd_metric = Some metric, vd_kind = kind\<rparr>))))))"

section \<open>Interfaces\<close>

fun get_mac_address :: "link_nla list \<Rightarrow> string nres" where
  "get_mac_address [] = Err (Message ''failed to get the the container mac address'')"
| "get_mac_address (NlaAddress addr # nlas) = Ok (encode_address_to_hex addr)"
| "get_mac_address (_ # nlas) = get_mac_address nlas"

fun first_name :: "link_nla list \<Rightarrow> string option" where
  "first_name [] = None"
| "first_name (NlaIfName n # nlas) = Some n"
| "first_name (_ # nlas) = first_name nlas"

fun route_has_dest :: "route_nla list \<Rightarrow> bool" where
  "route_has_dest [] = False"
| "route_has_dest (RNlaDestination _ # nlas) = True"
| "route_has_dest (_ # nlas) = route_has_dest nlas"

fun route_oif :: "route_nla list \<Rightarrow> 32 word \<Rightarrow> 32 word" where
  "route_oif [] i = i"
| "route_oif (RNlaOif oif # nlas) i = route_oif nlas oif"
| "route_oif (_ # nlas) i = route_oif nlas i"

fun default_route_loop :: "'w nl_socket \<Rightarrow> route_message list \<Rightarrow> ('w, string) ncomp" where
  "default_route_loop host [] = failc (Message ''failed to get default route interface'')"
| "default_route_loop host (route # routes) =
     (let out_if = route_oif (rm_nlas route) 0
      in if \<not> route_has_dest (rm_nlas route) \<and> 0 < out_if
         then bindc (get_link host (LinkID out_if)) (\<lambda>link.
                case first_name (lm_nlas link) of
                  Some name \<Rightarrow> retc name
                | None \<Rightarrow> default_route_loop host routes)
         else default_route_loop host routes)"

definition get_default_route_interface :: "'w nl_socket \<Rightarrow> ('w, string) ncomp" where
  "get_default_route_interface host =
     bindc (wrapc ''dump routes'' (dump_routes host)) (default_route_loop host)"

definition vlan_options :: "vlan_data \<Rightarrow> string \<Rightarrow> 32 word \<Rightarrow> int \<Rightarrow> create_link_options" where
  "vlan_options data if_name link netns_fd =
     (case vd_kind data of
        KindIpVlan mode \<Rightarrow>
          (create_link_options_new if_name KIpVlan)
            \<lparr>cl_mtu := vd_mtu data, cl_netns := netns_fd, cl_link := link, cl_info_data := Some (DataIpVlan mode)\<rparr>
      | KindMacVlan mac_address mode \<Rightarrow>
          (create_link_options_new if_name KMacVlan)
            \<lparr>cl_mac := unwrap_or mac_address [], cl_mtu := vd_mtu data, cl_netns := netns_fd, cl_link := link,
             cl_info_data := Some (DataMacVlan mode)\<rparr>)"

text \<open>The name is taken on the host: the link gets a temporary name there and its own in the container.\<close>

definition rename_tmp :: "'w nl_socket \<Rightarrow> string \<Rightarrow> string \<Rightarrow> string \<Rightarrow> ('w, unit) ncomp" where
  "rename_tmp netns kind tmp_name if_name =
     bindc (wrapc (''get tmp '' @ kind @ '' interface'') (get_link netns (LinkName tmp_name))) (\<lambda>link.
       matchc (wrapc (''rename tmp '' @ kind @ '' interface'') (set_link_name netns (lm_index link) if_name))
         retc
         (\<lambda>err. matchc (del_link netns (LinkID (lm_index link))) (\<lambda>_. failc err) (\<lambda>_. failc err)))"

text \<open>
  The loop, entered with the error of the last attempt; \<open>n\<close> is the number of iterations that
  follow this one.
\<close>

fun vlan_retry ::
  "(status \<Rightarrow> string) \<Rightarrow> ('w, string) ncomp \<Rightarrow> 'w nl_socket \<Rightarrow> 'w nl_socket \<Rightarrow> string \<Rightarrow> create_link_options \<Rightarrow>
     string \<Rightarrow> nat \<Rightarrow> netavark_error \<Rightarrow> ('w, unit) ncomp" where
  "vlan_retry sh rng host netns kind opts if_name n err =
     (if (case err of Netlink e \<Rightarrow> - nl_code e = EEXIST | _ \<Rightarrow> False)
      then bindc rng (\<lambda>random.
             let tmp_name = ''mv-'' @ random
             in matchc (create_link host (opts\<lparr>cl_name := tmp_name\<rparr>))
                  (\<lambda>_. rename_tmp netns kind tmp_name if_name)
                  (\<lambda>e. case n of
                     0 \<Rightarrow> failc (Message (''create '' @ kind @ '' interface: '' @ display sh e))
                   | Suc m \<Rightarrow> vlan_retry sh rng host netns kind opts if_name m e))
      else failc (wrap (''create '' @ kind @ '' interface'') err))"

declare vlan_retry.simps [simp del]

definition create_vlan_link ::
  "(status \<Rightarrow> string) \<Rightarrow> ('w, string) ncomp \<Rightarrow> 'w nl_socket \<Rightarrow> 'w nl_socket \<Rightarrow> string \<Rightarrow> create_link_options \<Rightarrow>
     string \<Rightarrow> ('w, unit) ncomp" where
  "create_vlan_link sh rng host netns kind opts if_name =
     matchc (create_link host opts) retc (vlan_retry sh rng host netns kind opts if_name 2)"

definition vlan_setup_links ::
  "(status \<Rightarrow> string) \<Rightarrow> ('w, string) ncomp \<Rightarrow> 'w os \<Rightarrow> ipnet_lib \<Rightarrow> 'w nl_socket \<Rightarrow> 'w nl_socket \<Rightarrow>
     string \<Rightarrow> vlan_data \<Rightarrow> int \<Rightarrow> int \<Rightarrow> ('w, string) ncomp" where
  "vlan_setup_links sh rng os lib host netns if_name data hostns_fd netns_fd =
     (let kind = show_kind_data (vd_kind data)
      in bindc (if vd_host_interface_name data = [] then get_default_route_interface host
                else retc (vd_host_interface_name data)) (\<lambda>primary_ifname.
         bindc (get_link host (LinkName primary_ifname)) (\<lambda>link.
         seqc (create_vlan_link sh rng host netns kind (vlan_options data if_name (lm_index link) netns_fd) if_name)
        (bindc (exec_netns os hostns_fd netns_fd (attempt (disable_ipv6_autoconf os if_name))) (\<lambda>res.
         seqc (liftc res)
        (bindc (wrapc (''get '' @ kind @ '' interface'') (get_link netns (LinkName if_name))) (\<lambda>dev.
         seqc (for_each (\<lambda>addr. wrapc (''add ip addr to '' @ kind) (add_addr netns (lm_index dev) addr))
                 (ia_container_addresses (vd_ipam data)))
        (seqc (wrapc (''set '' @ kind @ '' up'') (set_up netns (LinkID (lm_index dev))))
        (seqc (add_default_routes lib netns (ia_gateway_addresses (vd_ipam data)) (vd_metric data))
              (liftc (get_mac_address (lm_nlas dev))))))))))))"

section \<open>The driver\<close>

definition vlan_setup ::
  "(status \<Rightarrow> string) \<Rightarrow> ('w, string) ncomp \<Rightarrow> 'w grpc \<Rightarrow> ('w, string, unit) comp \<Rightarrow> 'w os \<Rightarrow> ipnet_lib \<Rightarrow>
     'w driver_info \<Rightarrow> vlan_data option \<Rightarrow> 'w nl_socket \<times> 'w nl_socket \<Rightarrow>
     ('w, status_block \<times> aardvark_entry option) ncomp" where
  "vlan_setup sh rng g rt os lib info data_opt = (\<lambda>(host_sock, netns_sock).
     case data_opt of
       None \<Rightarrow> failc (Message ''must call validate() before setup()'')
     | Some data \<Rightarrow>
         (let if_name = pn_interface_name (di_per_network_opts info)
          in bindc (vlan_setup_links sh rng os lib host_sock netns_sock if_name data
                      (di_netns_host info) (di_netns_container info)) (\<lambda>mac.
             bindc (if ia_dhcp_enabled (vd_ipam data)
                    then get_dhcp_lease sh g rt lib (vd_host_interface_name data)
                           (vd_container_interface_name data) (di_netns_path info) mac
                    else retc (ia_net_addresses (vd_ipam data))) (\<lambda>subnets.
             retc (\<lparr>sb_dns_search_domains = Some [], sb_dns_server_ips = Some [],
                    sb_interfaces = Some [if_name \<mapsto> \<lparr>ni_mac_address = mac, ni_subnets = Some subnets\<rparr>]\<rparr>, None)))))"

definition vlan_teardown ::
  "(status \<Rightarrow> string) \<Rightarrow> 'w grpc \<Rightarrow> ('w, string, unit) comp \<Rightarrow> ipnet_lib \<Rightarrow> 'w driver_info \<Rightarrow>
     'w nl_socket \<times> 'w nl_socket \<Rightarrow> ('w, unit) ncomp" where
  "vlan_teardown sh g rt lib info = (\<lambda>(host_sock, netns_sock).
     let if_name = pn_interface_name (di_per_network_opts info)
     in bindc (liftc (map_err Io (get_ipam_addresses lib (di_per_network_opts info) (di_network info)))) (\<lambda>ipam.
        seqc (if ia_dhcp_enabled ipam
              then bindc (wrapc (''get macvlan interface '' @ if_name) (get_link netns_sock (LinkName if_name))) (\<lambda>dev.
                   bindc (liftc (get_mac_address (lm_nlas dev))) (\<lambda>container_mac_address.
                   release_dhcp_lease sh g rt (unwrap_or (n_network_interface (di_network info)) [])
                     if_name (di_netns_path info) container_mac_address))
              else retc ())
          (del_link netns_sock (LinkName if_name))))"

section \<open>Properties\<close>

subsection \<open>Namespaces\<close>

text \<open>Computations that are in the given namespace again when they return, with a value or an error.\<close>

definition stays_in :: "('w \<Rightarrow> int) \<Rightarrow> int \<Rightarrow> ('w, 'e, 'a) comp \<Rightarrow> bool" where
  "stays_in cur fd m \<longleftrightarrow>
     (\<forall>w r w'. cur w = fd \<longrightarrow> m w = (r, w') \<longrightarrow> r \<noteq> Panic \<longrightarrow> r \<noteq> Hang \<longrightarrow> cur w' = fd)"

lemma stays_in_reads: "reads cur m \<Longrightarrow> stays_in cur fd m"
  by (auto simp: stays_in_def dest: readsD)

lemma stays_in_bindc: "stays_in cur fd m \<Longrightarrow> (\<And>x. stays_in cur fd (f x)) \<Longrightarrow> stays_in cur fd (bindc m f)"
  unfolding stays_in_def
proof (intro allI impI, goal_cases)
  case (1 w r w')
  from 1(4) show ?case
  proof (cases rule: bindc_cases)
    case (cont x w1)
    with 1(1,3) have "cur w1 = fd" by blast
    with 1(2,5,6) cont(2) show ?thesis by blast
  next
    case (stop r1)
    with 1(1,3,5,6) show ?thesis by blast
  qed
qed

lemma stays_in_seqc: "stays_in cur fd m \<Longrightarrow> stays_in cur fd n \<Longrightarrow> stays_in cur fd (seqc m n)"
  unfolding seqc_def by (intro stays_in_bindc)

lemma attempt_not_Err: "attempt m w \<noteq> (Err e, w')"
  by (auto simp: attempt_def matchc_def retc_def split: prod.splits res.splits)

context netns_laws
begin

lemma exec_stays_in:
  assumes "\<forall>w. is_ok (fst (os_setns os host w))"
  shows "stays_in cur host (exec_netns os host netns (attempt m))"
  unfolding stays_in_def
proof (intro allI impI)
  fix w r w'
  assume "cur w = host" and run: "exec_netns os host netns (attempt m) w = (r, w')" and nr: "r \<noteq> Panic" "r \<noteq> Hang"
  obtain r1 w1 where j: "os_setns os netns w = (r1, w1)" by fastforce
  show "cur w' = host"
  proof (cases r1)
    case (Ok u)
    obtain r2 :: "(netavark_error, _) res" and w2 where a: "attempt m w1 = (r2, w2)" by fastforce
    obtain w3 where h: "os_setns os host w2 = (Ok (), w3)"
      using assms by (metis is_ok.elims(2) prod.exhaust_sel old.unit.exhaust)
    have "w' = w3"
      using run j Ok a h nr 
      by (cases r2) (auto simp: exec_netns_def join_netns_def comp_simps attempt_not_Err)
    with h show ?thesis using setns_ok by blast
  next
    case (Err e)
    with run j have "w' = w1" by (auto simp: exec_netns_def join_netns_def comp_simps)
    with setns_fail[OF j] Err \<open>cur w = host\<close> show ?thesis by simp
  qed (use run j nr in \<open>auto simp: exec_netns_def join_netns_def comp_simps\<close>)
qed

end

text \<open>The other parts of the driver do not switch the namespace.\<close>

lemma rename_reads: "sock_reads obs netns \<Longrightarrow> reads obs (rename_tmp netns kind tmp n)"
  unfolding rename_tmp_def by (intro reads_intros) (auto simp: sock_reads_def)

lemma retry_reads:
  "sock_reads obs host \<Longrightarrow> sock_reads obs netns \<Longrightarrow> reads obs rng \<Longrightarrow>
     reads obs (vlan_retry sh rng host netns kind opts n k err)"
proof (induction k arbitrary: err)
  case 0
  then show ?case
    by (subst vlan_retry.simps, unfold Let_def, intro reads_intros rename_reads) (auto simp: sock_reads_def)
next
  case (Suc k)
  then show ?case
    by (subst vlan_retry.simps, unfold Let_def, intro reads_intros rename_reads) (auto simp: sock_reads_def)
qed

lemma create_vlan_link_reads:
  "sock_reads obs host \<Longrightarrow> sock_reads obs netns \<Longrightarrow> reads obs rng \<Longrightarrow>
     reads obs (create_vlan_link sh rng host netns kind opts n)"
  unfolding create_vlan_link_def by (intro reads_intros retry_reads) (auto simp: sock_reads_def)

lemma default_route_loop_reads: "sock_reads obs host \<Longrightarrow> reads obs (default_route_loop host routes)"
  by (induction routes) (auto simp: Let_def sock_reads_def intro!: reads_intros split: option.split)

definition grpc_reads :: "('w \<Rightarrow> 's) \<Rightarrow> 'w grpc \<Rightarrow> bool" where
  "grpc_reads obs g \<longleftrightarrow>
     (\<forall>p i nc. reads obs (gr_connect g p) \<and> reads obs (gr_setup g i nc) \<and> reads obs (gr_teardown g i nc))"

lemma get_dhcp_lease_reads:
  "grpc_reads obs g \<Longrightarrow> reads obs rt \<Longrightarrow> reads obs (get_dhcp_lease sh g rt lib h c p mac)"
  unfolding get_dhcp_lease_def build_runtime_def client_get_lease_def get_client_def Let_def
  by (intro reads_intros) (auto simp: grpc_reads_def intro!: reads_intros)

text \<open>
  C16: setting up a macvlan or ipvlan network leaves the process in the host's namespace whether it
  succeeds or fails, in particular when turning off address autoconfiguration inside the container
  fails, as long as the host's namespace can be joined again.
\<close>

theorem vlan_setup_always_in_host:
  assumes "netns_laws os cur" and "\<forall>w. is_ok (fst (os_setns os (di_netns_host info) w))"
    and "sock_reads cur host" and "sock_reads cur netns" and "reads cur rng" and "grpc_reads cur g" and "reads cur rt"
    and "cur w = di_netns_host info"
    and "vlan_setup sh rng g rt os lib info data (host, netns) w = (r, w')" and "r \<noteq> Panic" and "r \<noteq> Hang"
  shows "cur w' = di_netns_host info"
proof -
  note [simp] = assms(3,4)[unfolded sock_reads_def] create_vlan_link_reads[OF assms(3,4,5)]
    add_default_routes_reads[OF assms(4)] get_dhcp_lease_reads[OF assms(6,7)]
  have iface: "reads cur (get_default_route_interface host)"
    unfolding get_default_route_interface_def by (intro reads_intros default_route_loop_reads assms(3)) simp
  have "stays_in cur (di_netns_host info) (vlan_setup_links sh rng os lib host netns n d (di_netns_host info) (di_netns_container info))" for n d
    unfolding vlan_setup_links_def Let_def
    by (intro stays_in_bindc stays_in_seqc netns_laws.exec_stays_in[OF assms(1,2)])
      (auto intro!: stays_in_reads reads_intros iface)
  note links = this
  have "stays_in cur (di_netns_host info) (vlan_setup sh rng g rt os lib info data (host, netns))"
  proof (cases data)
    case None
    then show ?thesis by (simp add: vlan_setup_def stays_in_reads)
  next
    case (Some d)
    show ?thesis unfolding vlan_setup_def Some prod.case option.case Let_def
      by (intro stays_in_bindc links) (auto intro!: stays_in_reads)
  qed
  with assms(8-11) show ?thesis by (simp add: stays_in_def)
qed

definition os_no_sysctl :: "ref_world os" where
  "os_no_sysctl = os_ref\<lparr>os_setns := (\<lambda>fd w. (Ok (), w\<lparr>rw_cur := fd\<rparr>)),
     ctl_new := (\<lambda>_. failc (SysctlOther ''permission denied''))\<rparr>"

definition grpc_down :: "'w grpc" where
  "grpc_down = \<lparr>gr_connect = (\<lambda>_. failc (TransportError ''down'' None)), gr_setup = (\<lambda>_ _. failc (Status CodeUnknown [])),
     gr_teardown = (\<lambda>_ _. failc (Status CodeUnknown []))\<rparr>"

definition example_vlan :: vlan_data where
  "example_vlan =
     \<lparr>vd_container_interface_name = ''eth0'', vd_host_interface_name = ''eno1'', vd_ipam = ipam_empty False,
      vd_mtu = 0, vd_metric = Some 100, vd_kind = KindMacVlan None MODE_BRIDGE\<rparr>"

theorem vlan_setup_always_in_host_witness:
  "\<exists>w'. vlan_setup status_msg (retc ''x'') grpc_down (retc ()) os_no_sysctl ipnet_ref
     (example_info fwnone_driver) (Some example_vlan) (sock_ref [] [], sock_ref [] []) ref_start =
     (Err (Chain ''failed to set autoconf sysctl'' (Sysctl (SysctlOther ''permission denied''))), w') \<and> rw_cur w' = 3"
proof -
  let ?info = "example_info (fwnone_driver :: ref_world firewall_driver)"
  let ?e = "Chain ''failed to set autoconf sysctl'' (Sysctl (SysctlOther ''permission denied''))"
  obtain w' where run: "vlan_setup status_msg (retc ''x'') grpc_down (retc ()) os_no_sysctl ipnet_ref
     ?info (Some example_vlan) (sock_ref [] [], sock_ref [] []) ref_start = (Err ?e, w')"
    by (simp add: vlan_setup_def vlan_setup_links_def create_vlan_link_def example_vlan_def Let_def exec_netns_def
      join_netns_def attempt_def disable_ipv6_autoconf_def apply_sysctl_value_def os_no_sysctl_def sock_ref_def comp_simps wrap_def)
  have "rw_cur w' = di_netns_host ?info"
  proof (rule vlan_setup_always_in_host[OF _ _ _ _ _ _ _ _ run])
    show "netns_laws os_no_sysctl rw_cur" by unfold_locales (auto simp: os_no_sysctl_def)
  qed (simp_all add: os_no_sysctl_def sock_ref_reads grpc_reads_def grpc_down_def example_info_def ref_start_def)
  with run show ?thesis by (simp add: example_info_def)
qed

subsection \<open>The attempts to create a link\<close>

text \<open>
  \<open>names\<close> logs the names under which links are created on the host; at most \<open>n\<close>
  links with temporary names are created by a computation that is \<open>tmp_creates\<close>.
\<close>

definition logs_creates :: "('w \<Rightarrow> string list) \<Rightarrow> 'w nl_socket \<Rightarrow> bool" where
  "logs_creates names host \<longleftrightarrow> (\<forall>opts w. names (snd (create_link host opts w)) = names w @ [cl_name opts])"

definition tmp_creates :: "('w \<Rightarrow> string list) \<Rightarrow> nat \<Rightarrow> ('w, 'e, 'a) comp \<Rightarrow> bool" where
  "tmp_creates names n m \<longleftrightarrow>
     (\<forall>w. \<exists>tmps. names (snd (m w)) = names w @ tmps \<and> length tmps \<le> n \<and> list_all (\<lambda>t. take 3 t = ''mv-'') tmps)"

lemma tmp_creates_reads: "reads names m \<Longrightarrow> tmp_creates names n m"
  by (auto simp: tmp_creates_def reads_def intro!: exI[of _ "[]"])

lemma tmp_creates_matchc:
  assumes "tmp_creates names a m" and "\<And>x. tmp_creates names b (f x)" and "\<And>e. tmp_creates names b (h e)"
  shows "tmp_creates names (a + b) (matchc m f h)"
  unfolding tmp_creates_def
proof
  fix w
  obtain r w1 where m: "m w = (r, w1)" by fastforce
  obtain t1 where t1: "names w1 = names w @ t1" "length t1 \<le> a" "list_all (\<lambda>t. take 3 t = ''mv-'') t1"
    using assms(1) m unfolding tmp_creates_def by (metis snd_conv)
  have "\<exists>t2. names (snd (matchc m f h w)) = names w1 @ t2 \<and> length t2 \<le> b \<and> list_all (\<lambda>t. take 3 t = ''mv-'') t2"
    using assms(2,3) m by (cases r) (auto simp: tmp_creates_def matchc_def intro: exI[of _ "[]"])
  then obtain t2 where t2: "names (snd (matchc m f h w)) = names w1 @ t2" "length t2 \<le> b"
    "list_all (\<lambda>t. take 3 t = ''mv-'') t2" by blast
  show "\<exists>tmps. names (snd (matchc m f h w)) = names w @ tmps \<and> length tmps \<le> a + b \<and> list_all (\<lambda>t. take 3 t = ''mv-'') tmps"
    using t1 t2 by (intro exI[of _ "t1 @ t2"]) simp
qed

lemma tmp_creates_bindc:
  "tmp_creates names a m \<Longrightarrow> (\<And>x. tmp_creates names b (f x)) \<Longrightarrow> tmp_creates names (a + b) (bindc m f)"
  unfolding bindc_def by (rule tmp_creates_matchc) (simp_all add: tmp_creates_reads)

lemma retry_step_creates:
  assumes host: "logs_creates names host" and netns: "sock_reads names netns" and rng: "reads names rng"
    and rest: "\<And>e. tmp_creates names n (next_try e)"
  shows "tmp_creates names (Suc n)
    (bindc rng (\<lambda>random. matchc (create_link host (opts\<lparr>cl_name := ''mv-'' @ random\<rparr>))
       (\<lambda>_. rename_tmp netns kind (''mv-'' @ random) if_name) next_try))"
proof -
  have "tmp_creates names 1 (create_link host (opts\<lparr>cl_name := ''mv-'' @ random\<rparr>))" for random
    using host by (auto simp: tmp_creates_def logs_creates_def)
  then have "tmp_creates names (1 + n) (matchc (create_link host (opts\<lparr>cl_name := ''mv-'' @ random\<rparr>))
       (\<lambda>_. rename_tmp netns kind (''mv-'' @ random) if_name) next_try)" for random
    by (rule tmp_creates_matchc) (simp_all add: rest tmp_creates_reads rename_reads[OF netns])
  then have "tmp_creates names (0 + (1 + n)) (bindc rng (\<lambda>random.
      matchc (create_link host (opts\<lparr>cl_name := ''mv-'' @ random\<rparr>))
       (\<lambda>_. rename_tmp netns kind (''mv-'' @ random) if_name) next_try))"
    by (rule tmp_creates_bindc[OF tmp_creates_reads[OF rng]])
  then show ?thesis by simp
qed

lemma vlan_retry_creates:
  assumes "logs_creates names host" and "sock_reads names netns" and "reads names rng"
  shows "tmp_creates names (Suc n) (vlan_retry sh rng host netns kind opts if_name n err)"
proof (induction n arbitrary: err)
  case 0
  then show ?case
    using retry_step_creates[OF assms, of 0]
    by (subst vlan_retry.simps) (simp add: Let_def tmp_creates_reads)
next
  case (Suc n)
  then show ?case
    using retry_step_creates[OF assms, of "Suc n"]
    by (subst vlan_retry.simps) (simp add: Let_def tmp_creates_reads)
qed

text \<open>
  C34: a macvlan or ipvlan link is first created under its own name and then, while the name is taken
  on the host, at most three times under a temporary name; no other name is ever used.
\<close>

theorem vlan_create_attempts:
  assumes "logs_creates names host" and "sock_reads names netns" and "reads names rng"
    and "create_vlan_link sh rng host netns kind opts if_name w = (r, w')"
  shows "\<exists>tmps. names w' = names w @ cl_name opts # tmps \<and> length tmps \<le> 3 \<and> (\<forall>t\<in>set tmps. take 3 t = ''mv-'')"
proof -
  obtain r1 w1 where c: "create_link host opts w = (r1, w1)" by fastforce
  then have w1: "names w1 = names w @ [cl_name opts]" using assms(1) unfolding logs_creates_def by (metis snd_conv)
  show ?thesis
  proof (cases r1)
    case (Err e)
    then have "vlan_retry sh rng host netns kind opts if_name 2 e w1 = (r, w')"
      using assms(4) c by (simp add: create_vlan_link_def matchc_def)
    then show ?thesis
      using vlan_retry_creates[OF assms(1-3), of 2 sh kind opts if_name e] w1
      by (auto simp: tmp_creates_def list_all_iff dest!: spec[of _ w1])
  qed (use assms(4) c w1 in \<open>auto simp: create_vlan_link_def matchc_def retc_def\<close>)
qed

text \<open>A host on which every name but the third is taken.\<close>

definition busy_sock :: "string list nl_socket" where
  "busy_sock = (sock_ref [] [])\<lparr>create_link := (\<lambda>opts log.
     (if length log < 2 then Err (Netlink (NlError (- 17) ''File exists'')) else Ok (), log @ [cl_name opts]))\<rparr>"

theorem vlan_create_attempts_witness:
  "\<exists>tmps. snd (create_vlan_link status_msg (\<lambda>log. (Ok (show_nat (length log)), log)) busy_sock (sock_ref [] []) ''macvlan''
       (create_link_options_new ''eth0'' KMacVlan) ''eth0'' []) = ''eth0'' # tmps
     \<and> length tmps = 2 \<and> (\<forall>t\<in>set tmps. take 3 t = ''mv-'')"
proof -
  let ?run = "create_vlan_link status_msg (\<lambda>log. (Ok (show_nat (length log)), log)) busy_sock (sock_ref [] []) ''macvlan''
       (create_link_options_new ''eth0'' KMacVlan) ''eth0'' []"
  have "logs_creates (\<lambda>log. log) busy_sock" by (simp add: logs_creates_def busy_sock_def)
  moreover have "reads (\<lambda>log. log) (\<lambda>log. (Ok (show_nat (length log)), log) :: (netavark_error, string) res \<times> string list)"
    by (simp add: reads_def)
  ultimately obtain tmps where "snd ?run = ''eth0'' # tmps" "\<forall>t\<in>set tmps. take 3 t = ''mv-''"
    using vlan_create_attempts[OF _ sock_ref_reads, of "\<lambda>log. log" busy_sock
        "\<lambda>log. (Ok (show_nat (length log)), log)" status_msg "[]" "[]" "''macvlan''" "create_link_options_new ''eth0'' KMacVlan" "''eth0''" "[]"]
    by (auto simp: create_link_options_new_def prod_eq_iff)
  moreover have "length (snd ?run) = 3"
    by (simp add: create_vlan_link_def vlan_retry.simps numeral_2_eq_2 busy_sock_def sock_ref_def EEXIST_def rename_tmp_def
        create_link_options_new_def comp_simps Let_def)
  ultimately show ?thesis by auto
qed

end
