(* ===== verification/Drivers.thy ===== *)
theory Drivers
  imports Bridge Vlan
begin

text \<open>
  \<^verbatim>\<open>src/network/plugin.rs\<close>, \<^verbatim>\<open>src/network/driver.rs\<close> and \<^verbatim>\<open>src/plugin.rs\<close>: networks
  whose driver is another program, the choice of the driver of a network, and the program side of a
  plugin.  Processes and the JSON form of the messages are parameters (\<open>plugin_sys\<close>,
  \<open>plugin_io\<close>).
\<close>

section \<open>Plugin networks\<close>

record 'w plugin_sys =
  pl_spawn :: "string list \<Rightarrow> ('w, io_error, int) comp"
  pl_send :: "int \<Rightarrow> network_plugin_exec \<Rightarrow> ('w, string, unit) comp"
  pl_read_to_end :: "int \<Rightarrow> ('w, io_error, string) comp"
  pl_wait :: "int \<Rightarrow> ('w, io_error, int option) comp"
  pl_status_block :: "string \<Rightarrow> (string, status_block) res"
  pl_json_error :: "string \<Rightarrow> (string, string) res"

definition plugin_input :: "'w driver_info \<Rightarrow> network_plugin_exec" where
  "plugin_input info =
     \<lparr>npe_container_id = di_container_id info, npe_container_name = di_container_name info,
      npe_port_mappings = di_port_mappings info, npe_network = di_network info,
      npe_network_options = di_per_network_opts info\<rparr>"

definition plugin_outcome ::
  "'w plugin_sys \<Rightarrow> bool \<Rightarrow> int option \<Rightarrow> (io_error, string) res \<Rightarrow> status_block option nres" where
  "plugin_outcome pl setup code result =
     (case code of
        None \<Rightarrow> Err (Message ''plugin killed by signal'')
      | Some rc \<Rightarrow>
          bind_res (map_err (\<lambda>e. wrap ''read into buffer'' (Io e)) result) (\<lambda>buffer.
          if rc = 0
          then (if setup then bind_res (map_err Serde (pl_status_block pl buffer)) (\<lambda>status. Ok (Some status))
                else Ok None)
          else bind_res (map_err Serde (pl_json_error pl buffer)) (\<lambda>err.
                 Err (Message (''exit code '' @ show_int rc @ '', message: '' @ err)))))"

definition exec_plugin ::
  "'w plugin_sys \<Rightarrow> string \<Rightarrow> 'w driver_info \<Rightarrow> bool \<Rightarrow> string \<Rightarrow> ('w, status_block option) ncomp" where
  "exec_plugin pl path info setup netns =
     bindc (map_errc Io (pl_spawn pl [path, if setup then ''setup'' else ''teardown'', netns])) (\<lambda>child.
     seqc (map_errc Serde (pl_send pl child (plugin_input info)))
    (bindc (attempt (pl_read_to_end pl child)) (\<lambda>result.
     bindc (map_errc (\<lambda>e. wrap ''wait for plugin to exit'' (Io e)) (pl_wait pl child)) (\<lambda>code.
     liftc (plugin_outcome pl setup code result)))))"

text \<open>\<^verbatim>\<open>Path::file_name\<close>, the empty text when there is none.\<close>

definition path_file_name :: "string \<Rightarrow> string" where
  "path_file_name p =
     (let slash = (\<lambda>c. c = CHR ''/'');
          name = rev (takeWhile (\<lambda>c. \<not> slash c) (dropWhile slash (rev p)))
      in if name = ''..'' then [] else name)"

definition plugin_failed :: "string \<Rightarrow> string" where
  "plugin_failed path = ''plugin '' @ [CHR 0x22] @ path_file_name path @ [CHR 0x22] @ '' failed''"

definition plugin_setup ::
  "'w plugin_sys \<Rightarrow> string \<Rightarrow> 'w driver_info \<Rightarrow> ('w, status_block \<times> aardvark_entry option) ncomp" where
  "plugin_setup pl path info =
     bindc (wrapc (plugin_failed path) (exec_plugin pl path info True (di_netns_path info))) (\<lambda>result.
       case result of Some status \<Rightarrow> retc (status, None) | None \<Rightarrow> liftc Panic)"

definition plugin_teardown :: "'w plugin_sys \<Rightarrow> string \<Rightarrow> 'w driver_info \<Rightarrow> ('w, unit) ncomp" where
  "plugin_teardown pl path info =
     bindc (wrapc (plugin_failed path) (exec_plugin pl path info False (di_netns_path info))) (\<lambda>_. retc ())"

section \<open>Drivers\<close>

text \<open>What the drivers use of the machine, collected.\<close>

record 'w driver_env =
  de_os :: "'w os"
  de_lib :: ipnet_lib
  de_sha512 :: "string \<Rightarrow> string"
  de_show_status :: "status \<Rightarrow> string"
  de_rng :: "('w, string) ncomp"
  de_grpc :: "'w grpc"
  de_runtime :: "('w, string, unit) comp"
  de_plugin :: "'w plugin_sys"
  de_metadata :: "string \<Rightarrow> ('w, io_error, bool \<times> 32 word) comp"

text \<open>A \<^verbatim>\<open>Box<dyn NetworkDriver>\<close>, with the data \<^verbatim>\<open>validate\<close> has computed.\<close>

datatype 'w network_driver =
    DBridge "'w driver_info" "bridge_data option"
  | DVlan "'w driver_info" "vlan_data option"
  | DPlugin string "'w driver_info"

fun driver_info_of :: "'w network_driver \<Rightarrow> 'w driver_info" where
  "driver_info_of (DBridge info _) = info"
| "driver_info_of (DVlan info _) = info"
| "driver_info_of (DPlugin _ info) = info"

definition network_name :: "'w network_driver \<Rightarrow> string" where
  "network_name d = n_name (di_network (driver_info_of d))"

fun driver_validate :: "'w driver_env \<Rightarrow> 'w network_driver \<Rightarrow> 'w network_driver nres" where
  "driver_validate de (DBridge info _) = bind_res (bridge_validate (de_lib de) info) (\<lambda>d. Ok (DBridge info (Some d)))"
| "driver_validate de (DVlan info _) = bind_res (vlan_validate (de_lib de) info) (\<lambda>d. Ok (DVlan info (Some d)))"
| "driver_validate de (DPlugin path info) = Ok (DPlugin path info)"

fun driver_setup ::
  "'w driver_env \<Rightarrow> 'w network_driver \<Rightarrow> 'w nl_socket \<times> 'w nl_socket \<Rightarrow>
     ('w, status_block \<times> aardvark_entry option) ncomp" where
  "driver_setup de (DBridge info d) socks = bridge_setup (de_os de) (de_lib de) (de_sha512 de) info d socks"
| "driver_setup de (DVlan info d) socks =
     vlan_setup (de_show_status de) (de_rng de) (de_grpc de) (de_runtime de) (de_os de) (de_lib de) info d socks"
| "driver_setup de (DPlugin path info) socks = plugin_setup (de_plugin de) path info"

fun driver_teardown ::
  "'w driver_env \<Rightarrow> 'w network_driver \<Rightarrow> 'w nl_socket \<times> 'w nl_socket \<Rightarrow> ('w, unit) ncomp" where
  "driver_teardown de (DBridge info d) socks = bridge_teardown (de_lib de) (de_sha512 de) info d socks"
| "driver_teardown de (DVlan info d) socks =
     vlan_teardown (de_show_status de) (de_grpc de) (de_runtime de) (de_lib de) info socks"
| "driver_teardown de (DPlugin path info) socks = plugin_teardown (de_plugin de) path info"

text \<open>The first directory that holds an executable file of the driver's name.\<close>

fun find_plugin :: "'w driver_env \<Rightarrow> string \<Rightarrow> string list \<Rightarrow> ('w, string option) ncomp" where
  "find_plugin de name [] = retc None"
| "find_plugin de name (dir # dirs) =
     (let path = path_join dir name
      in matchc (de_metadata de path)
           (\<lambda>(is_file, mode). if is_file \<and> mode AND 0x49 \<noteq> 0 then retc (Some path) else find_plugin de name dirs)
           (\<lambda>_. find_plugin de name dirs))"

definition get_network_driver ::
  "'w driver_env \<Rightarrow> 'w driver_info \<Rightarrow> string list option \<Rightarrow> ('w, 'w network_driver) ncomp" where
  "get_network_driver de info plugins_directories =
     (let name = n_driver (di_network info)
      in if name = DRIVER_BRIDGE then retc (DBridge info None)
         else if name = DRIVER_IPVLAN \<or> name = DRIVER_MACVLAN then retc (DVlan info None)
         else bindc (find_plugin de name (unwrap_or plugins_directories [])) (\<lambda>found.
                case found of
                  Some path \<Rightarrow> retc (DPlugin path info)
                | None \<Rightarrow> failc (Message (''unknown network driver '' @ [CHR 0x22] @ name @ [CHR 0x22]))))"

section \<open>The program side of a plugin\<close>

text \<open>
  A plugin written with the library: its three functions (\<open>plugin_prog\<close>), and its arguments,
  standard input and standard output (\<open>plugin_io\<close>).  An error is its text.
\<close>

record plugin_info =
  pi_version :: string
  pi_api_version :: string
  pi_extra_info :: "(string \<rightharpoonup> string) option"

definition API_VERSION :: string where "API_VERSION = ''1.0.0''"

definition plugin_info_new :: "string \<Rightarrow> string \<Rightarrow> (string \<rightharpoonup> string) option \<Rightarrow> plugin_info" where
  "plugin_info_new version api_version extra_info =
     \<lparr>pi_version = version, pi_api_version = api_version, pi_extra_info = extra_info\<rparr>"

record 'w plugin_prog =
  pg_create :: "network \<Rightarrow> ('w, string, network) comp"
  pg_setup :: "string \<Rightarrow> network_plugin_exec \<Rightarrow> ('w, string, status_block) comp"
  pg_teardown :: "string \<Rightarrow> network_plugin_exec \<Rightarrow> ('w, string, unit) comp"
  pg_info :: plugin_info

record 'w plugin_io =
  pio_read_network :: "('w, string, network) comp"
  pio_read_exec :: "('w, string, network_plugin_exec) comp"
  pio_write_network :: "network \<Rightarrow> ('w, string, unit) comp"
  pio_write_status :: "status_block \<Rightarrow> ('w, string, unit) comp"
  pio_write_info :: "plugin_info \<Rightarrow> ('w, string, unit) comp"
  pio_write_error :: "string \<Rightarrow> ('w, string, unit) comp"
  pio_println :: "string \<Rightarrow> ('w, string, unit) comp"

definition print_info :: "'w plugin_prog \<Rightarrow> 'w plugin_io \<Rightarrow> ('w, string, unit) comp" where
  "print_info pg io = pio_write_info io (pg_info pg)"

definition netns_arg :: "string list \<Rightarrow> ('w, string, string) comp" where
  "netns_arg args = (case args of [] \<Rightarrow> failc ''netns path argument is missing'' | netns # _ \<Rightarrow> retc netns)"

definition inner_exec :: "'w plugin_prog \<Rightarrow> 'w plugin_io \<Rightarrow> string list \<Rightarrow> ('w, string, unit) comp" where
  "inner_exec pg io args =
     (case args of
        [] \<Rightarrow> failc ''zero arguments given''
      | [_] \<Rightarrow> print_info pg io
      | _ # sub # rest \<Rightarrow>
          if sub = ''create''
          then bindc (pio_read_network io) (\<lambda>network. bindc (pg_create pg network) (pio_write_network io))
          else if sub = ''setup''
          then bindc (netns_arg rest) (\<lambda>netns. bindc (pio_read_exec io) (\<lambda>opts.
                 bindc (pg_setup pg netns opts) (pio_write_status io)))
          else if sub = ''teardown''
          then bindc (netns_arg rest) (\<lambda>netns. bindc (pio_read_exec io) (pg_teardown pg netns))
          else if sub = ''info'' then print_info pg io
          else failc (''unknown subcommand: '' @ sub))"

text \<open>The exit code of the plugin.\<close>

definition plugin_exec :: "'w plugin_prog \<Rightarrow> 'w plugin_io \<Rightarrow> string list \<Rightarrow> ('w, string, int) comp" where
  "plugin_exec pg io args =
     matchc (inner_exec pg io args)
       (\<lambda>_. retc 0)
       (\<lambda>err. seqc (matchc (pio_write_error io err) retc
                     (\<lambda>e. pio_println io (''failed to write json error: '' @ e @ '': '' @ err)))
                (retc 1))"

section \<open>Properties\<close>

text \<open>Validation keeps what a driver was given; a plugin comes from one of the directories.\<close>

lemma driver_validate_keeps_info:
  "driver_validate de d = Ok d' \<Longrightarrow> driver_info_of d' = driver_info_of d"
  by (cases d) auto

lemma find_plugin_dir:
  "find_plugin de name dirs w = (Ok (Some path), w') \<Longrightarrow> \<exists>dir\<in>set dirs. path = path_join dir name"
proof (induction dirs arbitrary: w)
  case (Cons dir dirs)
  from Cons.prems show ?case
    by (cases "de_metadata de (path_join dir name) w"; cases "fst (de_metadata de (path_join dir name) w)")
      (auto simp: matchc_def Let_def split: if_splits dest!: Cons.IH)
qed simp

text \<open>The \<^verbatim>\<open>unwrap\<close> of the plugin's answer is safe.\<close>

lemma plugin_answer_present: "plugin_outcome pl True code result = Ok r \<Longrightarrow> r \<noteq> None"
  by (auto simp: plugin_outcome_def split: option.splits if_splits)

end
