(* ===== verification/Lease_Cache.thy ===== *)
theory Lease_Cache
  imports Dhcp_Lib "HOL-Library.Finite_Map"
begin

text \<open>
  \<^verbatim>\<open>src/dhcp_proxy/cache.rs\<close>: the leases of the proxy, in memory and in the lease file.

  The hash map is a finite map.  The writer is a record of the operations the traits
  \<^verbatim>\<open>Write\<close> and \<^verbatim>\<open>Clear\<close> give; its two instances of the source, the cursor over
  bytes and the file, are defined below with the position each keeps.  The serialiser is a parameter:
  \<open>json m\<close> is the list of byte strings it hands to the writer for the map \<open>m\<close>.
\<close>

section \<open>Writers\<close>

type_synonym lease_mem = "(string, lease list) fmap"

record 'f writer =
  wr_clear :: "('f, string, unit) comp"
  wr_write_all :: "8 word list \<Rightarrow> ('f, io_error, unit) comp"
  wr_flush :: "('f, io_error, unit) comp"

text \<open>Writing at a position: bytes are overwritten, a gap before the position is filled with zeros.\<close>

definition write_at :: "nat \<Rightarrow> 8 word list \<Rightarrow> 8 word list \<Rightarrow> 8 word list" where
  "write_at pos buf bytes =
     (if buf = [] then bytes
      else take pos bytes @ replicate (pos - length bytes) 0 @ buf @ drop (pos + length buf) bytes)"

record cursor =
  cu_bytes :: "8 word list"
  cu_pos :: nat

definition cursor_writer :: "cursor writer" where
  "cursor_writer =
     \<lparr>wr_clear = (\<lambda>c. (Ok (), c\<lparr>cu_pos := 0, cu_bytes := []\<rparr>)),
      wr_write_all = (\<lambda>buf c. (Ok (), c\<lparr>cu_bytes := write_at (cu_pos c) buf (cu_bytes c),
                                      cu_pos := cu_pos c + length buf\<rparr>)),
      wr_flush = retc ()\<rparr>"

text \<open>
  A file: its bytes, the position of the handle, and the error the next system call fails with, if
  the system makes it fail.  \<^verbatim>\<open>set_len\<close> does not move the position.
\<close>

record lease_file =
  lf_bytes :: "8 word list"
  lf_pos :: nat
  lf_fault :: "io_error option"

definition file_writer :: "lease_file writer" where
  "file_writer =
     \<lparr>wr_clear = (\<lambda>f. case lf_fault f of
        None \<Rightarrow> (Ok (), f\<lparr>lf_bytes := []\<rparr>)
      | Some e \<Rightarrow> (Err (ioe_msg e), f)),
      wr_write_all = (\<lambda>buf f. case lf_fault f of
        None \<Rightarrow> (Ok (), f\<lparr>lf_bytes := write_at (lf_pos f) buf (lf_bytes f), lf_pos := lf_pos f + length buf\<rparr>)
      | Some e \<Rightarrow> (Err e, f)),
      wr_flush = retc ()\<rparr>"

section \<open>The cache\<close>

record 'f lease_cache =
  lc_mem :: lease_mem
  lc_writer :: 'f

definition cache_new :: "'f \<Rightarrow> 'f lease_cache" where
  "cache_new writer = \<lparr>lc_mem = fmempty, lc_writer = writer\<rparr>"

definition save_memory_to_fs ::
  "'f writer \<Rightarrow> (lease_mem \<Rightarrow> 8 word list list) \<Rightarrow> ('f lease_cache, io_error, unit) comp" where
  "save_memory_to_fs wr json c =
     (case matchc (wr_clear wr)
             (\<lambda>_. seqc (for_each (wr_write_all wr) (json (lc_mem c))) (wr_flush wr))
             (\<lambda>e. retc ()) (lc_writer c) of
        (r, f) \<Rightarrow> (r, c\<lparr>lc_writer := f\<rparr>))"

definition add_lease ::
  "'f writer \<Rightarrow> (lease_mem \<Rightarrow> 8 word list list) \<Rightarrow> string \<Rightarrow> lease \<Rightarrow> ('f lease_cache, io_error, unit) comp" where
  "add_lease wr json mac_addr lease c =
     save_memory_to_fs wr json (c\<lparr>lc_mem := fmupd mac_addr [lease] (lc_mem c)\<rparr>)"

definition update_lease ::
  "'f writer \<Rightarrow> (lease_mem \<Rightarrow> 8 word list list) \<Rightarrow> string \<Rightarrow> lease \<Rightarrow> ('f lease_cache, io_error, unit) comp" where
  "update_lease wr json mac_addr lease c =
     save_memory_to_fs wr json (c\<lparr>lc_mem := fmupd mac_addr [lease] (lc_mem c)\<rparr>)"

definition empty_lease :: lease where
  "empty_lease =
     \<lparr>l_t1 = 0, l_t2 = 0, l_lease_time = 0, l_mtu = 0, l_domain_name = [], l_mac_address = [],
      l_is_v6 = False, l_siaddr = [], l_yiaddr = [], l_srv_id = [], l_subnet_mask = [],
      l_broadcast_addr = [], l_dns_servers = [], l_gateways = [], l_ntp_servers = [], l_host_name = []\<rparr>"

definition remove_lease ::
  "'f writer \<Rightarrow> (lease_mem \<Rightarrow> 8 word list list) \<Rightarrow> string \<Rightarrow> ('f lease_cache, io_error, lease) comp" where
  "remove_lease wr json mac_addr c =
     (case fmlookup (lc_mem c) mac_addr of
        None \<Rightarrow> (Ok empty_lease, c)
      | Some [] \<Rightarrow> (Panic, c)
      | Some (lease # _) \<Rightarrow>
          bindc (save_memory_to_fs wr json) (\<lambda>_. retc lease)
            (c\<lparr>lc_mem := fmdrop mac_addr (lc_mem c)\<rparr>))"

definition cache_teardown ::
  "'f writer \<Rightarrow> (lease_mem \<Rightarrow> 8 word list list) \<Rightarrow> ('f lease_cache, io_error, unit) comp" where
  "cache_teardown wr json c = save_memory_to_fs wr json (c\<lparr>lc_mem := fmempty\<rparr>)"

definition cache_len :: "'f lease_cache \<Rightarrow> nat" where
  "cache_len c = fcard (fmdom (lc_mem c))"

definition cache_is_empty :: "'f lease_cache \<Rightarrow> bool" where
  "cache_is_empty c = (if cache_len c < 1 then True else False)"

section \<open>Properties\<close>

subsection \<open>The cache implements a map from hardware addresses to leases\<close>

datatype cache_op = AddLease string lease | UpdateLease string lease | RemoveLease string | Teardown

fun run_op :: "'f writer \<Rightarrow> (lease_mem \<Rightarrow> 8 word list list) \<Rightarrow> cache_op \<Rightarrow> 'f lease_cache \<Rightarrow> 'f lease_cache" where
  "run_op wr json (AddLease mac l) c = snd (add_lease wr json mac l c)"
| "run_op wr json (UpdateLease mac l) c = snd (update_lease wr json mac l c)"
| "run_op wr json (RemoveLease mac) c = snd (remove_lease wr json mac c)"
| "run_op wr json Teardown c = snd (cache_teardown wr json c)"

fun map_op :: "cache_op \<Rightarrow> (string \<rightharpoonup> lease) \<Rightarrow> (string \<rightharpoonup> lease)" where
  "map_op (AddLease mac l) m = m(mac \<mapsto> l)"
| "map_op (UpdateLease mac l) m = m(mac \<mapsto> l)"
| "map_op (RemoveLease mac) m = m(mac := None)"
| "map_op Teardown m = Map.empty"

definition leases :: "'f lease_cache \<Rightarrow> string \<rightharpoonup> lease" where
  "leases c mac = map_option hd (fmlookup (lc_mem c) mac)"

definition one_each :: "'f lease_cache \<Rightarrow> bool" where
  "one_each c = fmpred (\<lambda>_ l. length l = 1) (lc_mem c)"

lemma save_mem [simp]: "lc_mem (snd (save_memory_to_fs wr json c)) = lc_mem c"
  by (simp add: save_memory_to_fs_def split: prod.split)

lemma save_seq_mem [simp]: "lc_mem (snd (bindc (save_memory_to_fs wr json) (\<lambda>_. retc x) c)) = lc_mem c"
  using save_mem[of wr json c]
  by (cases "save_memory_to_fs wr json c") (auto simp: comp_defs split: res.split)

lemma run_op_one_each: "one_each c \<Longrightarrow> one_each (run_op wr json op c)"
  by (cases op) (auto simp: one_each_def add_lease_def update_lease_def remove_lease_def
    cache_teardown_def split: option.split list.split)

lemma leases_eqI: "lc_mem c = m \<Longrightarrow> leases c = (\<lambda>mac. map_option hd (fmlookup m mac))"
  by (simp add: leases_def fun_eq_iff)

lemma run_op_leases: "one_each c \<Longrightarrow> leases (run_op wr json op c) = map_op op (leases c)"
  by (cases op) (auto simp: one_each_def add_lease_def update_lease_def remove_lease_def leases_def
    cache_teardown_def fun_eq_iff split: option.split list.split dest: fmpredD)

lemma run_ops_spec:
  "one_each c \<Longrightarrow> one_each (fold (run_op wr json) ops c) \<and>
     leases (fold (run_op wr json) ops c) = fold map_op ops (leases c)"
  by (induction ops arbitrary: c) (simp_all add: run_op_one_each run_op_leases)

lemma cache_len_leases: "cache_len c = card (dom (leases c))"
proof -
  have "dom (leases c) = fset (fmdom (lc_mem c))"
    by (auto simp: leases_def dom_def fmlookup_dom_iff)
  then show ?thesis by (simp add: cache_len_def fcard.rep_eq)
qed

lemma cache_is_empty_leases: "cache_is_empty c \<longleftrightarrow> leases c = Map.empty"
proof -
  have "finite (dom (leases c))"
    by (rule finite_subset[of _ "fset (fmdom (lc_mem c))"]) (auto simp: leases_def fmlookup_dom_iff)
  then show ?thesis by (auto simp: cache_is_empty_def cache_len_leases card_eq_0_iff dom_eq_empty_conv)
qed

lemma one_each_lookup: "one_each c \<Longrightarrow> fmlookup (lc_mem c) mac = map_option (\<lambda>l. [l]) (leases c mac)"
  by (cases "fmlookup (lc_mem c) mac") (auto simp: one_each_def leases_def length_Suc_conv dest: fmpredD)

text \<open>
  C12: whatever the writer does, and whether or not its operations fail, the cache in memory is a
  map from hardware addresses to leases: a lease that was added or updated is found until it is
  removed or the cache is torn down, it is the only lease in the list of its address, and the cache
  counts the addresses that have one.
\<close>

theorem cache_refines_map:
  "fmlookup (lc_mem (fold (run_op wr json) ops (cache_new f))) =
     (\<lambda>mac. map_option (\<lambda>l. [l]) (fold map_op ops Map.empty mac))
   \<and> cache_len (fold (run_op wr json) ops (cache_new f)) = card (dom (fold map_op ops Map.empty))"
proof -
  let ?c = "fold (run_op wr json) ops (cache_new f)"
  have "one_each (cache_new f)" and "leases (cache_new f) = Map.empty"
    by (simp_all add: one_each_def cache_new_def leases_def fun_eq_iff)
  then have "one_each ?c" and "leases ?c = fold map_op ops Map.empty"
    using run_ops_spec by metis+
  then show ?thesis by (auto simp: cache_len_leases one_each_lookup)
qed

subsection \<open>What the writer holds\<close>

text \<open>
  What the cache relies on of its writer: clearing leaves it empty and ready to be written from the
  start, and a write goes to the end of what was written since.
\<close>

locale lease_writer =
  fixes wr :: "'f writer" and content :: "'f \<Rightarrow> 8 word list" and at_end :: "'f \<Rightarrow> bool"
  assumes clear_empty: "\<exists>f'. wr_clear wr f = (Ok (), f') \<and> content f' = [] \<and> at_end f'"
    and write_appends: "at_end f \<Longrightarrow>
          \<exists>f'. wr_write_all wr buf f = (Ok (), f') \<and> content f' = content f @ buf \<and> at_end f'"
    and flush_keeps: "\<exists>f'. wr_flush wr f = (Ok (), f') \<and> content f' = content f"
begin

lemma for_each_appends:
  "at_end f \<Longrightarrow> \<exists>f'. for_each (wr_write_all wr) bufs f = (Ok (), f') \<and> content f' = content f @ concat bufs"
proof (induction bufs arbitrary: f)
  case (Cons buf bufs)
  obtain f1 where "wr_write_all wr buf f = (Ok (), f1)" and "content f1 = content f @ buf" and "at_end f1"
    using write_appends[OF Cons.prems, of buf] by blast
  with Cons.IH[of f1] show ?case by (auto simp: seqc_OkI)
qed simp

lemma save_content:
  "\<exists>f'. save_memory_to_fs wr json c = (Ok (), c\<lparr>lc_writer := f'\<rparr>) \<and> content f' = concat (json (lc_mem c))"
proof -
  obtain f1 where "wr_clear wr (lc_writer c) = (Ok (), f1)" and "content f1 = []" and "at_end f1"
    using clear_empty by blast
  moreover obtain f2 where "for_each (wr_write_all wr) (json (lc_mem c)) f1 = (Ok (), f2)"
    and "content f2 = content f1 @ concat (json (lc_mem c))"
    using for_each_appends[OF \<open>at_end f1\<close>] by blast
  moreover obtain f3 where "wr_flush wr f2 = (Ok (), f3)" and "content f3 = content f2"
    using flush_keeps by blast
  ultimately show ?thesis by (auto simp: save_memory_to_fs_def matchc_OkI seqc_OkI)
qed

definition in_sync :: "(lease_mem \<Rightarrow> 8 word list list) \<Rightarrow> 'f lease_cache \<Rightarrow> bool" where
  "in_sync json c \<longleftrightarrow> content (lc_writer c) = concat (json (lc_mem c))"

lemma save_in_sync: "in_sync json (snd (save_memory_to_fs wr json c))"
  using save_content[of json c] by (auto simp: in_sync_def)

lemma save_bind_in_sync: "in_sync json (snd (bindc (save_memory_to_fs wr json) (\<lambda>_. retc x) c))"
  using save_content[of json c] save_in_sync[of json c] by (auto simp: bindc_OkI retc_def)

lemma add_in_sync: "in_sync json (run_op wr json (AddLease mac l) c)"
  by (simp add: add_lease_def save_in_sync)

lemma run_op_in_sync: "in_sync json c \<Longrightarrow> in_sync json (run_op wr json op c)"
  by (cases op) (auto simp: add_lease_def update_lease_def remove_lease_def cache_teardown_def
    save_in_sync save_bind_in_sync split: option.split list.split)

lemma run_ops_in_sync: "in_sync json c \<Longrightarrow> in_sync json (fold (run_op wr json) ops c)"
  by (induction ops arbitrary: c) (simp_all add: run_op_in_sync)

end

lemma write_at_end: "pos = length bytes \<Longrightarrow> write_at pos buf bytes = bytes @ buf"
  by (simp add: write_at_def)

interpretation cursor: lease_writer cursor_writer cu_bytes "\<lambda>c. cu_pos c = length (cu_bytes c)"
  by unfold_locales (auto simp: cursor_writer_def write_at_end)

text \<open>
  With the cursor, which the tests use in place of a file, the writer holds exactly the
  serialised cache after the first lease was added, whatever operations follow.
\<close>

lemma cursor_holds_cache:
  "let c' = fold (run_op cursor_writer json) (AddLease mac l # ops) c
   in cu_bytes (lc_writer c') = concat (json (lc_mem c'))"
proof -
  have "cursor.in_sync json (fold (run_op cursor_writer json) ops (run_op cursor_writer json (AddLease mac l) c))"
    by (rule cursor.run_ops_in_sync, rule cursor.add_in_sync)
  then show ?thesis by (simp only: cursor.in_sync_def Let_def fold_simps)
qed

subsection \<open>The lease file\<close>

lemma file_writes:
  assumes "lf_fault f = None" and "lf_bytes f = (if d = [] then [] else replicate p 0 @ d)"
    and "lf_pos f = p + length d"
  shows "\<exists>f'. for_each (wr_write_all file_writer) bufs f = (Ok (), f') \<and> lf_fault f' = None \<and>
    lf_pos f' = p + length (d @ concat bufs) \<and>
    lf_bytes f' = (if d @ concat bufs = [] then [] else replicate p 0 @ d @ concat bufs)"
  using assms
proof (induction bufs arbitrary: f d)
  case (Cons buf bufs)
  let ?f1 = "f\<lparr>lf_bytes := write_at (lf_pos f) buf (lf_bytes f), lf_pos := lf_pos f + length buf\<rparr>"
  have w: "wr_write_all file_writer buf f = (Ok (), ?f1)"
    using Cons.prems(1) by (simp add: file_writer_def)
  have "lf_bytes ?f1 = (if d @ buf = [] then [] else replicate p 0 @ d @ buf)"
    using Cons.prems(2,3) by (auto simp: write_at_def)
  moreover have "lf_pos ?f1 = p + length (d @ buf)" using Cons.prems(3) by simp
  moreover have "lf_fault ?f1 = None" using Cons.prems(1) by simp
  ultimately obtain f' where "for_each (wr_write_all file_writer) bufs ?f1 = (Ok (), f')"
    and "lf_fault f' = None" and "lf_pos f' = p + length ((d @ buf) @ concat bufs)"
    and "lf_bytes f' = (if (d @ buf) @ concat bufs = [] then [] else replicate p 0 @ (d @ buf) @ concat bufs)"
    using Cons.IH[of ?f1 "d @ buf"] by blast
  then show ?case using w by (auto simp: seqc_OkI)
qed simp

lemma file_save:
  assumes "lf_fault (lc_writer c) = None" and "concat (json (lc_mem c)) \<noteq> []"
  shows "\<exists>f'. save_memory_to_fs file_writer json c = (Ok (), c\<lparr>lc_writer := f'\<rparr>) \<and> lf_fault f' = None \<and>
    lf_pos f' = lf_pos (lc_writer c) + length (concat (json (lc_mem c))) \<and>
    lf_bytes f' = replicate (lf_pos (lc_writer c)) 0 @ concat (json (lc_mem c))"
proof -
  let ?f1 = "lc_writer c\<lparr>lf_bytes := []\<rparr>"
  have "wr_clear file_writer (lc_writer c) = (Ok (), ?f1)" using assms(1) by (simp add: file_writer_def)
  moreover obtain f' where "for_each (wr_write_all file_writer) (json (lc_mem c)) ?f1 = (Ok (), f')"
    and "lf_fault f' = None" and "lf_pos f' = lf_pos (lc_writer c) + length (concat (json (lc_mem c)))"
    and "lf_bytes f' = replicate (lf_pos (lc_writer c)) 0 @ concat (json (lc_mem c))"
    using file_writes[of ?f1 "[]" "lf_pos (lc_writer c)" "json (lc_mem c)"] assms by (auto split: if_splits)
  moreover have "wr_flush file_writer f' = (Ok (), f')" by (simp add: file_writer_def)
  ultimately show ?thesis
    by (auto simp: save_memory_to_fs_def matchc_OkI seqc_OkI)
qed

definition fresh_file :: lease_file where
  "fresh_file = \<lparr>lf_bytes = [], lf_pos = 0, lf_fault = None\<rparr>"

text \<open>
  The lease file is emptied but its handle is not moved back, so from the second change on the
  file starts with as many zero bytes as were written before, and is no longer the serialised cache.
\<close>

lemma lease_file_gap:
  assumes "m1 = fmupd mac1 [l1] fmempty" and "m2 = fmupd mac2 [l2] m1"
    and "concat (json m1) \<noteq> []" and "concat (json m2) \<noteq> []"
  shows "lf_bytes (lc_writer (fold (run_op file_writer json) [AddLease mac1 l1, AddLease mac2 l2] (cache_new fresh_file)))
           = replicate (length (concat (json m1))) 0 @ concat (json m2)"
proof -
  obtain f1 where s1: "save_memory_to_fs file_writer json (cache_new fresh_file\<lparr>lc_mem := m1\<rparr>) =
      (Ok (), \<lparr>lc_mem = m1, lc_writer = f1\<rparr>)" and "lf_fault f1 = None"
    and "lf_pos f1 = length (concat (json m1))"
    using file_save[of "cache_new fresh_file\<lparr>lc_mem := m1\<rparr>" json] assms(3)
    by (auto simp: cache_new_def fresh_file_def)
  then show ?thesis
    using file_save[of "\<lparr>lc_mem = m2, lc_writer = f1\<rparr>" json] assms(1,2,4)
    by (auto simp: add_lease_def cache_new_def)
qed

text \<open>A serialiser of one byte per address and the gap it leaves.\<close>

definition json_ref :: "lease_mem \<Rightarrow> 8 word list list" where
  "json_ref m = [[123], replicate (fcard (fmdom m)) 34, [125]]"

lemma lease_file_gap_example:
  "lf_bytes (lc_writer (fold (run_op file_writer json_ref)
      [AddLease ''aa'' empty_lease, AddLease ''bb'' empty_lease] (cache_new fresh_file)))
    = [0, 0, 0, 123, 34, 34, 125]"
  using lease_file_gap[OF refl refl, of json_ref "''aa''" empty_lease "''bb''" empty_lease]
  by (simp add: json_ref_def fcard_finsert_disjoint fcard.rep_eq)

end
