(* ===== verification/Dhcp_Service.thy ===== *)
theory Dhcp_Service
  imports Lease_Cache
begin

text \<open>
  \<^verbatim>\<open>src/dhcp_proxy/dhcp_service.rs\<close>: finding and releasing a lease with the DHCP library.
  The library is the record \<open>mozim\<close>: it initialises a client for an interface, a hardware
  address and a timeout, waits for the next item of the client's stream, and prints its errors.
\<close>

section \<open>The DHCP library\<close>

datatype mozim_kind = MzInvalidArgument | MzBug

datatype dhcp_error = DhcpError (dhe_kind: mozim_kind) (dhe_msg: string)

record 'w mozim =
  mz_init :: "string \<Rightarrow> string \<Rightarrow> 32 word \<Rightarrow> ('w, string, int) comp"
  mz_next :: "int \<Rightarrow> ('w, string, (string, dhcp_v4_lease) res option) comp"
  mz_default :: dhcp_v4_lease
  mz_error_text :: "dhcp_error \<Rightarrow> string"

section \<open>The service\<close>

datatype dhcp_service_error_kind =
    SvTimeout | SvInvalidArgument | SvInvalidDhcpServerReply | SvNoLease | SvBug | SvLeaseExpired
  | SvUnimplemented

datatype dhcp_service_error = ServiceError (sve_kind: dhcp_service_error_kind) (sve_msg: string)

datatype dhcp_client = V4Client int | V6Client

record dhcp_service =
  ds_client :: "dhcp_client option"
  ds_network_config :: network_config

text \<open>\<^verbatim>\<open>IP4Conv\<close> and \<^verbatim>\<open>IP6Conv\<close>.\<close>

definition ip4_conv :: "ip_addr \<Rightarrow> ipv4_addr" where
  "ip4_conv ip = (case ip of V4 ipv4 \<Rightarrow> ipv4 | V6 _ \<Rightarrow> Ipv4Addr 0 0 0 0)"

definition ip6_conv :: "ip_addr \<Rightarrow> ipv6_addr" where
  "ip6_conv ip = (case ip of V6 ipv6 \<Rightarrow> ipv6 | V4 _ \<Rightarrow> Ipv6Addr 0 0 0 0 0 0 0 0)"

text \<open>Version 1 is \<^verbatim>\<open>unimplemented!()\<close>.\<close>

definition create_client ::
  "'w mozim \<Rightarrow> network_config \<Rightarrow> 32 word \<Rightarrow> ('w, dhcp_service_error, dhcp_client) comp" where
  "create_client mz nc timeout =
     (if nc_version nc = 0
      then matchc (mz_init mz (nc_host_iface nc) (nc_container_mac_addr nc) timeout)
             (\<lambda>client. retc (V4Client client)) (\<lambda>err. failc (ServiceError SvInvalidArgument err))
      else if nc_version nc = 1 then liftc Panic
      else failc (ServiceError SvInvalidArgument ''Must select a valid IP protocol 0=v4, 1=v6''))"

definition service_new ::
  "'w mozim \<Rightarrow> network_config \<Rightarrow> 32 word \<Rightarrow> ('w, dhcp_service_error, dhcp_service) comp" where
  "service_new mz nc timeout =
     bindc (create_client mz nc timeout)
       (\<lambda>client. retc \<lparr>ds_client = Some client, ds_network_config = nc\<rparr>)"

definition get_v4_lease ::
  "'w mozim \<Rightarrow> network_config \<Rightarrow> int \<Rightarrow> ('w, dhcp_service_error, lease) comp" where
  "get_v4_lease mz nc client =
     matchc (mz_next mz client)
       (\<lambda>item. case item of
          Some (Ok lease) \<Rightarrow>
            retc (add_mac_address (nc_container_mac_addr nc)
                    (add_domain_name (nc_domain_name nc) (lease_from_mozim lease)))
        | _ \<Rightarrow> failc (ServiceError SvTimeout ''Could not find a lease within the timeout limit''))
       (\<lambda>_. failc (ServiceError SvTimeout ''Could not find a lease within the timeout limit''))"

definition get_v6_lease :: "('w, dhcp_service_error, lease) comp" where
  "get_v6_lease = failc (ServiceError SvBug ''ipv6 dhcp requests are unimplemented.'')"

definition service_get_lease :: "'w mozim \<Rightarrow> dhcp_service \<Rightarrow> ('w, dhcp_service_error, lease) comp" where
  "service_get_lease mz self =
     (case ds_client self of
        Some (V4Client v4_client) \<Rightarrow> get_v4_lease mz (ds_network_config self) v4_client
      | Some V6Client \<Rightarrow> get_v6_lease
      | None \<Rightarrow> failc (ServiceError SvBug ''Could not initiate dhcp client''))"

definition release_v6_lease :: "(dhcp_error, unit) res" where
  "release_v6_lease = Err (DhcpError MzBug ''not implemented'')"

definition service_release_lease :: "'w mozim \<Rightarrow> dhcp_service \<Rightarrow> lease \<Rightarrow> (dhcp_error, unit) res" where
  "service_release_lease mz self lease =
     (case ds_client self of
        Some (V4Client _) \<Rightarrow>
          bind_res (map_err (DhcpError MzInvalidArgument) (mozim_try_from (mz_default mz) lease)) (\<lambda>_. Ok ())
      | Some V6Client \<Rightarrow> release_v6_lease
      | None \<Rightarrow> Ok ())"

definition service_status :: "dhcp_service_error \<Rightarrow> status" where
  "service_status err =
     (case sve_kind err of
        SvTimeout \<Rightarrow> Status CodeAborted (sve_msg err)
      | SvInvalidArgument \<Rightarrow> Status CodeInvalidArgument (sve_msg err)
      | SvNoLease \<Rightarrow> Status CodeNotFound (sve_msg err)
      | SvBug \<Rightarrow> Status CodeInternal (sve_msg err)
      | _ \<Rightarrow> Status CodeInternal (sve_msg err))"

section \<open>Properties\<close>

text \<open>A lease the service found can be released; the blank lease cannot.\<close>

lemma found_lease_releasable:
  "service_release_lease mz \<lparr>ds_client = Some (V4Client c), ds_network_config = nc\<rparr>
     (add_mac_address mac (add_domain_name domain (lease_from_mozim l))) = Ok ()"
  by (simp add: service_release_lease_def mozim_try_from_def lease_conversion_simps
    add_mac_address_def add_domain_name_def)

lemma parse_ipv4_empty: "parse_ipv4 [] = Err ''invalid IPv4 address syntax''"
  by code_simp

lemma blank_lease_not_releasable:
  "service_release_lease mz \<lparr>ds_client = Some (V4Client c), ds_network_config = nc\<rparr> empty_lease =
     Err (DhcpError MzInvalidArgument ''invalid IPv4 address syntax'')"
  by (simp add: service_release_lease_def mozim_try_from_def empty_lease_def u16_try_from_def parse_ipv4_empty)

end
