(* ===== verification/Dhcp_Proxy.thy ===== *)
theory Dhcp_Proxy
  imports Dhcp_Service Macvlan_Dhcp
begin

text \<open>
  \<^verbatim>\<open>src/commands/dhcp_proxy.rs\<close>: the requests the proxy serves, the inactivity timeout that
  ends it, and the command that runs it.

  A request runs over the lease cache, the queue of the activity channel and the rest of the machine
  (\<open>proxy\<close>).  Every access to the cache holds its lock, so the requests are interleaved at
  whole cache operations; each handler performs one.  A client may go away at the points the source
  watches for it (\<open>disconnect\<close>); one that goes away while the proxy waits for a lease has
  left before anything was cached.
\<close>

section \<open>State and environment\<close>

record ('f, 'w) proxy =
  px_cache :: "'f lease_cache"
  px_queue :: nat
  px_world :: 'w

record ('f, 'w) proxy_env =
  pe_writer :: "'f writer"
  pe_json :: "lease_mem \<Rightarrow> 8 word list list"
  pe_mozim :: "'w mozim"
  pe_os :: "'w os"
  pe_lib :: ipnet_lib
  pe_show_status :: "status \<Rightarrow> string"
  pe_mac_ok :: "string \<Rightarrow> bool"
  pe_io_status :: "io_error \<Rightarrow> status"
  pe_join_text :: string
  pe_dora_timeout :: "32 word"
  pe_inactivity :: "64 word"

definition on_cache :: "('f lease_cache, 'e, 'a) comp \<Rightarrow> (('f, 'w) proxy, 'e, 'a) comp" where
  "on_cache m px = (case m (px_cache px) of (r, c) \<Rightarrow> (r, px\<lparr>px_cache := c\<rparr>))"

definition on_world :: "('w, 'e, 'a) comp \<Rightarrow> (('f, 'w) proxy, 'e, 'a) comp" where
  "on_world m px = (case m (px_world px) of (r, w) \<Rightarrow> (r, px\<lparr>px_world := w\<rparr>))"

section \<open>Requests\<close>

text \<open>A send to the channel, which holds five messages, fails when it is full; this is only logged.\<close>

definition reset_inactivity_timeout :: "('f, 'w) proxy \<Rightarrow> ('f, 'w) proxy" where
  "reset_inactivity_timeout px =
     (if px_queue px < 5 then px\<lparr>px_queue := px_queue px + 1\<rparr> else px)"

text \<open>\<open>start_setup\<close> is the part of \<^verbatim>\<open>process_setup\<close> before the wait for a lease.\<close>

definition start_setup ::
  "('f, 'w) proxy_env \<Rightarrow> network_config \<Rightarrow> (('f, 'w) proxy, status, dhcp_service) comp" where
  "start_setup env nc =
     (if nc_container_mac_addr nc = [] then failc (Status CodeInvalidArgument ''No mac address provided'')
      else if \<not> pe_mac_ok env (nc_container_mac_addr nc)
      then failc (Status CodeInvalidArgument ''Invalid mac address'')
      else on_world (map_errc service_status (service_new (pe_mozim env) nc (pe_dora_timeout env))))"

definition finish_setup ::
  "('f, 'w) proxy_env \<Rightarrow> network_config \<Rightarrow> lease \<Rightarrow> (('f, 'w) proxy, status, lease) comp" where
  "finish_setup env nc nv_lease =
     matchc (on_cache (add_lease (pe_writer env) (pe_json env) (nc_container_mac_addr nc) nv_lease))
       (\<lambda>_. seqc (on_world (map_errc proxy_status
                    (ip_setup (pe_show_status env) (pe_os env) (pe_lib env) nv_lease
                       (nc_container_iface nc) (nc_ns_path nc))))
               (retc nv_lease))
       (\<lambda>e. failc (Status CodeInternal (''Error caching the lease: '' @ ioe_msg e)))"

definition process_setup ::
  "('f, 'w) proxy_env \<Rightarrow> network_config \<Rightarrow> (('f, 'w) proxy, status, lease) comp" where
  "process_setup env nc =
     bindc (start_setup env nc) (\<lambda>service.
     bindc (on_world (map_errc service_status (service_get_lease (pe_mozim env) service))) (\<lambda>nv_lease.
     finish_setup env nc nv_lease))"

datatype disconnect = Stays | GoneBefore | GoneDuring | GoneAfter

definition client_disconnected :: status where
  "client_disconnected = Status CodeAborted ''client disconnected''"

text \<open>A panic of the task that runs the request is an error of joining it.\<close>

definition join_task :: "string \<Rightarrow> ('s, status, 'a) comp \<Rightarrow> ('s, status, 'a) comp" where
  "join_task txt m s = (case m s of (Panic, s') \<Rightarrow> (Err (Status CodeUnknown txt), s') | other \<Rightarrow> other)"

definition proxy_setup ::
  "('f, 'w) proxy_env \<Rightarrow> disconnect \<Rightarrow> network_config \<Rightarrow> (('f, 'w) proxy, status, lease) comp" where
  "proxy_setup env gone nc px =
        join_task (pe_join_text env)
          (case gone of
             Stays \<Rightarrow> process_setup env nc
           | GoneBefore \<Rightarrow> failc client_disconnected
           | GoneDuring \<Rightarrow> bindc (start_setup env nc) (\<lambda>_. failc client_disconnected)
           | GoneAfter \<Rightarrow> bindc (process_setup env nc) (\<lambda>_. failc client_disconnected))
          (reset_inactivity_timeout px)"

definition proxy_teardown ::
  "('f, 'w) proxy_env \<Rightarrow> network_config \<Rightarrow> (('f, 'w) proxy, status, lease) comp" where
  "proxy_teardown env nc px =
       bindc (map_errc (\<lambda>e. Status CodeInternal (ioe_msg e))
               (on_cache (remove_lease (pe_writer env) (pe_json env) (nc_container_mac_addr nc)))) (\<lambda>lease.
       bindc (on_world (map_errc service_status (service_new (pe_mozim env) nc (pe_dora_timeout env)))) (\<lambda>service.
       bindc (liftc (map_err (\<lambda>e. Status CodeInternal (mz_error_text (pe_mozim env) e))
               (service_release_lease (pe_mozim env) service lease))) (\<lambda>_.
       retc lease))) (reset_inactivity_timeout px)"

definition proxy_clean :: "('f, 'w) proxy_env \<Rightarrow> (('f, 'w) proxy, status, bool) comp" where
  "proxy_clean env =
     bindc (map_errc (pe_io_status env) (on_cache (cache_teardown (pe_writer env) (pe_json env)))) (\<lambda>_. retc True)"

section \<open>The inactivity timeout\<close>

definition is_catch_empty :: "('f, 'w) proxy \<Rightarrow> bool" where
  "is_catch_empty px = cache_is_empty (px_cache px)"

datatype wake = Activity | ChannelClosed | Elapsed

text \<open>One turn of the loop of \<^verbatim>\<open>handle_wakeup\<close>: whether it goes on.\<close>

definition handle_wakeup_turn :: "wake \<Rightarrow> ('f, 'w) proxy \<Rightarrow> bool" where
  "handle_wakeup_turn wake px =
     (case wake of
        Activity \<Rightarrow> True
      | ChannelClosed \<Rightarrow> False
      | Elapsed \<Rightarrow> \<not> is_catch_empty px)"

text \<open>
  The server: requests interleave with the turns of the loop.  A message that waits in the channel
  is received before the timeout can elapse; the sender is kept by the command itself, so the channel
  is not closed while the server runs.  A timeout of 0 means never: the loop then does not run.
\<close>

record ('f, 'w) server =
  sv_proxy :: "('f, 'w) proxy"
  sv_running :: bool

inductive serve_step :: "('f, 'w) proxy_env \<Rightarrow> ('f, 'w) server \<Rightarrow> ('f, 'w) server \<Rightarrow> bool" for env where
  step_setup: "sv_running s \<Longrightarrow> proxy_setup env gone nc (sv_proxy s) = (r, px) \<Longrightarrow>
     serve_step env s (s\<lparr>sv_proxy := px\<rparr>)"
| step_teardown: "sv_running s \<Longrightarrow> proxy_teardown env nc (sv_proxy s) = (r, px) \<Longrightarrow>
     serve_step env s (s\<lparr>sv_proxy := px\<rparr>)"
| step_clean: "sv_running s \<Longrightarrow> proxy_clean env (sv_proxy s) = (r, px) \<Longrightarrow>
     serve_step env s (s\<lparr>sv_proxy := px\<rparr>)"
| step_activity: "sv_running s \<Longrightarrow> 0 < pe_inactivity env \<Longrightarrow> px_queue (sv_proxy s) = Suc n \<Longrightarrow>
     serve_step env s (s\<lparr>sv_proxy := (sv_proxy s)\<lparr>px_queue := n\<rparr>,
                        sv_running := handle_wakeup_turn Activity (sv_proxy s)\<rparr>)"
| step_elapsed: "sv_running s \<Longrightarrow> 0 < pe_inactivity env \<Longrightarrow> px_queue (sv_proxy s) = 0 \<Longrightarrow>
     serve_step env s (s\<lparr>sv_running := handle_wakeup_turn Elapsed (sv_proxy s)\<rparr>)"

inductive_cases serve_stepE: "serve_step env s s'"

text \<open>The task that waits for a signal to stop: it removes the socket and exits.\<close>

definition handle_signal :: "(string \<Rightarrow> ('w, io_error, unit) comp) \<Rightarrow> string \<Rightarrow> ('w, netavark_error, int) comp" where
  "handle_signal remove_file uds_path =
     matchc (remove_file uds_path) (\<lambda>_. retc 0x0100) (\<lambda>_. retc 0x0100)"

definition server_new :: "'f \<Rightarrow> 'w \<Rightarrow> ('f, 'w) server" where
  "server_new f w = \<lparr>sv_proxy = \<lparr>px_cache = cache_new f, px_queue = 0, px_world = w\<rparr>, sv_running = True\<rparr>"

section \<open>The command\<close>

record proxy_opts =
  po_dir :: "string option"
  po_uds :: "string option"
  po_timeout :: "32 word option"
  po_activity_timeout :: "64 word option"

text \<open>
  The calls of the command.  \<open>sy_run\<close> is the race between the server and the inactivity
  timeout, whose steps are \<open>serve_step\<close>; \<open>sy_watch_signals\<close> starts the task that
  removes the socket and exits when the process is told to stop.
\<close>

record 'w serve_sys =
  sy_env :: "string \<rightharpoonup> string"
  sy_systemd_socket :: "('w, io_error, unit) comp"
  sy_create_dir_all :: "string \<Rightarrow> ('w, io_error, unit) comp"
  sy_watch_signals :: "string \<Rightarrow> ('w, netavark_error, unit) comp"
  sy_bind :: "string \<Rightarrow> ('w, io_error, unit) comp"
  sy_create :: "string \<Rightarrow> ('w, io_error, unit) comp"
  sy_run :: "32 word \<Rightarrow> 64 word \<Rightarrow> ('w, netavark_error, unit) comp"
  sy_remove_file :: "string \<Rightarrow> ('w, io_error, unit) comp"

text \<open>\<^verbatim>\<open>Path::parent\<close>: everything before the last component.\<close>

definition path_parent :: "string \<Rightarrow> string option" where
  "path_parent p =
     (let slash = (\<lambda>c. c = CHR ''/'');
          rest = dropWhile (\<lambda>c. \<not> slash c) (dropWhile slash (rev p))
      in if list_all slash p then None
         else Some (if rest \<noteq> [] \<and> list_all slash rest then ''/'' else rev (dropWhile slash rest)))"

definition proxy_listener :: "'w serve_sys \<Rightarrow> string \<Rightarrow> ('w, bool) ncomp" where
  "proxy_listener sy uds_path =
     (case sy_env sy ''LISTEN_FDS'' of
        Some effds \<Rightarrow>
          if effds \<noteq> ''1'' then failc (Message ''Received more than one FD from systemd'')
          else seqc (map_errc Io (sy_systemd_socket sy)) (retc True)
      | None \<Rightarrow>
          (case path_parent uds_path of
             None \<Rightarrow> failc (Message ''Could not get parent from uds path'')
           | Some f \<Rightarrow>
               seqc (map_errc Io (sy_create_dir_all sy f))
              (seqc (sy_watch_signals sy uds_path)
              (seqc (map_errc Io (sy_bind sy uds_path)) (retc False)))))"

definition serve :: "'w serve_sys \<Rightarrow> proxy_opts \<Rightarrow> ('w, unit) ncomp" where
  "serve sy opts =
     (let uds_path = get_proxy_sock_fqname (sy_env sy) (po_dir opts);
          dora_timeout = (case po_timeout opts of Some t \<Rightarrow> t | None \<Rightarrow> DEFAULT_TIMEOUT);
          inactivity = (case po_activity_timeout opts of Some t \<Rightarrow> t | None \<Rightarrow> DEFAULT_INACTIVITY_TIMEOUT)
      in bindc (proxy_listener sy uds_path) (\<lambda>is_systemd_activated.
         seqc (map_errc (\<lambda>e. Message (''Exiting. Could not create lease cache file: '' @ ioe_msg e))
                 (sy_create sy (get_cache_fqname (sy_env sy) (po_dir opts))))
        (seqc (sy_run sy dora_timeout inactivity)
           (if \<not> is_systemd_activated then map_errc Io (sy_remove_file sy uds_path) else retc ()))))"

section \<open>Properties\<close>

subsection \<open>What a request does to the cache\<close>

text \<open>A computation that leaves the leases and the queue alone.\<close>

definition keeps_leases :: "(('f, 'w) proxy, 'e, 'a) comp \<Rightarrow> bool" where
  "keeps_leases m = reads (\<lambda>px. (px_cache px, px_queue px)) m"

lemma on_world_keeps: "keeps_leases (on_world m)"
  by (simp add: keeps_leases_def reads_def on_world_def split: prod.split)

lemma start_setup_keeps: "keeps_leases (start_setup env nc)"
  by (simp add: start_setup_def keeps_leases_def reads_if on_world_keeps[unfolded keeps_leases_def])

lemma keepsD: "keeps_leases m \<Longrightarrow> m px = (r, px') \<Longrightarrow> px_cache px' = px_cache px \<and> px_queue px' = px_queue px"
  unfolding keeps_leases_def by (drule (1) readsD) simp

lemma keeps_bindc: "keeps_leases m \<Longrightarrow> (\<And>x. keeps_leases (f x)) \<Longrightarrow> keeps_leases (bindc m f)"
  unfolding keeps_leases_def by (rule reads_bindc)

lemma on_cache_add:
  "on_cache (add_lease wr json mac l) px = (r, px') \<Longrightarrow>
     px_cache px' = run_op wr json (AddLease mac l) (px_cache px) \<and> px_queue px' = px_queue px \<and> px_world px' = px_world px"
  by (auto simp: on_cache_def split: prod.splits)

lemma finish_setup_cache:
  assumes "finish_setup env nc l px = (r, px')"
  shows "px_cache px' = run_op (pe_writer env) (pe_json env) (AddLease (nc_container_mac_addr nc) l) (px_cache px)
    \<and> px_queue px' = px_queue px \<and> (\<forall>x. r = Ok x \<longrightarrow> x = l)"
proof -
  obtain r1 px1 where add: "on_cache (add_lease (pe_writer env) (pe_json env) (nc_container_mac_addr nc) l) px = (r1, px1)"
    by fastforce
  note on_cache_add[OF add]
  moreover have "px_cache px' = px_cache px1 \<and> px_queue px' = px_queue px1 \<and> (\<forall>x. r = Ok x \<longrightarrow> x = l)"
    using assms add
    by (cases r1) (auto simp: finish_setup_def matchc_def seqc_Ok_iff elim!: seqc_cases dest!: keepsD[OF on_world_keeps])
  ultimately show ?thesis by simp
qed


lemma get_lease_mac:
  assumes "service_new mz nc t w = (Ok sv, w1)" and "service_get_lease mz sv w1 = (Ok l, w2)"
  shows "\<exists>m. l = add_mac_address (nc_container_mac_addr nc) (add_domain_name (nc_domain_name nc) (lease_from_mozim m))"
  using assms
  by (auto simp: service_new_def comp_Ok service_get_lease_def get_v4_lease_def get_v6_lease_def matchc_def
    split: prod.splits res.splits option.splits dhcp_client.splits)

lemma process_setup_cases:
  assumes "process_setup env nc px = (r, px')"
  obtains (kept) "px_cache px' = px_cache px" and "px_queue px' = px_queue px" and "\<not> is_ok r"
  | (added) m l where "l = add_mac_address (nc_container_mac_addr nc) (add_domain_name (nc_domain_name nc) (lease_from_mozim m))"
      and "px_cache px' = run_op (pe_writer env) (pe_json env) (AddLease (nc_container_mac_addr nc) l) (px_cache px)"
      and "px_queue px' = px_queue px" and "\<And>x. r = Ok x \<Longrightarrow> x = l"
  using assms[unfolded process_setup_def]
proof (cases rule: bindc_cases)
  case (cont sv px1)
  note k1 = keepsD[OF start_setup_keeps cont(1)]
  from cont(2) show ?thesis
  proof (cases rule: bindc_cases)
    case (cont l px2)
    note k2 = keepsD[OF on_world_keeps cont(1)]
    have "\<exists>m. l = add_mac_address (nc_container_mac_addr nc) (add_domain_name (nc_domain_name nc) (lease_from_mozim m))"
      using cont(1) \<open>start_setup env nc px = (Ok sv, px1)\<close>
      by (auto simp: start_setup_def on_world_def comp_Ok split: if_splits prod.splits dest!: get_lease_mac)
    then show ?thesis
      using finish_setup_cache[OF cont(2)] k1 k2 that(2) by metis
  next
    case (stop r1)
    then show ?thesis using keepsD[OF on_world_keeps stop(1)] k1 that(1) by simp
  qed
next
  case (stop r1)
  then show ?thesis using keepsD[OF start_setup_keeps stop(1)] that(1) by simp
qed


subsection \<open>The server as a state machine\<close>

text \<open>A request changes the cache by cache operations only and never overfills the channel.\<close>

definition serves :: "('f, 'w) proxy_env \<Rightarrow> ('f, 'w) proxy \<Rightarrow> ('f, 'w) proxy \<Rightarrow> bool" where
  "serves env px px' \<longleftrightarrow>
     (\<exists>ops. px_cache px' = fold (run_op (pe_writer env) (pe_json env)) ops (px_cache px))
     \<and> (px_queue px \<le> 5 \<longrightarrow> px_queue px' \<le> 5)"

lemma serves_refl: "px_cache px' = px_cache px \<Longrightarrow> px_queue px' = px_queue px \<Longrightarrow> serves env px px'"
  unfolding serves_def using fold_Nil by (metis id_apply)

lemma serves_op:
  "px_cache px' = run_op (pe_writer env) (pe_json env) op (px_cache px) \<Longrightarrow> px_queue px' = px_queue px \<Longrightarrow>
     serves env px px'"
  unfolding serves_def by (rule conjI, rule exI[of _ "[op]"]) simp_all

lemma serves_trans: "serves env px px1 \<Longrightarrow> serves env px1 px2 \<Longrightarrow> serves env px px2"
  unfolding serves_def by (metis fold_append comp_apply)

lemma reset_serves: "serves env px (reset_inactivity_timeout px)"
  unfolding serves_def by (rule conjI, rule exI[of _ "[]"]) (simp_all add: reset_inactivity_timeout_def)

lemma process_setup_serves: "serves env px (snd (process_setup env nc px))"
proof (cases "process_setup env nc px")
  case (Pair r px')
  from Pair have "serves env px px'"
    by (cases rule: process_setup_cases) (blast intro: serves_refl serves_op)+
  with Pair show ?thesis by simp
qed

lemma start_setup_serves: "serves env px (snd (start_setup env nc px))"
  by (cases "start_setup env nc px") (auto intro: serves_refl dest: keepsD[OF start_setup_keeps])

lemma join_task_snd: "snd (join_task txt m s) = snd (m s)"
  by (simp add: join_task_def split: prod.split res.split)

lemma bindc_fail_snd: "snd (bindc m (\<lambda>_. failc e) w) = snd (m w)"
  by (simp add: comp_defs split: prod.split res.split)

lemma proxy_setup_serves: "serves env px (snd (proxy_setup env gone nc px))"
proof -
  let ?px1 = "reset_inactivity_timeout px"
  have "serves env ?px1 (snd (proxy_setup env gone nc px))"
    unfolding proxy_setup_def join_task_snd
    by (cases gone) (simp_all add: bindc_fail_snd failc_def serves_refl process_setup_serves start_setup_serves)
  with reset_serves serves_trans show ?thesis by blast
qed

lemma proxy_teardown_cache:
  assumes "proxy_teardown env nc px = (r, px')"
  shows "px_cache px' = run_op (pe_writer env) (pe_json env) (RemoveLease (nc_container_mac_addr nc)) (px_cache px)
    \<and> px_queue px' = px_queue (reset_inactivity_timeout px)
    \<and> (\<forall>l. r = Ok l \<longrightarrow> fst (remove_lease (pe_writer env) (pe_json env) (nc_container_mac_addr nc) (px_cache px)) = Ok l)"
proof -
  let ?px1 = "reset_inactivity_timeout px"
  let ?rm = "on_cache (remove_lease (pe_writer env) (pe_json env) (nc_container_mac_addr nc)) ?px1"
  let ?rest = "\<lambda>l. bindc (on_world (map_errc service_status (service_new (pe_mozim env) nc (pe_dora_timeout env)))) (\<lambda>service.
       bindc (liftc (map_err (\<lambda>e. Status CodeInternal (mz_error_text (pe_mozim env) e))
               (service_release_lease (pe_mozim env) service l))) (\<lambda>_. retc l))"
  have keeps: "keeps_leases (?rest l)" for l
    by (intro keeps_bindc on_world_keeps) (simp_all add: keeps_leases_def)
  have "px_cache px' = px_cache (snd ?rm) \<and> px_queue px' = px_queue (snd ?rm) \<and> (\<forall>l. r = Ok l \<longrightarrow> fst ?rm = Ok l)"
    using assms[unfolded proxy_teardown_def]
  proof (cases rule: bindc_cases)
    case (cont l px2)
    from cont(2) have "r = Ok x \<Longrightarrow> x = l" for x by (auto simp: comp_Ok)
    moreover from cont(1) have "?rm = (Ok l, px2)" by (simp add: map_errc_Ok_iff)
    ultimately show ?thesis using keepsD[OF keeps cont(2)] by auto
  next
    case (stop r1)
    then show ?thesis by (metis is_ok.simps(1) map_errc_snd snd_conv)
  qed
  moreover have "px_cache ?px1 = px_cache px" by (simp add: reset_inactivity_timeout_def)
  ultimately show ?thesis by (simp add: on_cache_def split: prod.splits)
qed

lemma proxy_teardown_serves: "serves env px (snd (proxy_teardown env nc px))"
proof -
  obtain r px' where run: "proxy_teardown env nc px = (r, px')" by fastforce
  have "px_cache (reset_inactivity_timeout px) = px_cache px" by (simp add: reset_inactivity_timeout_def)
  with proxy_teardown_cache[OF run] have "serves env (reset_inactivity_timeout px) px'"
    by (intro serves_op[of _ _ "RemoveLease (nc_container_mac_addr nc)"]) simp_all
  with reset_serves serves_trans run show ?thesis by fastforce
qed

lemma proxy_clean_serves: "serves env px (snd (proxy_clean env px))"
proof -
  have "snd (proxy_clean env px) = snd (on_cache (cache_teardown (pe_writer env) (pe_json env)) px)"
    by (simp add: proxy_clean_def comp_defs split: prod.split res.split)
  then show ?thesis
    by (auto simp: on_cache_def split: prod.split intro!: serves_op[of _ _ Teardown])
qed


definition server_inv :: "('f, 'w) proxy_env \<Rightarrow> ('f, 'w) server \<Rightarrow> bool" where
  "server_inv env s \<longleftrightarrow> (pe_inactivity env = 0 \<longrightarrow> sv_running s) \<and> one_each (px_cache (sv_proxy s)) \<and> px_queue (sv_proxy s) \<le> 5
     \<and> (sv_running s \<or> leases (px_cache (sv_proxy s)) = Map.empty)"

lemma serves_inv:
  "server_inv env s \<Longrightarrow> sv_running s \<Longrightarrow> serves env (sv_proxy s) px \<Longrightarrow> server_inv env (s\<lparr>sv_proxy := px\<rparr>)"
  by (auto simp: server_inv_def serves_def run_ops_spec)

lemma serve_step_inv: "serve_step env s s' \<Longrightarrow> server_inv env s \<Longrightarrow> server_inv env s'"
proof (induction rule: serve_step.induct)
  case (step_setup s gone nc r px)
  then show ?case using serves_inv proxy_setup_serves by (metis snd_conv)
next
  case (step_teardown s nc r px)
  then show ?case using serves_inv proxy_teardown_serves by (metis snd_conv)
next
  case (step_clean s r px)
  then show ?case using serves_inv proxy_clean_serves by (metis snd_conv)
next
  case (step_activity s n)
  then show ?case by (simp add: server_inv_def handle_wakeup_turn_def)
next
  case (step_elapsed s)
  then show ?case by (auto simp: server_inv_def handle_wakeup_turn_def is_catch_empty_def cache_is_empty_leases)
qed

lemma server_new_inv: "server_inv env (server_new f w)"
  by (simp add: server_inv_def server_new_def cache_new_def one_each_def)

lemma server_reachable_inv: "(serve_step env)\<^sup>*\<^sup>* s s' \<Longrightarrow> server_inv env s \<Longrightarrow> server_inv env s'"
  by (induction rule: rtranclp_induct) (auto intro: serve_step_inv)

text \<open>
  C13: however requests, disconnecting clients and timeouts interleave, the inactivity timeout ends
  the proxy only when no lease is left, and never when it is 0; with nothing left and no activity it
  can end the proxy; the activity channel never holds more than its five messages;
  and every address in the cache has exactly one lease, so that removing it cannot panic.
\<close>

theorem proxy_stops_only_without_leases:
  assumes "(serve_step env)\<^sup>*\<^sup>* (server_new f w) s"
  shows "(\<not> sv_running s \<longrightarrow> leases (px_cache (sv_proxy s)) = Map.empty)
    \<and> px_queue (sv_proxy s) \<le> 5
    \<and> (fmlookup (lc_mem (px_cache (sv_proxy s))) mac = Some v \<longrightarrow> length v = 1)
    \<and> (pe_inactivity env = 0 \<longrightarrow> sv_running s)
    \<and> (sv_running s \<and> 0 < pe_inactivity env \<and> px_queue (sv_proxy s) = 0 \<and> leases (px_cache (sv_proxy s)) = Map.empty \<longrightarrow>
         serve_step env s (s\<lparr>sv_running := False\<rparr>))"
proof -
  have inv: "server_inv env s" using server_reachable_inv[OF assms server_new_inv] .
  have "serve_step env s (s\<lparr>sv_running := False\<rparr>)"
    if "sv_running s" "0 < pe_inactivity env" "px_queue (sv_proxy s) = 0" "leases (px_cache (sv_proxy s)) = Map.empty"
    using step_elapsed[of s env] that
    by (simp add: handle_wakeup_turn_def is_catch_empty_def cache_is_empty_leases)
  with inv show ?thesis by (auto simp: server_inv_def one_each_def dest: fmpredD)
qed

text \<open>
  A proxy whose DHCP library finds one lease, with the cursor as its writer and a machine without
  netlink sockets.
\<close>

definition example_mozim_lease :: dhcp_v4_lease where
  "example_mozim_lease =
     \<lparr>ml_siaddr = Ipv4Addr 10 0 0 1, ml_yiaddr = Ipv4Addr 10 0 0 9, ml_t1 = 30, ml_t2 = 50,
      ml_lease_time = 60, ml_srv_id = Ipv4Addr 10 0 0 1, ml_subnet_mask = Ipv4Addr 255 0 0 0,
      ml_broadcast_addr = None, ml_dns_srvs = None, ml_gateways = Some [Ipv4Addr 10 0 0 1],
      ml_ntp_srvs = None, ml_mtu = None, ml_host_name = None, ml_domain_name = None, ml_srv_mac = []\<rparr>"

definition example_env :: "(cursor, ref_world) proxy_env" where
  "example_env =
     \<lparr>pe_writer = cursor_writer, pe_json = json_ref,
      pe_mozim = \<lparr>mz_init = (\<lambda>_ _ _. retc 1), mz_next = (\<lambda>_. retc (Some (Ok example_mozim_lease))),
                  mz_default = example_mozim_lease, mz_error_text = dhe_msg\<rparr>,
      pe_os = os_ref, pe_lib = ipnet_ref, pe_show_status = status_msg, pe_mac_ok = (\<lambda>_. True),
      pe_io_status = (\<lambda>e. Status CodeUnknown (ioe_msg e)), pe_join_text = ''panicked'', pe_dora_timeout = 8,
      pe_inactivity = 300\<rparr>"

definition example_request :: network_config where
  "example_request = dhcp_request ''eth0'' ''eth1'' ''/ns'' ''aa:bb''"

definition example_proxy :: "(cursor, ref_world) proxy" where
  "example_proxy =
     \<lparr>px_cache = cache_new \<lparr>cu_bytes = [], cu_pos = 0\<rparr>, px_queue = 0,
      px_world = \<lparr>rw_cur = 1, rw_fds = [], rw_files = Map.empty, rw_sysctl = Map.empty, rw_once = []\<rparr>\<rparr>"

lemmas example_proxy_defs = example_env_def example_request_def example_proxy_def dhcp_request_def

theorem proxy_stops_only_without_leases_witness:
  "\<exists>px s. (serve_step example_env)\<^sup>*\<^sup>* (server_new \<lparr>cu_bytes = [], cu_pos = 0\<rparr> (px_world example_proxy)) s
     \<and> proxy_setup example_env GoneBefore example_request example_proxy = (Err client_disconnected, px)
     \<and> s = \<lparr>sv_proxy = px\<lparr>px_queue := 0\<rparr>, sv_running = False\<rparr> \<and> leases (px_cache (sv_proxy s)) = Map.empty"
proof -
  let ?s0 = "server_new \<lparr>cu_bytes = [], cu_pos = 0\<rparr> (px_world example_proxy)"
  let ?px = "example_proxy\<lparr>px_queue := 1\<rparr>"
  let ?s2 = "?s0\<lparr>sv_proxy := example_proxy\<rparr>"
  have start: "sv_proxy ?s0 = example_proxy" "sv_running ?s0" by (simp_all add: server_new_def example_proxy_def)
  have run: "proxy_setup example_env GoneBefore example_request example_proxy = (Err client_disconnected, ?px)"
    by (simp add: proxy_setup_def join_task_def failc_def reset_inactivity_timeout_def example_proxy_def)
  have "serve_step example_env ?s0 (?s0\<lparr>sv_proxy := ?px\<rparr>)"
    using run by (intro step_setup[where gone = GoneBefore and nc = example_request]) (simp_all only: start)
  moreover have "serve_step example_env (?s0\<lparr>sv_proxy := ?px\<rparr>) ?s2"
    using step_activity[of "?s0\<lparr>sv_proxy := ?px\<rparr>" example_env 0] start
    by (simp add: handle_wakeup_turn_def example_env_def example_proxy_def server_new_def)
  ultimately have r2: "(serve_step example_env)\<^sup>*\<^sup>* ?s0 ?s2" by (rule rtranclp_trans[OF r_into_rtranclp r_into_rtranclp])
  have "leases (px_cache example_proxy) = Map.empty" "0 < pe_inactivity example_env" "px_queue example_proxy = 0"
    by (simp_all add: example_proxy_def cache_new_def leases_def fun_eq_iff example_env_def)
  then have "serve_step example_env ?s2 (?s2\<lparr>sv_running := False\<rparr>)"
    using proxy_stops_only_without_leases[OF r2, of "[]" "[]"] start by simp
  with r2 have r3: "(serve_step example_env)\<^sup>*\<^sup>* ?s0 (?s2\<lparr>sv_running := False\<rparr>)" by (rule rtranclp.rtrancl_into_rtrancl)
  show ?thesis
    using r3 run proxy_stops_only_without_leases[OF r3, of "[]" "[]"]
    by (intro exI[of _ ?px] exI[of _ "?s2\<lparr>sv_running := False\<rparr>"])
      (simp add: start example_proxy_def server_new_def)
qed

subsection \<open>Requests for one container\<close>

lemma remove_lease_result:
  "one_each c \<Longrightarrow> leases c mac = Some l \<Longrightarrow> fst (remove_lease wr json mac c) = Ok l' \<Longrightarrow> l' = l"
  by (cases "fmlookup (lc_mem c) mac")
     (auto simp: leases_def remove_lease_def bindc_def matchc_def retc_def failc_def
       split: list.splits prod.splits res.splits)

text \<open>
  C19: setting a container up and tearing it down again leaves the cache without the container's
  address and otherwise as it was, whatever the outcome of the two requests; when both succeed, the
  tear-down returns the lease that the set-up found.
\<close>

theorem proxy_setup_teardown_roundtrip:
  assumes inv: "one_each (px_cache px)"
    and up: "process_setup env nc px = (r, px1)" and down: "proxy_teardown env nc px1 = (r', px2)"
  shows "leases (px_cache px2) = (leases (px_cache px))(nc_container_mac_addr nc := None)
    \<and> (\<forall>l l'. r = Ok l \<longrightarrow> r' = Ok l' \<longrightarrow> l' = l)"
  using up
proof (cases rule: process_setup_cases)
  case kept
  then show ?thesis using proxy_teardown_cache[OF down] inv by (auto simp: run_op_leases simp del: run_op.simps)
next
  case (added m l)
  have inv1: "one_each (px_cache px1)" unfolding added(2) by (rule run_op_one_each[OF inv])
  have "leases (px_cache px1) = (leases (px_cache px))(nc_container_mac_addr nc \<mapsto> l)"
    unfolding added(2) run_op_leases[OF inv] by simp
  moreover from this have "l' = l" if "r' = Ok l'" for l'
    using remove_lease_result[OF inv1] proxy_teardown_cache[OF down] that by (metis fun_upd_same)
  ultimately show ?thesis
    using proxy_teardown_cache[OF down] run_op_leases[OF inv1] added(4) by (auto simp del: run_op.simps)
qed

lemma example_new_service:
  "service_new (pe_mozim example_env) example_request t w =
     (Ok \<lparr>ds_client = Some (V4Client 1), ds_network_config = example_request\<rparr>, w)"
  by (simp add: example_proxy_defs service_new_def create_client_def matchc_OkI bindc_OkI retc_def)

theorem proxy_setup_teardown_roundtrip_witness:
  "leases (px_cache (snd (proxy_teardown example_env example_request
      (snd (process_setup example_env example_request example_proxy))))) = Map.empty"
proof -
  obtain r px1 where up: "process_setup example_env example_request example_proxy = (r, px1)" by fastforce
  obtain r' px2 where down: "proxy_teardown example_env example_request px1 = (r', px2)" by fastforce
  have "one_each (px_cache example_proxy)" and "leases (px_cache example_proxy) = Map.empty"
    by (simp_all add: example_proxy_def one_each_def cache_new_def leases_def fun_eq_iff)
  with proxy_setup_teardown_roundtrip[OF _ up down] show ?thesis
    by (simp add: up down)
qed


text \<open>
  C40: a lease is stored before its address is configured: when configuring the container's interface
  fails, the client is told of the error but the lease stays in the cache, and so the proxy keeps
  running.
\<close>

theorem failed_setup_keeps_lease:
  assumes inv: "one_each (px_cache px)"
    and "start_setup env nc px = (Ok sv, px1)"
    and "service_get_lease (pe_mozim env) sv (px_world px1) = (Ok l, w1)"
    and "fst (add_lease (pe_writer env) (pe_json env) (nc_container_mac_addr nc) l (px_cache px)) = Ok ()"
    and "ip_setup (pe_show_status env) (pe_os env) (pe_lib env) l (nc_container_iface nc) (nc_ns_path nc) w1 = (Err e, w2)"
  shows "\<exists>px'. process_setup env nc px = (Err (Status CodeUnknown e), px')
    \<and> leases (px_cache px') (nc_container_mac_addr nc) = Some l \<and> handle_wakeup_turn Elapsed px'"
proof -
  let ?mac = "nc_container_mac_addr nc"
  let ?c = "run_op (pe_writer env) (pe_json env) (AddLease ?mac l) (px_cache px)"
  have c1: "px_cache px1 = px_cache px" using keepsD[OF start_setup_keeps assms(2)] by simp
  let ?px2 = "px1\<lparr>px_world := w1\<rparr>" and ?px3 = "px1\<lparr>px_world := w1, px_cache := ?c\<rparr>"
  let ?px4 = "px1\<lparr>px_world := w2, px_cache := ?c\<rparr>"
  have "on_world (map_errc service_status (service_get_lease (pe_mozim env) sv)) px1 = (Ok l, ?px2)"
    using assms(3) by (simp add: on_world_def map_errc_def matchc_OkI retc_def)
  moreover have "on_cache (add_lease (pe_writer env) (pe_json env) ?mac l) ?px2 = (Ok (), ?px3)"
    using assms(4) c1 by (auto simp: on_cache_def split: prod.split)
  moreover have "on_world (map_errc proxy_status (ip_setup (pe_show_status env) (pe_os env) (pe_lib env) l
      (nc_container_iface nc) (nc_ns_path nc))) ?px3 = (Err (Status CodeUnknown e), ?px4)"
    using assms(5) by (simp add: on_world_def map_errc_def matchc_ErrI failc_def proxy_status_def)
  ultimately have "process_setup env nc px = (Err (Status CodeUnknown e), ?px4)"
    unfolding process_setup_def finish_setup_def seqc_def
    by (simp add: assms(2) bindc_OkI matchc_OkI bindc_ErrI)
  moreover have "leases ?c ?mac = Some l" unfolding run_op_leases[OF inv] by simp
  moreover from this have "handle_wakeup_turn Elapsed (px1\<lparr>px_world := w2, px_cache := ?c\<rparr>)"
    by (auto simp: handle_wakeup_turn_def is_catch_empty_def cache_is_empty_leases)
  ultimately show ?thesis by simp
qed


lemma example_lease_found:
  "service_get_lease (pe_mozim example_env) \<lparr>ds_client = Some (V4Client 1), ds_network_config = example_request\<rparr> w =
     (Ok (example_lease\<lparr>l_mac_address := ''aa:bb''\<rparr>), w)"
proof -
  have "add_mac_address (nc_container_mac_addr example_request) (add_domain_name (nc_domain_name example_request)
      (lease_from_mozim example_mozim_lease)) = example_lease\<lparr>l_mac_address := ''aa:bb''\<rparr>"
    by code_simp
  then show ?thesis
    by (simp add: service_get_lease_def get_v4_lease_def example_env_def matchc_OkI retc_def)
qed

lemma example_start:
  "start_setup example_env example_request example_proxy =
     (Ok \<lparr>ds_client = Some (V4Client 1), ds_network_config = example_request\<rparr>, example_proxy)"
proof -
  have "nc_container_mac_addr example_request \<noteq> []" by (simp add: example_proxy_defs)
  moreover have "pe_mac_ok example_env m" for m by (simp add: example_proxy_defs)
  ultimately show ?thesis
    by (simp add: start_setup_def on_world_def map_errc_def matchc_OkI[OF example_new_service] retc_def)
qed

theorem failed_setup_keeps_lease_witness:
  "\<exists>e px'. process_setup example_env example_request example_proxy = (Err (Status CodeUnknown e), px')
     \<and> leases (px_cache px') ''aa:bb'' = Some (example_lease\<lparr>l_mac_address := ''aa:bb''\<rparr>)"
proof -
  let ?l = "example_lease\<lparr>l_mac_address := ''aa:bb''\<rparr>"
  have mac: "nc_container_mac_addr example_request = ''aa:bb''" by (simp add: example_proxy_defs)
  have "one_each (px_cache example_proxy)"
    by (simp add: example_proxy_def one_each_def cache_new_def)
  moreover have "fst (add_lease (pe_writer example_env) (pe_json example_env) (nc_container_mac_addr example_request) ?l
      (px_cache example_proxy)) = Ok ()"
    using cursor.save_content[of json_ref] by (simp add: example_env_def add_lease_def) (metis fst_conv)
  moreover have "\<exists>e w2. ip_setup (pe_show_status example_env) (pe_os example_env) (pe_lib example_env) ?l
      (nc_container_iface example_request) (nc_ns_path example_request) (px_world example_proxy) = (Err e, w2)"
  proof -
    have "\<exists>mv. mac_vlan_new ipnet_ref ?l ''eth1'' = Ok mv"
      by (rule exI[of _ "\<lparr>mv_address = V4 (Ipv4Addr 10 0 0 9), mv_gateways = [NetV4 (Ipv4Addr 10 0 0 1) 8],
         mv_interface = ''eth1'', mv_prefix_length = 8\<rparr>"]) code_simp
    then show ?thesis
      by (auto simp: ip_setup_def example_env_def example_request_def dhcp_request_def example_proxy_def
        open_netlink_sockets_def open_netlink_socket_def os_ref_def comp_defs)
  qed
  ultimately show ?thesis
    using failed_setup_keeps_lease[OF _ example_start example_lease_found] unfolding mac by blast
qed

text \<open>
  Tearing down a container the proxy does not know fails, since the blank lease that stands for the
  missing one has no addresses to release.
\<close>

lemma teardown_unknown_fails:
  assumes "leases (px_cache px) (nc_container_mac_addr nc) = None"
    and "service_new (pe_mozim env) nc (pe_dora_timeout env) (px_world px) =
      (Ok \<lparr>ds_client = Some (V4Client c), ds_network_config = nc\<rparr>, w)"
  shows "fst (proxy_teardown env nc px) = Err (Status CodeInternal
      (mz_error_text (pe_mozim env) (DhcpError MzInvalidArgument ''invalid IPv4 address syntax'')))"
proof -
  let ?px1 = "reset_inactivity_timeout px"
  have "px_cache ?px1 = px_cache px" and "px_world ?px1 = px_world px"
    by (simp_all add: reset_inactivity_timeout_def)
  with assms show ?thesis
    by (simp add: proxy_teardown_def on_cache_def on_world_def remove_lease_def leases_def comp_defs
      blank_lease_not_releasable)
qed

subsection \<open>The proxy stops when it is idle\<close>

text \<open>The turns of \<^verbatim>\<open>handle_wakeup\<close> alone: no request arrives.\<close>

inductive idle_step :: "('f, 'w) proxy_env \<Rightarrow> ('f, 'w) server \<Rightarrow> ('f, 'w) server \<Rightarrow> bool" for env where
  idle_activity: "sv_running s \<Longrightarrow> 0 < pe_inactivity env \<Longrightarrow> px_queue (sv_proxy s) = Suc n \<Longrightarrow>
     idle_step env s (s\<lparr>sv_proxy := (sv_proxy s)\<lparr>px_queue := n\<rparr>,
                        sv_running := handle_wakeup_turn Activity (sv_proxy s)\<rparr>)"
| idle_elapsed: "sv_running s \<Longrightarrow> 0 < pe_inactivity env \<Longrightarrow> px_queue (sv_proxy s) = 0 \<Longrightarrow>
     idle_step env s (s\<lparr>sv_running := handle_wakeup_turn Elapsed (sv_proxy s)\<rparr>)"

inductive_simps idle_step_iff: "idle_step env s s'"

lemma idle_step_serve_step: "idle_step env s s' \<Longrightarrow> serve_step env s s'"
  by (auto simp: idle_step_iff intro: serve_step.intros)

lemma idle_step_leases: "idle_step env s s' \<Longrightarrow> px_cache (sv_proxy s') = px_cache (sv_proxy s)"
  by (auto simp: idle_step_iff)

lemma idle_run_stops:
  assumes "sv_running s" and "0 < pe_inactivity env" and "is_catch_empty (sv_proxy s)"
  shows "(idle_step env ^^ Suc (px_queue (sv_proxy s))) s
    (s\<lparr>sv_proxy := (sv_proxy s)\<lparr>px_queue := 0\<rparr>, sv_running := False\<rparr>)"
  using assms
proof (induction "px_queue (sv_proxy s)" arbitrary: s)
  case 0
  then have "idle_step env s (s\<lparr>sv_running := False\<rparr>)"
    by (simp add: idle_step_iff handle_wakeup_turn_def)
  moreover have "s\<lparr>sv_proxy := (sv_proxy s)\<lparr>px_queue := 0\<rparr>, sv_running := False\<rparr> = s\<lparr>sv_running := False\<rparr>"
    using 0(1) by simp
  ultimately show ?case unfolding 0(1)[symmetric] by (metis relpowp_0_I relpowp_Suc_I)
next
  case (Suc n)
  let ?s1 = "s\<lparr>sv_proxy := (sv_proxy s)\<lparr>px_queue := n\<rparr>, sv_running := True\<rparr>"
  have "idle_step env s ?s1"
    using Suc(2-4) idle_activity[of s env n] by (simp add: handle_wakeup_turn_def)
  moreover have "(idle_step env ^^ Suc n) ?s1 (s\<lparr>sv_proxy := (sv_proxy s)\<lparr>px_queue := 0\<rparr>, sv_running := False\<rparr>)"
    using Suc(1)[of ?s1] Suc(3-5) by (simp add: is_catch_empty_def)
  ultimately show ?case using Suc(2) by (metis relpowp_Suc_I2)
qed

lemma idle_run_running: "(idle_step env ^^ Suc n) s s' \<Longrightarrow> sv_running s"
  by (drule relpowp_Suc_D2) (auto simp: idle_step_iff)

lemma idle_run_bound:
  assumes "(idle_step env ^^ n) s s'" and "is_catch_empty (sv_proxy s)"
  shows "n \<le> Suc (px_queue (sv_proxy s))"
  using assms
proof (induction n arbitrary: s)
  case (Suc n)
  then obtain s1 where step: "idle_step env s s1" and run: "(idle_step env ^^ n) s1 s'"
    by (metis relpowp_Suc_D2)
  from step show ?case
  proof cases
    case (idle_activity m)
    with Suc.IH[OF run] Suc.prems(2) show ?thesis by (simp add: is_catch_empty_def)
  next
    case idle_elapsed
    then have "\<not> sv_running s1" using Suc.prems(2) by (simp add: handle_wakeup_turn_def)
    with run have "n = 0" using idle_run_running by (metis not0_implies_Suc)
    then show ?thesis by simp
  qed
qed simp

lemma idle_run_goes_on:
  assumes "(idle_step env ^^ n) s s'" and "sv_running s" and "\<not> is_catch_empty (sv_proxy s)"
  shows "sv_running s'"
  using assms
proof (induction n arbitrary: s)
  case (Suc n)
  then obtain s1 where step: "idle_step env s s1" and run: "(idle_step env ^^ n) s1 s'"
    by (metis relpowp_Suc_D2)
  from step Suc.prems(3) have "sv_running s1 \<and> \<not> is_catch_empty (sv_proxy s1)"
    by (auto simp: idle_step_iff handle_wakeup_turn_def is_catch_empty_def)
  with Suc.IH[OF run] show ?case by blast
qed simp

text \<open>
  C14: a proxy without leases that gets no more requests stops: after at most six turns of its loop,
  one for every message that waits in the channel and one timeout, and no run of the loop is longer.
  As long as it holds a lease, it goes on.
\<close>

theorem idle_proxy_stops:
  assumes "(serve_step env)\<^sup>*\<^sup>* (server_new f w) s" and "sv_running s" and "0 < pe_inactivity env"
  shows "if leases (px_cache (sv_proxy s)) = Map.empty
    then (\<exists>n s'. n \<le> 6 \<and> (idle_step env ^^ n) s s' \<and> \<not> sv_running s')
      \<and> (\<forall>n s'. (idle_step env ^^ n) s s' \<longrightarrow> n \<le> 6)
    else \<forall>n s'. (idle_step env ^^ n) s s' \<longrightarrow> sv_running s'"
proof -
  have inv: "server_inv env s" using server_reachable_inv[OF assms(1) server_new_inv] .
  then have q: "Suc (px_queue (sv_proxy s)) \<le> 6" by (simp add: server_inv_def)
  have empty: "is_catch_empty (sv_proxy s) \<longleftrightarrow> leases (px_cache (sv_proxy s)) = Map.empty"
    using inv by (simp add: is_catch_empty_def cache_is_empty_leases server_inv_def)
  show ?thesis
  proof (cases "is_catch_empty (sv_proxy s)")
    case True
    let ?s' = "s\<lparr>sv_proxy := (sv_proxy s)\<lparr>px_queue := 0\<rparr>, sv_running := False\<rparr>"
    have "\<not> sv_running ?s'" by simp
    then have "\<exists>n s'. n \<le> 6 \<and> (idle_step env ^^ n) s s' \<and> \<not> sv_running s'"
      using idle_run_stops[OF assms(2,3) True] q by blast
    moreover have "(idle_step env ^^ n) s s' \<longrightarrow> n \<le> 6" for n s'
      using idle_run_bound[OF _ True] q by (metis order_trans)
    ultimately show ?thesis using True empty by simp
  next
    case False
    then show ?thesis using idle_run_goes_on[OF _ assms(2) False] empty by auto
  qed
qed

theorem idle_proxy_stops_witness:
  "\<exists>n s'. n \<le> 6 \<and> (idle_step example_env ^^ n)
     (server_new \<lparr>cu_bytes = [], cu_pos = 0\<rparr> (px_world example_proxy)) s' \<and> \<not> sv_running s'"
proof -
  let ?s = "server_new \<lparr>cu_bytes = [], cu_pos = 0\<rparr> (px_world example_proxy)"
  have "sv_running ?s" "0 < pe_inactivity example_env" "leases (px_cache (sv_proxy ?s)) = Map.empty"
    by (simp_all add: server_new_def example_env_def cache_new_def leases_def fun_eq_iff)
  then show ?thesis
    using idle_proxy_stops[of example_env "\<lparr>cu_bytes = [], cu_pos = 0\<rparr>" "px_world example_proxy" ?s] by simp
qed

end
