(* ===== verification/Commands.thy ===== *)
theory Commands
  imports Drivers Dhcp_Proxy
begin

text \<open>
  \<^verbatim>\<open>src/commands/setup.rs\<close>, \<^verbatim>\<open>teardown.rs\<close>, \<^verbatim>\<open>update.rs\<close>,
  \<^verbatim>\<open>src/network/mod.rs\<close>, \<^verbatim>\<open>src/network/validation.rs\<close>, \<^verbatim>\<open>src/main.rs\<close> and the client
  of the DHCP proxy (\<^verbatim>\<open>src/dhcp_proxy_client\<close>): the commands of the program and its exit codes.
  The command line is parsed by another crate; a command is the record of its options.
  \<open>cmd_env\<close> collects what the commands use of the machine.  Log messages are left out.
\<close>

section \<open>Environment\<close>

record 'w cmd_env =
  ce_driver :: "'w driver_env"
  ce_fs :: "'w fs"
  ce_env :: "string \<rightharpoonup> string"
  ce_ipt :: "'w iptables"
  ce_open_ipt :: "bool \<Rightarrow> ('w, string, unit) comp"
  ce_dbus :: "'w dbus"
  ce_dbg_entry :: "aardvark_entry \<Rightarrow> string"
  ce_open_metadata :: "string \<Rightarrow> ('w, io_error, unit) comp"
  ce_read_options :: "string option \<Rightarrow> ('w, io_error, network_options) comp"
  ce_create_dir :: "string \<Rightarrow> ('w, io_error, unit) comp"
  ce_utf8_path :: "string \<Rightarrow> bool"
  ce_to_json :: "(string \<rightharpoonup> status_block) \<Rightarrow> (string, string) res"
  ce_println :: "string \<Rightarrow> ('w, netavark_error, unit) comp"

record cmd_opts =
  co_file :: "string option"
  co_config_dir :: string
  co_aardvark_bin :: string
  co_plugin_directories :: "string list option"
  co_rootless :: bool

definition ns_checks :: "'w cmd_env \<Rightarrow> string \<Rightarrow> ('w, unit) ncomp" where
  "ns_checks ce file = map_errc Io (ce_open_metadata ce file)"

text \<open>\<^verbatim>\<open>NetworkOptions::load\<close>: from the file, or from standard input.\<close>

definition load_options :: "'w cmd_env \<Rightarrow> string option \<Rightarrow> ('w, network_options) ncomp" where
  "load_options ce path =
     map_errc (\<lambda>e. wrap ''failed to load network options'' (Io e)) (ce_read_options ce path)"

definition command_firewall :: "'w cmd_env \<Rightarrow> ('w, 'w firewall_driver) ncomp" where
  "command_firewall ce =
     get_supported_firewall_driver (ce_env ce) (de_lib (ce_driver ce)) (ce_ipt ce) (ce_open_ipt ce) (ce_dbus ce)"

definition command_driver_info ::
  "'w firewall_driver \<Rightarrow> network_options \<Rightarrow> int \<Rightarrow> int \<Rightarrow> string \<Rightarrow> 16 word \<Rightarrow> network \<Rightarrow> per_network_options \<Rightarrow> 'w driver_info" where
  "command_driver_info fw opts hostns netns path dns_port net per_opts =
     \<lparr>di_firewall = fw, di_container_id = no_container_id opts, di_container_name = no_container_name opts,
      di_container_dns_servers = no_dns_servers opts, di_netns_host = hostns, di_netns_container = netns,
      di_netns_path = path, di_network = net, di_per_network_opts = per_opts,
      di_port_mappings = no_port_mappings opts, di_dns_port = dns_port\<rparr>"

definition options_not_found :: "string \<Rightarrow> netavark_error" where
  "options_not_found net_name = Message (''network options for network '' @ net_name @ '' not found'')"

section \<open>setup\<close>

text \<open>The first loop: find and validate the driver of every network before anything is set up.\<close>

fun validated_drivers ::
  "'w cmd_env \<Rightarrow> (network \<Rightarrow> per_network_options \<Rightarrow> 'w driver_info) \<Rightarrow> string list option \<Rightarrow>
     (string \<rightharpoonup> per_network_options) \<Rightarrow> (string \<times> network) list \<Rightarrow> ('w, 'w network_driver list) ncomp" where
  "validated_drivers ce mk dirs opts [] = retc []"
| "validated_drivers ce mk dirs opts ((net_name, network) # nets) =
     (case opts net_name of
        None \<Rightarrow> failc (options_not_found net_name)
      | Some per_network_opts \<Rightarrow>
          bindc (get_network_driver (ce_driver ce) (mk network per_network_opts) dirs) (\<lambda>driver.
          bindc (liftc (driver_validate (ce_driver ce) driver)) (\<lambda>driver.
          bindc (validated_drivers ce mk dirs opts nets) (\<lambda>drivers. retc (driver # drivers)))))"

text \<open>Tear-down of the drivers already set up; their errors are only logged.\<close>

definition cleanup_drivers ::
  "'w driver_env \<Rightarrow> 'w nl_socket \<times> 'w nl_socket \<Rightarrow> 'w network_driver list \<Rightarrow> ('w, unit) ncomp" where
  "cleanup_drivers de socks =
     for_each (\<lambda>dri. matchc (driver_teardown de dri socks) (\<lambda>_. retc ()) (\<lambda>_. retc ()))"

text \<open>The second loop; \<open>done\<close> are the drivers before the current one.\<close>

fun setup_drivers ::
  "'w driver_env \<Rightarrow> 'w nl_socket \<times> 'w nl_socket \<Rightarrow> 'w network_driver list \<Rightarrow> (string \<rightharpoonup> status_block) \<Rightarrow>
     aardvark_entry list \<Rightarrow> 'w network_driver list \<Rightarrow> ('w, (string \<rightharpoonup> status_block) \<times> aardvark_entry list) ncomp" where
  "setup_drivers de socks finished response entries [] = retc (response, entries)"
| "setup_drivers de socks finished response entries (driver # drivers) =
     matchc (driver_setup de driver socks)
       (\<lambda>(status, entry).
          setup_drivers de socks (finished @ [driver]) (response(network_name driver \<mapsto> status))
            (entries @ (case entry of Some a \<Rightarrow> [a] | None \<Rightarrow> [])) drivers)
       (\<lambda>e. seqc (cleanup_drivers de socks finished) (failc e))"

definition aardvark_dir :: "cmd_opts \<Rightarrow> string" where
  "aardvark_dir co = path_join (co_config_dir co) ''aardvark-dns''"

definition apply_dns :: "'w cmd_env \<Rightarrow> cmd_opts \<Rightarrow> 16 word \<Rightarrow> aardvark_entry list \<Rightarrow> ('w, unit) ncomp" where
  "apply_dns ce co dns_port entries =
     bindc (map_errc Io (fs_exists (ce_fs ce) (co_aardvark_bin co))) (\<lambda>there.
     if there \<and> entries \<noteq> []
     then seqc (matchc (ce_create_dir ce (aardvark_dir co)) retc
                 (\<lambda>e. if ioe_kind e = AlreadyExists then retc ()
                      else failc (Io (io_other (''failed to create aardvark-dns directory: '' @ ioe_msg e)))))
         (if \<not> ce_utf8_path ce (aardvark_dir co) then failc (Io (io_other ''failed to convert path to String''))
          else map_errc (\<lambda>er. Io (io_other (''Error while applying dns entries: '' @ ioe_msg er)))
                 (commit_netavark_entries (ce_fs ce) (ce_dbg_entry ce) (ce_env ce)
                    (aardvark_new (aardvark_dir co) (co_rootless co) (co_aardvark_bin co) dns_port) entries))
     else retc ())"

definition setup_exec :: "'w cmd_env \<Rightarrow> string \<Rightarrow> cmd_opts \<Rightarrow> ('w, unit) ncomp" where
  "setup_exec ce network_namespace_path co =
     seqc (wrapc ''invalid namespace path'' (ns_checks ce network_namespace_path))
    (bindc (load_options ce (co_file co)) (\<lambda>network_options.
     bindc (command_firewall ce) (\<lambda>firewall_driver.
     bindc (liftc (get_netavark_dns_port (ce_env ce))) (\<lambda>dns_port.
     bindc (open_netlink_sockets (de_os (ce_driver ce)) (de_lib (ce_driver ce)) network_namespace_path) (\<lambda>(hostns, netns).
     seqc (set_up (ns_netlink netns) (LinkID 1))
    (bindc (validated_drivers ce
              (command_driver_info firewall_driver network_options (ns_fd hostns) (ns_fd netns) network_namespace_path dns_port)
              (co_plugin_directories co) (no_networks network_options) (no_network_info network_options)) (\<lambda>drivers.
     bindc (setup_drivers (ce_driver ce) (ns_netlink hostns, ns_netlink netns) [] Map.empty [] drivers) (\<lambda>(response, entries).
     seqc (apply_dns ce co dns_port entries)
    (bindc (liftc (map_err Serde (ce_to_json ce response))) (\<lambda>response_json.
     ce_println ce response_json))))))))))"

section \<open>teardown\<close>

definition teardown_dns :: "'w cmd_env \<Rightarrow> cmd_opts \<Rightarrow> 16 word \<Rightarrow> network_options \<Rightarrow> ('w, netavark_error list) ncomp" where
  "teardown_dns ce co dns_port opts =
     bindc (map_errc Io (fs_exists (ce_fs ce) (co_aardvark_bin co))) (\<lambda>there.
     if \<not> there then retc []
     else if \<not> ce_utf8_path ce (aardvark_dir co)
     then retc (errorlist_push [] (Message ''Unable to parse aardvark config directory''))
     else matchc (delete_from_netavark_entries (ce_fs ce) (ce_env ce)
                    (aardvark_new (aardvark_dir co) (co_rootless co) (co_aardvark_bin co) dns_port) opts)
            (\<lambda>_. retc []) (\<lambda>err. retc (errorlist_push [] (Io err))))"

text \<open>Tear-down of one network, and the loop that goes on after an error.\<close>

definition teardown_network_cmd ::
  "'w cmd_env \<Rightarrow> (network \<Rightarrow> per_network_options \<Rightarrow> 'w driver_info) \<Rightarrow> string list option \<Rightarrow>
     'w nl_socket \<times> 'w nl_socket \<Rightarrow> (string \<rightharpoonup> per_network_options) \<Rightarrow> string \<times> network \<Rightarrow> ('w, unit) ncomp" where
  "teardown_network_cmd ce mk dirs socks opts = (\<lambda>(net_name, network).
     case opts net_name of
       None \<Rightarrow> failc (options_not_found net_name)
     | Some per_network_opts \<Rightarrow>
         bindc (get_network_driver (ce_driver ce) (mk network per_network_opts) dirs) (\<lambda>driver.
           driver_teardown (ce_driver ce) driver socks))"

fun collect_errors :: "('x \<Rightarrow> ('w, unit) ncomp) \<Rightarrow> netavark_error list \<Rightarrow> 'x list \<Rightarrow> ('w, netavark_error list) ncomp" where
  "collect_errors f errs [] = retc errs"
| "collect_errors f errs (x # xs) =
     bindc (matchc (f x) (\<lambda>_. retc errs) (\<lambda>err. retc (errorlist_push errs err))) (\<lambda>errs. collect_errors f errs xs)"

definition teardown_exec :: "'w cmd_env \<Rightarrow> string \<Rightarrow> cmd_opts \<Rightarrow> ('w, unit) ncomp" where
  "teardown_exec ce network_namespace_path co =
     bindc (load_options ce (co_file co)) (\<lambda>network_options.
     bindc (liftc (get_netavark_dns_port (ce_env ce))) (\<lambda>dns_port.
     bindc (teardown_dns ce co dns_port network_options) (\<lambda>error_list.
     bindc (command_firewall ce) (\<lambda>firewall_driver.
     bindc (open_netlink_sockets (de_os (ce_driver ce)) (de_lib (ce_driver ce)) network_namespace_path) (\<lambda>(hostns, netns).
     bindc (collect_errors
              (teardown_network_cmd ce
                 (command_driver_info firewall_driver network_options (ns_fd hostns) (ns_fd netns) network_namespace_path dns_port)
                 (co_plugin_directories co) (ns_netlink hostns, ns_netlink netns) (no_networks network_options))
              error_list (no_network_info network_options)) (\<lambda>error_list.
     if \<not> errorlist_is_empty error_list then failc (ErrList error_list) else retc ()))))))"

section \<open>update\<close>

definition update_exec :: "'w cmd_env \<Rightarrow> string \<Rightarrow> string list \<Rightarrow> cmd_opts \<Rightarrow> ('w, unit) ncomp" where
  "update_exec ce net_name network_dns_servers co =
     bindc (liftc (get_netavark_dns_port (ce_env ce))) (\<lambda>dns_port.
     bindc (map_errc Io (fs_exists (ce_fs ce) (co_aardvark_bin co))) (\<lambda>there.
     if \<not> there then retc ()
     else if \<not> ce_utf8_path ce (aardvark_dir co) then failc (Message ''Unable to parse aardvark config directory'')
     else
       map_errc (\<lambda>err. wrap ''unable to modify network dns servers'' (Io err))
         (modify_network_dns_servers (ce_fs ce) (ce_env ce)
            (aardvark_new (aardvark_dir co) (co_rootless co) (co_aardvark_bin co) dns_port) net_name
            (if network_dns_servers = [[]] then [] else network_dns_servers))))"

section \<open>The programs\<close>

datatype sub_command =
    CmdSetup string | CmdUpdate string "string list" | CmdTeardown string | CmdVersion | CmdDHCPProxy proxy_opts

record opts =
  op_file :: "string option"
  op_config :: "string option"
  op_rootless :: "bool option"
  op_aardvark_binary :: "string option"
  op_plugin_directories :: "string list option"
  op_subcmd :: sub_command

definition cmd_opts_of :: "opts \<Rightarrow> cmd_opts" where
  "cmd_opts_of cli = \<lparr>co_file = op_file cli, co_config_dir = unwrap_or (op_config cli) ''/tmp'',
     co_aardvark_bin = unwrap_or (op_aardvark_binary cli) ''/usr/libexec/podman/aardvark-dns'',
     co_plugin_directories = op_plugin_directories cli, co_rootless = unwrap_or (op_rootless cli) False\<rparr>"

text \<open>
  \<^verbatim>\<open>commands/version.rs\<close>: the values the build put into the program, printed as JSON by
  \<open>pretty\<close>.
\<close>

record version_info =
  vi_version :: string
  vi_commit :: string
  vi_build_time :: string
  vi_target :: string

definition version_exec ::
  "'w cmd_env \<Rightarrow> (version_info \<Rightarrow> (string, string) res) \<Rightarrow> version_info \<Rightarrow> ('w, unit) ncomp" where
  "version_exec ce pretty info = bindc (liftc (map_err Serde (pretty info))) (ce_println ce)"

text \<open>\<^verbatim>\<open>main\<close>: run the command; an error is printed and decides the exit code.\<close>

definition netavark_main ::
  "'w cmd_env \<Rightarrow> 'w serve_sys \<Rightarrow> (version_info \<Rightarrow> (string, string) res) \<Rightarrow> version_info \<Rightarrow>
     (json_error \<Rightarrow> (string, string) res) \<Rightarrow> opts \<Rightarrow> ('w, int) ncomp" where
  "netavark_main ce sy pretty info to_json cli =
     matchc (case op_subcmd cli of
         CmdSetup path \<Rightarrow> setup_exec ce path (cmd_opts_of cli)
       | CmdTeardown path \<Rightarrow> teardown_exec ce path (cmd_opts_of cli)
       | CmdUpdate name servers \<Rightarrow> update_exec ce name servers (cmd_opts_of cli)
       | CmdVersion \<Rightarrow> version_exec ce pretty info
       | CmdDHCPProxy popts \<Rightarrow> serve sy popts)
       (\<lambda>_. retc 0)
       (\<lambda>err. seqc (print_json (de_show_status (ce_driver ce)) to_json (ce_println ce) err) (retc (get_exit_code err)))"

text \<open>The client of the proxy: the exit code of a failed request.\<close>

definition process_failure :: "status \<Rightarrow> int" where
  "process_failure status =
     (case status_code status of
        CodeUnknown \<Rightarrow> 155
      | CodeInvalidArgument \<Rightarrow> 156
      | CodeDeadlineExceeded \<Rightarrow> 1
      | CodeNotFound \<Rightarrow> 6
      | _ \<Rightarrow> 1)"

definition client_main ::
  "'w grpc \<Rightarrow> (string \<Rightarrow> ('w, netavark_error, network_config) comp) \<Rightarrow> (lease \<Rightarrow> ('w, netavark_error, unit) comp) \<Rightarrow>
     bool \<Rightarrow> string option \<Rightarrow> string option \<Rightarrow> ('w, netavark_error, int) comp" where
  "client_main g load print is_setup file uds =
     (let path = unwrap_or file DEFAULT_NETWORK_CONFIG; uds_path = unwrap_or uds DEFAULT_UDS_PATH
      in matchc (load path)
           (\<lambda>input_config.
              matchc (if is_setup then client_get_lease g input_config uds_path else client_drop_lease g input_config uds_path)
                (\<lambda>r. seqc (print r) (retc 0))
                (\<lambda>e. case e of DHCPProxy status \<Rightarrow> retc (process_failure status) | _ \<Rightarrow> retc 1))
           (\<lambda>_. retc 1))"

section \<open>Properties\<close>

subsection \<open>A failed set-up is rolled back\<close>

text \<open>The worlds after all given drivers were set up, and after they were torn down one by one.\<close>

primrec sets_up ::
  "'w driver_env \<Rightarrow> 'w nl_socket \<times> 'w nl_socket \<Rightarrow> 'w network_driver list \<Rightarrow> 'w \<Rightarrow> 'w \<Rightarrow> bool" where
  "sets_up de socks [] w w' = (w' = w)"
| "sets_up de socks (d # ds) w w' =
     (case driver_setup de d socks w of (Ok _, w1) \<Rightarrow> sets_up de socks ds w1 w' | _ \<Rightarrow> False)"

primrec tears_down ::
  "'w driver_env \<Rightarrow> 'w nl_socket \<times> 'w nl_socket \<Rightarrow> 'w network_driver list \<Rightarrow> 'w \<Rightarrow> 'w \<Rightarrow> bool" where
  "tears_down de socks [] w w' = (w' = w)"
| "tears_down de socks (d # ds) w w' =
     (case driver_teardown de d socks w of
        (r, w1) \<Rightarrow> r \<noteq> Panic \<and> r \<noteq> Hang \<and> tears_down de socks ds w1 w')"

lemma cleanup_runs: "tears_down de socks ds w w' \<Longrightarrow> cleanup_drivers de socks ds w = (Ok (), w')"
  unfolding cleanup_drivers_def
proof (induction ds arbitrary: w)
  case (Cons d ds)
  then show ?case
    by (cases "driver_teardown de d socks w"; cases "fst (driver_teardown de d socks w)") (auto simp: comp_simps)
qed (simp add: retc_def)

lemma setup_drivers_fails:
  assumes "sets_up de socks ds w w1" and "driver_setup de d socks w1 = (Err e, w2)"
    and "tears_down de socks (finished @ ds) w2 w3"
  shows "setup_drivers de socks finished resp entries (ds @ d # rest) w = (Err e, w3)"
  using assms
proof (induction ds arbitrary: w finished resp entries)
  case Nil
  then show ?case using cleanup_runs by (fastforce simp: matchc_ErrI seqc_OkI failc_def)
next
  case (Cons d' ds)
  then obtain s a wa where "driver_setup de d' socks w = (Ok (s, a), wa)" and "sets_up de socks ds wa w1"
    by (auto split: prod.splits res.splits)
  with Cons.IH[of wa "finished @ [d']"] Cons.prems(2,3) show ?case by (simp add: matchc_OkI)
qed

text \<open>
  C10: when setting up a network fails, every network that was set up before it is torn down again, in
  the order they were set up and also when one of these tear-downs fails; the networks after it are
  never set up, and the error of the set-up is what is reported.
\<close>

theorem failed_setup_rolls_back:
  assumes "sets_up de socks before w w1" and "driver_setup de d socks w1 = (Err e, w2)"
    and "tears_down de socks before w2 w3"
  shows "setup_drivers de socks [] Map.empty [] (before @ d # after) w = (Err e, w3)"
  using setup_drivers_fails[of de socks before w w1 d e w2 "[]"] assms by simp

text \<open>A plugin that counts its calls and fails to set up the network called bad.\<close>

definition counting_plugin :: "(string list) plugin_sys" where
  "counting_plugin =
     \<lparr>pl_spawn = (\<lambda>args log. (Ok 0, log @ [args ! 1])), pl_send = (\<lambda>_ i log. (Ok (), log @ [n_name (npe_network i)])),
      pl_read_to_end = (\<lambda>_. retc []),
      pl_wait = (\<lambda>_ log. (Ok (Some (if last log = ''bad'' then 1 else 0)), log)),
      pl_status_block = (\<lambda>_. Ok \<lparr>sb_dns_search_domains = None, sb_dns_server_ips = None, sb_interfaces = None\<rparr>),
      pl_json_error = (\<lambda>_. Ok ''no'')\<rparr>"

definition counting_env :: "(string list) driver_env" where
  "counting_env =
     \<lparr>de_os = \<lparr>os_open = (\<lambda>_. failc (io_other [])), os_setns = (\<lambda>_. retc ()),
        os_nl = \<lparr>ns_socket = failc (io_other []), ns_bind = (\<lambda>_. retc ()), ns_connect = (\<lambda>_. retc ())\<rparr>,
        once_done = (\<lambda>_ _. True), once_mark = (\<lambda>_ w. w), ctl_new = (\<lambda>_. retc ()),
        ctl_value_string = (\<lambda>_. retc []), ctl_set_value_string = (\<lambda>_ _. retc [])\<rparr>,
      de_lib = ipnet_ref, de_sha512 = sha_ref, de_show_status = status_msg, de_rng = retc ''x'', de_grpc = grpc_down,
      de_runtime = retc (), de_plugin = counting_plugin, de_metadata = (\<lambda>_. retc (True, 0x49))\<rparr>"

definition plugin_net :: "string \<Rightarrow> (string list) network_driver" where
  "plugin_net name = DPlugin ''/p'' ((example_info fwnone_driver)\<lparr>di_network := example_network\<lparr>n_name := name\<rparr>\<rparr>)"

lemmas counting_defs = counting_env_def counting_plugin_def plugin_net_def plugin_setup_def plugin_teardown_def
  exec_plugin_def plugin_input_def plugin_outcome_def attempt_def example_info_def comp_simps

theorem failed_setup_rolls_back_witness:
  "setup_drivers counting_env (sock_ref [] [], sock_ref [] []) [] Map.empty []
     ([plugin_net ''a'', plugin_net ''b''] @ plugin_net ''bad'' # [plugin_net ''c'']) [] =
   (Err (Chain (plugin_failed ''/p'') (Message ''exit code 1, message: no'')),
    [''setup'', ''a'', ''setup'', ''b'', ''setup'', ''bad'', ''teardown'', ''a'', ''teardown'', ''b''])"
  by (rule failed_setup_rolls_back[where ?w1.0 = "[''setup'', ''a'', ''setup'', ''b'']"
        and ?w2.0 = "[''setup'', ''a'', ''setup'', ''b'', ''setup'', ''bad'']"])
    (simp_all add: counting_defs wrap_def show_int_def show_nat.simps digit_char_def)

subsection \<open>Tear-down goes on\<close>

primrec run_all :: "('x \<Rightarrow> ('w, 'e, unit) comp) \<Rightarrow> 'x list \<Rightarrow> 'w \<Rightarrow> ('e, unit) res list \<times> 'w" where
  "run_all f [] w = ([], w)"
| "run_all f (x # xs) w = (case f x w of (r, w1) \<Rightarrow> (case run_all f xs w1 of (rs, w2) \<Rightarrow> (r # rs, w2)))"

lemma collect_errors_run_all:
  assumes "run_all f xs w = (rs, w')" and "list_all (\<lambda>r. r \<noteq> Panic \<and> r \<noteq> Hang) rs"
  shows "collect_errors f errs xs w = (Ok (errs @ concat (map error_items rs)), w')"
  using assms
proof (induction xs arbitrary: errs w rs)
  case (Cons x xs)
  obtain r w1 where x: "f x w = (r, w1)" by fastforce
  obtain rs' w2 where "run_all f xs w1 = (rs', w2)" by fastforce
  with Cons x show ?case by (cases r) (auto simp: comp_simps push_members)
qed (simp add: retc_def)

text \<open>
  C18: what the tear-down command does about errors.  When the firewall cannot be chosen or the sockets
  cannot be opened, for instance because the container's namespace is gone, it returns that error at once:
  no network is torn down, and the errors of the name server's entries are not reported.  Otherwise it goes
  on after an error: whatever happened to the name server's entries and happens to the other networks, every
  network of the container is torn down; the command succeeds exactly when there was no error, and otherwise
  reports all errors in one list.
\<close>

theorem teardown_command_goes_on:
  assumes "load_options ce (co_file co) w = (Ok opts, w1)" and "get_netavark_dns_port (ce_env ce) = Ok dns_port"
    and "teardown_dns ce co dns_port opts w1 = (Ok dns_errs, w2)"
  shows "(\<forall>e w3. command_firewall ce w2 = (Err e, w3) \<longrightarrow> teardown_exec ce path co w = (Err e, w3)) \<and>
    (\<forall>fw w3 e w4. command_firewall ce w2 = (Ok fw, w3) \<and>
       open_netlink_sockets (de_os (ce_driver ce)) (de_lib (ce_driver ce)) path w3 = (Err e, w4) \<longrightarrow>
       teardown_exec ce path co w = (Err e, w4)) \<and>
    (\<forall>fw w3 hostns netns w4 rs w5. command_firewall ce w2 = (Ok fw, w3) \<and>
       open_netlink_sockets (de_os (ce_driver ce)) (de_lib (ce_driver ce)) path w3 = (Ok (hostns, netns), w4) \<and>
       run_all (teardown_network_cmd ce (command_driver_info fw opts (ns_fd hostns) (ns_fd netns) path dns_port)
           (co_plugin_directories co) (ns_netlink hostns, ns_netlink netns) (no_networks opts))
         (no_network_info opts) w4 = (rs, w5) \<and>
       list_all (\<lambda>r. r \<noteq> Panic \<and> r \<noteq> Hang) rs \<longrightarrow>
       teardown_exec ce path co w =
         (let es = dns_errs @ concat (map error_items rs) in if es = [] then Ok () else Err (ErrList es), w5))"
  using assms
  by (auto simp: teardown_exec_def comp_simps errorlist_is_empty_def Let_def collect_errors_run_all)

text \<open>
  A machine for the commands: sockets whose requests are all acknowledged, two network namespaces,
  no firewall, and the given container.
\<close>

definition quiet_transport :: "'w nl_transport" where
  "quiet_transport =
     \<lparr>tr_get = (\<lambda>_. \<lparr>sk_sequence_number = 0, sk_buffer = []\<rparr>), tr_put = (\<lambda>_ w. w), tr_serialize = (\<lambda>_. []),
      tr_send = (\<lambda>_. retc ()), tr_recv = retc [],
      tr_deserialize = (\<lambda>_. Ok \<lparr>rx_length = 0, rx_sequence_number = 0, rx_payload = PAck (NlError 0 [])\<rparr>),
      tr_message_type = (\<lambda>_. 0)\<rparr>"

definition quiet_os :: "ref_world os" where
  "quiet_os = os_ref\<lparr>os_nl := \<lparr>ns_socket = retc quiet_transport, ns_bind = (\<lambda>_. retc ()), ns_connect = (\<lambda>_. retc ())\<rparr>\<rparr>"

definition quiet_fs :: "'w fs" where
  "quiet_fs =
     \<lparr>fs_read = (\<lambda>_. retc []), fs_create_new = (\<lambda>_. retc ()), fs_open_append = (\<lambda>_. retc ()), fs_create = (\<lambda>_. retc ()),
      fs_write = (\<lambda>_ _. retc ()), fs_remove = (\<lambda>_. retc ()), fs_exists = (\<lambda>_. retc False),
      fs_metadata_ok = (\<lambda>_. retc False), fs_open_lock = (\<lambda>_. retc ()), fs_lock = (\<lambda>_. retc ()),
      fs_unlock = (\<lambda>_. retc ()), ps_kill = (\<lambda>_. retc ()), ps_output = (\<lambda>_. retc ())\<rparr>"

definition quiet_plugin :: "'w plugin_sys" where
  "quiet_plugin =
     \<lparr>pl_spawn = (\<lambda>_. retc 0), pl_send = (\<lambda>_ _. retc ()), pl_read_to_end = (\<lambda>_. retc []), pl_wait = (\<lambda>_. retc (Some 0)),
      pl_status_block = (\<lambda>_. Err []), pl_json_error = (\<lambda>_. Err [])\<rparr>"

definition quiet_ipt :: "'w iptables" where
  "quiet_ipt =
     \<lparr>ipt_exists = (\<lambda>_ _ _ _. retc True), ipt_append = (\<lambda>_ _ _ _. retc ()), ipt_insert = (\<lambda>_ _ _ _ _. retc ()),
      ipt_delete = (\<lambda>_ _ _ _. retc ()), ipt_new_chain = (\<lambda>_ _ _. retc ()), ipt_delete_chain = (\<lambda>_ _ _. retc ()),
      ipt_list = (\<lambda>_ _ _. retc []), ipt_list_chains = (\<lambda>_ _. retc [])\<rparr>"

definition quiet_env :: "network_options \<Rightarrow> ref_world cmd_env" where
  "quiet_env opts =
     \<lparr>ce_driver = \<lparr>de_os = quiet_os, de_lib = ipnet_ref, de_sha512 = sha_ref, de_show_status = status_msg,
        de_rng = retc ''x'', de_grpc = grpc_down, de_runtime = retc (), de_plugin = quiet_plugin,
        de_metadata = (\<lambda>_. failc (io_other []))\<rparr>,
      ce_fs = quiet_fs, ce_env = [''NETAVARK_FW'' \<mapsto> ''none''], ce_ipt = quiet_ipt, ce_open_ipt = (\<lambda>_. retc ()),
      ce_dbus = no_dbus, ce_dbg_entry = (\<lambda>_. []), ce_open_metadata = (\<lambda>_. retc ()), ce_read_options = (\<lambda>_. retc opts),
      ce_create_dir = (\<lambda>_. retc ()), ce_utf8_path = (\<lambda>_. True), ce_to_json = (\<lambda>_. Ok []), ce_println = (\<lambda>_. retc ())\<rparr>"

definition quiet_options :: "(string \<times> network) list \<Rightarrow> network_options" where
  "quiet_options nets =
     \<lparr>no_container_id = ''abc'', no_container_name = ''web'', no_networks = [''odd'' \<mapsto> example_options],
      no_network_info = nets, no_port_mappings = None, no_dns_servers = None\<rparr>"

definition quiet_cmd :: cmd_opts where
  "quiet_cmd = \<lparr>co_file = None, co_config_dir = ''/tmp'', co_aardvark_bin = ''/bin/aardvark'',
     co_plugin_directories = None, co_rootless = False\<rparr>"

definition quiet_world :: ref_world where
  "quiet_world = \<lparr>rw_cur = 3, rw_fds = [3, 4], rw_files = [''/ns'' \<mapsto> 4, ''/proc/self/ns/net'' \<mapsto> 3],
     rw_sysctl = Map.empty, rw_once = []\<rparr>"

lemma quiet_parts:
  "load_options (quiet_env opts) f w = (Ok opts, w)" "get_netavark_dns_port (ce_env (quiet_env opts)) = Ok 53"
  "teardown_dns (quiet_env opts) co 53 opts' w = (Ok [], w)"
  "command_firewall (quiet_env opts) w = (Ok fwnone_driver, w)"
  "open_netlink_sockets (de_os (ce_driver (quiet_env opts))) (de_lib (ce_driver (quiet_env opts))) ''/ns'' quiet_world =
     (Ok (\<lparr>ns_fd = 3, ns_netlink = socket_of quiet_transport ipnet_ref\<rparr>,
          \<lparr>ns_fd = 4, ns_netlink = socket_of quiet_transport ipnet_ref\<rparr>), quiet_world)"
proof -
  show "load_options (quiet_env opts) f w = (Ok opts, w)" by (simp add: load_options_def quiet_env_def comp_simps)
  show "get_netavark_dns_port (ce_env (quiet_env opts)) = Ok 53" by (simp add: get_netavark_dns_port_def quiet_env_def)
  show "teardown_dns (quiet_env opts) co 53 opts' w = (Ok [], w)"
    by (simp add: teardown_dns_def quiet_env_def quiet_fs_def comp_simps)
  have "to_lowercase ''none'' = ''none''" by code_simp
  then show "command_firewall (quiet_env opts) w = (Ok fwnone_driver, w)"
    by (simp add: command_firewall_def get_supported_firewall_driver_def get_firewall_impl_def quiet_env_def comp_simps Let_def)
  show "open_netlink_sockets (de_os (ce_driver (quiet_env opts))) (de_lib (ce_driver (quiet_env opts))) ''/ns'' quiet_world =
     (Ok (\<lparr>ns_fd = 3, ns_netlink = socket_of quiet_transport ipnet_ref\<rparr>,
          \<lparr>ns_fd = 4, ns_netlink = socket_of quiet_transport ipnet_ref\<rparr>), quiet_world)"
    by (simp add: open_netlink_sockets_def open_netlink_socket_def quiet_env_def quiet_os_def os_ref_def quiet_world_def
      sock_new_def exec_netns_def join_netns_def attempt_def quiet_transport_def comp_simps)
qed

lemma quiet_sockets_gone:
  "open_netlink_sockets (de_os (ce_driver (quiet_env opts))) (de_lib (ce_driver (quiet_env opts))) ''/gone'' quiet_world =
     (Err (Chain ''open container netns'' (Chain ''open /gone'' (Io (IoError NotFound ''not found'')))), quiet_world)"
  by (simp add: open_netlink_sockets_def open_netlink_socket_def quiet_env_def quiet_os_def os_ref_def quiet_world_def
      comp_simps wrap_def)

theorem teardown_command_goes_on_witness:
  "teardown_exec (quiet_env (quiet_options [(''gone'', example_network), (''odd'', example_network\<lparr>n_driver := ''odd''\<rparr>)]))
     ''/ns'' quiet_cmd quiet_world =
   (Err (ErrList [Message ''network options for network gone not found'',
                  Message (''unknown network driver '' @ [CHR 0x22] @ ''odd'' @ [CHR 0x22])]), quiet_world) \<and>
   teardown_exec (quiet_env (quiet_options [(''gone'', example_network)])) ''/gone'' quiet_cmd quiet_world =
   (Err (Chain ''open container netns'' (Chain ''open /gone'' (Io (IoError NotFound ''not found'')))), quiet_world)"
proof
  let ?nets = "[(''gone'', example_network), (''odd'', example_network\<lparr>n_driver := ''odd''\<rparr>)]"
  let ?e = "quiet_env (quiet_options ?nets)"
  let ?sock = "socket_of quiet_transport ipnet_ref"
  have runs: "run_all (teardown_network_cmd ?e
        (command_driver_info fwnone_driver (quiet_options ?nets)
           (ns_fd \<lparr>ns_fd = 3, ns_netlink = ?sock\<rparr>) (ns_fd \<lparr>ns_fd = 4, ns_netlink = ?sock\<rparr>) ''/ns'' 53)
        (co_plugin_directories quiet_cmd)
        (ns_netlink \<lparr>ns_fd = 3, ns_netlink = ?sock\<rparr>, ns_netlink \<lparr>ns_fd = 4, ns_netlink = ?sock\<rparr>)
        (no_networks (quiet_options ?nets)))
      (no_network_info (quiet_options ?nets)) quiet_world =
    ([Err (Message ''network options for network gone not found''),
      Err (Message (''unknown network driver '' @ [CHR 0x22] @ ''odd'' @ [CHR 0x22]))], quiet_world)"
    by (simp add: quiet_options_def teardown_network_cmd_def options_not_found_def get_network_driver_def
      command_driver_info_def const_defs quiet_cmd_def unwrap_or_def comp_simps Let_def)
  show "teardown_exec ?e ''/ns'' quiet_cmd quiet_world =
    (Err (ErrList [Message ''network options for network gone not found'',
                   Message (''unknown network driver '' @ [CHR 0x22] @ ''odd'' @ [CHR 0x22])]), quiet_world)"
    using teardown_command_goes_on[where co = quiet_cmd and path = "''/ns''" and w = quiet_world, OF quiet_parts(1-3),
        THEN conjunct2, THEN conjunct2, rule_format, OF conjI[OF quiet_parts(4) conjI[OF quiet_parts(5) conjI[OF runs]]]]
    by (simp add: members_def)
next
  show "teardown_exec (quiet_env (quiet_options [(''gone'', example_network)])) ''/gone'' quiet_cmd quiet_world =
    (Err (Chain ''open container netns'' (Chain ''open /gone'' (Io (IoError NotFound ''not found'')))), quiet_world)"
    using teardown_command_goes_on[where co = quiet_cmd and path = "''/gone''", OF quiet_parts(1-3)] quiet_parts(4) quiet_sockets_gone
    by simp
qed

end
