(* ===== verification/Host_Namespace.thy ===== *)
theory Host_Namespace
  imports Commands
begin

text \<open>
  The network namespace the process is in, across the components: the part of the machine that only
  \<^verbatim>\<open>setns\<close> changes.  The locale \<open>machine\<close> says what the commands rely on
  of it; in it, the sockets, the firewall drivers, the name server's files, the drivers of all kinds
  and the \<^verbatim>\<open>setup\<close> command (\<open>setup_exec_ends\<close>) are followed from the
  namespace they start in to the one they end in.
\<close>

section \<open>Sockets\<close>

definition transport_reads :: "('w \<Rightarrow> 's) \<Rightarrow> 'w nl_transport \<Rightarrow> bool" where
  "transport_reads obs t \<longleftrightarrow>
     (\<forall>s w. obs (tr_put t s w) = obs w) \<and> (\<forall>b. reads obs (tr_send t b)) \<and> reads obs (tr_recv t)"

lemma recv_loop_reads:
  assumes "recv_loop t multi result w = Some y" and "transport_reads obs t"
  shows "obs (snd y) = obs w"
  using assms
proof (induction rule: recv_loop.raw_induct[rotated 1, consumes 1])
  case (1 rec t multi result w y)
  obtain r w1 where recv: "tr_recv t w = (r, w1)" by fastforce
  with 1(3) have "obs w1 = obs w" and put: "obs (tr_put t s w1) = obs w1" for s
    by (auto simp: transport_reads_def dest: readsD)
  with 1(2) recv 1(1)[OF _ 1(3)] show ?case
    by (auto simp: Let_def split: res.splits inner_result.splits)
qed

lemma make_netlink_request_reads:
  assumes "transport_reads obs t"
  shows "reads obs (make_netlink_request t msg flags)"
proof -
  have "reads obs (nl_recv t m)" for m
    using recv_loop_reads[OF _ assms] by (auto simp: reads_def nl_recv_def split: option.split)
  moreover have "reads obs (nl_send t msg flags)"
    using assms by (auto simp: reads_def nl_send_def Let_def transport_reads_def)
  ultimately show ?thesis unfolding make_netlink_request_def by (intro reads_intros) simp_all
qed

lemma socket_of_reads: "transport_reads obs t \<Longrightarrow> sock_reads obs (socket_of t lib)"
  by (auto simp: sock_reads_def socket_of_def sock_get_link_def sock_create_link_def sock_set_link_name_def
      sock_del_link_def sock_add_addr_def sock_add_route_def sock_dump_routes_def sock_dump_links_def sock_set_up_def
      ack_request_def expect_netlink_result_def make_netlink_request_reads
      split: rtnl_message.split netavark_error.split intro!: reads_intros)

lemma ends_in_matchc:
  assumes "ends_in cur fd m" and "\<And>x. ends_in cur fd (f x)" and "\<And>e w. \<not> is_ok (fst (h e w))"
  shows "ends_in cur fd (matchc m f h)"
  unfolding ends_in_def
proof (intro allI impI)
  fix w x w'
  assume "cur w = fd" and run: "matchc m f h w = (Ok x, w')"
  obtain r w1 where m: "m w = (r, w1)" by fastforce
  show "cur w' = fd"
  proof (cases r)
    case (Ok y)
    with run m have "f y w1 = (Ok x, w')" by (simp add: matchc_def)
    moreover have "cur w1 = fd" using assms(1) m Ok \<open>cur w = fd\<close> by (auto simp: ends_in_def)
    ultimately show ?thesis using assms(2)[of y] by (auto simp: ends_in_def)
  next
    case (Err e)
    with run m have "h e w1 = (Ok x, w')" by (simp add: matchc_def)
    with assms(3)[of e w1] show ?thesis by simp
  qed (use run m in \<open>simp_all add: matchc_def\<close>)
qed

lemma seqc_failc_not_ok: "\<not> is_ok (fst (seqc m (failc e) w))"
  by (simp add: comp_defs split: prod.split res.split)

lemma attempt_Ok_iff: "attempt m w = (Ok (Ok x), w') \<longleftrightarrow> m w = (Ok x, w')"
  by (auto simp: attempt_def matchc_def retc_def split: prod.splits res.splits)

section \<open>The machine of the commands\<close>

text \<open>
  Everything a command uses of the machine leaves the process in its network namespace; only
  \<^verbatim>\<open>setns\<close> changes it.
\<close>

definition fs_reads :: "('w \<Rightarrow> 's) \<Rightarrow> 'w fs \<Rightarrow> bool" where
  "fs_reads obs fs \<longleftrightarrow>
     (\<forall>p s i args. reads obs (fs_read fs p) \<and> reads obs (fs_create_new fs p) \<and> reads obs (fs_open_append fs p) \<and>
        reads obs (fs_write fs p s) \<and> reads obs (fs_exists fs p) \<and> reads obs (fs_metadata_ok fs p) \<and>
        reads obs (fs_open_lock fs p) \<and> reads obs (fs_lock fs p) \<and> reads obs (fs_unlock fs p) \<and>
        reads obs (ps_kill fs i) \<and> reads obs (ps_output fs args))"

definition plugin_reads :: "('w \<Rightarrow> 's) \<Rightarrow> 'w plugin_sys \<Rightarrow> bool" where
  "plugin_reads obs pl \<longleftrightarrow>
     (\<forall>args i x. reads obs (pl_spawn pl args) \<and> reads obs (pl_send pl i x) \<and> reads obs (pl_read_to_end pl i) \<and>
        reads obs (pl_wait pl i))"

locale machine = netns_laws "de_os (ce_driver ce)" cur for ce :: "'w cmd_env" and cur :: "'w \<Rightarrow> int" +
  assumes sysctls: "sysctl_reads cur (de_os (ce_driver ce))"
    and opens: "reads cur (os_open (de_os (ce_driver ce)) p)"
    and new_socket: "reads cur (ns_socket (os_nl (de_os (ce_driver ce))))"
    and socket_calls: "ns_socket (os_nl (de_os (ce_driver ce))) w = (Ok t, w') \<Longrightarrow>
      transport_reads cur t \<and> reads cur (ns_bind (os_nl (de_os (ce_driver ce))) t)
      \<and> reads cur (ns_connect (os_nl (de_os (ce_driver ce))) t)"
    and files: "fs_reads cur (ce_fs ce)"
    and tables: "iptables_reads cur (ce_ipt ce)" "reads cur (ce_open_ipt ce b)"
    and bus: "dbus_reads cur (ce_dbus ce)"
    and random: "reads cur (de_rng (ce_driver ce))"
    and proxy_calls: "grpc_reads cur (de_grpc (ce_driver ce))" "reads cur (de_runtime (ce_driver ce))"
    and plugins: "plugin_reads cur (de_plugin (ce_driver ce))" "reads cur (de_metadata (ce_driver ce) p)"
    and input_output: "reads cur (ce_open_metadata ce p)" "reads cur (ce_read_options ce f)"
      "reads cur (ce_create_dir ce p)" "reads cur (ce_println ce p)"
begin

lemma firewall_reads: "reads cur (command_firewall ce)"
  using bus tables unfolding command_firewall_def get_supported_firewall_driver_def get_firewall_impl_def iptables_new_def
  by (auto simp: dbus_reads_def Let_def split: firewall_impl.split option.split intro!: reads_intros)

lemma firewall_is_framed:
  assumes "command_firewall ce w = (Ok fw, w')"
  shows "firewall_frame fw cur"
  using assms iptables_driver_frame[OF tables(1) bus] firewalld_driver_frame[OF bus] fwnone.firewall_frame_axioms
  unfolding command_firewall_def get_supported_firewall_driver_def
  by (auto simp: comp_Ok split: firewall_impl.splits) (use firewall_impl.exhaust in blast)

lemma plugin_setup_reads: "reads cur (plugin_setup (de_plugin (ce_driver ce)) path info)"
  using plugins(1) unfolding plugin_setup_def exec_plugin_def
  by (auto simp: plugin_reads_def attempt_def split: option.split intro!: reads_intros)

lemma get_network_driver_reads: "reads cur (get_network_driver (ce_driver ce) info dirs)"
proof -
  have "reads cur (find_plugin (ce_driver ce) name ds)" for name ds
    by (induction ds) (auto simp: plugins Let_def intro!: reads_intros)
  then show ?thesis
    by (auto simp: get_network_driver_def Let_def split: option.split intro!: reads_intros)
qed

lemma validated_drivers_reads: "reads cur (validated_drivers ce mk dirs opts nets)"
proof (induction nets)
  case (Cons n nets)
  then show ?case
    by (cases n) (auto simp: get_network_driver_reads split: option.split intro!: reads_intros)
qed simp

lemma validated_drivers_info:
  assumes "validated_drivers ce mk dirs opts nets w = (Ok ds, w')" and "d \<in> set ds"
  shows "\<exists>net per_opts. driver_info_of d = mk net per_opts"
  using assms
proof (induction nets arbitrary: w w' ds)
  case (Cons n nets)
  obtain name net where n: "n = (name, net)" by fastforce
  from Cons.prems(1) obtain per_opts w1 d0 d1 w2 ds' where
    new: "get_network_driver (ce_driver ce) (mk net per_opts) dirs w = (Ok d0, w1)"
    and valid: "driver_validate (ce_driver ce) d0 = Ok d1"
    and rest: "validated_drivers ce mk dirs opts nets w1 = (Ok ds', w2)" and ds: "ds = d1 # ds'"
    by (auto simp: n comp_Ok split: option.splits)
  have "driver_info_of d0 = mk net per_opts"
    using new by (auto simp: get_network_driver_def comp_Ok Let_def split: if_splits option.splits)
  moreover have "driver_info_of d1 = driver_info_of d0"
    using valid by (cases d0) (auto simp: bind_res_Ok_iff)
  ultimately show ?case using Cons.IH[OF rest] Cons.prems(2) ds by auto
qed (simp add: retc_def)

lemma vlan_setup_ends_in:
  assumes "sock_reads cur host" and "sock_reads cur netns"
  shows "ends_in cur (di_netns_host info)
    (vlan_setup sh (de_rng (ce_driver ce)) (de_grpc (ce_driver ce)) (de_runtime (ce_driver ce)) (de_os (ce_driver ce)) lib
       info data (host, netns))"
proof (cases data)
  case None
  then show ?thesis by (simp add: vlan_setup_def ends_in_reads)
next
  case (Some d)
  note [simp] = assms[unfolded sock_reads_def] create_vlan_link_reads[OF assms random] get_dhcp_lease_reads[OF proxy_calls]
    add_default_routes_reads[OF assms(2)]
  have iface: "reads cur (get_default_route_interface host)"
    unfolding get_default_route_interface_def by (intro reads_intros default_route_loop_reads assms(1)) simp
  show ?thesis
    unfolding vlan_setup_def vlan_setup_links_def Some prod.case option.case Let_def
    by (intro ends_in_bindc ends_in_seqc exec_ends_in) (auto intro!: ends_in_reads reads_intros iface)
qed

lemma driver_setup_ends_in:
  assumes "sock_reads cur host" and "sock_reads cur netns" and "firewall_frame (di_firewall (driver_info_of d)) cur"
  shows "ends_in cur (di_netns_host (driver_info_of d)) (driver_setup (ce_driver ce) d (host, netns))"
  using assms bridge_setup_ends_in[OF sysctls assms(1,2)]
  by (cases d) (simp_all add: vlan_setup_ends_in ends_in_reads plugin_setup_reads)

lemma setup_drivers_ends_in:
  assumes "sock_reads cur host" and "sock_reads cur netns"
    and "\<And>d. d \<in> set ds \<Longrightarrow> firewall_frame (di_firewall (driver_info_of d)) cur \<and> di_netns_host (driver_info_of d) = fd"
  shows "ends_in cur fd (setup_drivers (ce_driver ce) (host, netns) finished response entries ds)"
  using assms(3)
proof (induction ds arbitrary: finished response entries)
  case (Cons d ds)
  then have "ends_in cur fd (driver_setup (ce_driver ce) d (host, netns))"
    using driver_setup_ends_in[OF assms(1,2), of d] by auto
  then show ?case
    unfolding setup_drivers.simps using Cons by (intro ends_in_matchc) (auto simp: seqc_failc_not_ok split: prod.split)
qed (simp add: ends_in_reads)

lemma apply_dns_reads: "reads cur (apply_dns ce co port entries)"
proof -
  note [simp] = files[unfolded fs_reads_def] input_output
  have path: "reads cur (any_in_path (ce_fs ce) prog ps)" for prog ps
    by (induction ps) (auto intro!: reads_intros)
  have "reads cur (commit_netavark_entries (ce_fs ce) dbg env a es)" for dbg env a es
    unfolding commit_netavark_entries_def commit_entries_def commit_one_def open_network_file_def commit_entry_def
      notify_def get_aardvark_pid_def start_aardvark_server_def is_executable_in_path_def Let_def
    by (auto simp: path split: res.split kill_error.split option.split intro!: reads_intros)
  then show ?thesis
    unfolding apply_dns_def by (auto intro!: reads_intros)
qed

lemma sock_new_opens:
  assumes "sock_new (os_nl (de_os (ce_driver ce))) w = (Ok t, w')"
  shows "transport_reads cur t" and "cur w' = cur w"
proof -
  from assms obtain w1 w2 w3 where sock: "ns_socket (os_nl (de_os (ce_driver ce))) w = (Ok t, w1)"
    and bind: "ns_bind (os_nl (de_os (ce_driver ce))) t w1 = (Ok (), w2)"
    and conn: "ns_connect (os_nl (de_os (ce_driver ce))) t w2 = (Ok (), w3)"
    and w': "w' = tr_put t \<lparr>sk_sequence_number = 0, sk_buffer = replicate 8192 0\<rparr> w3"
    by (auto simp: sock_new_def comp_Ok)
  note calls = socket_calls[OF sock]
  then show "transport_reads cur t" by simp
  then show "cur w' = cur w"
    using readsD[OF new_socket sock] readsD[OF conjunct1[OF conjunct2[OF calls]] bind]
      readsD[OF conjunct2[OF conjunct2[OF calls]] conn]
    by (simp add: w' transport_reads_def)
qed

lemma open_netlink_sockets_opens:
  assumes "open_netlink_sockets (de_os (ce_driver ce)) lib path w = (Ok (hostns, netns), w')"
  shows "sock_reads cur (ns_netlink hostns) \<and> sock_reads cur (ns_netlink netns) \<and> cur w' = ns_fd hostns
    \<and> (\<exists>w0 w1. os_open (de_os (ce_driver ce)) ''/proc/self/ns/net'' w0 = (Ok (ns_fd hostns), w1) \<and> cur w0 = cur w)"
proof -
  from assms obtain fd w1 hfd w2 t w3 t' where
    op: "os_open (de_os (ce_driver ce)) path w = (Ok fd, w1)" and
    host: "os_open (de_os (ce_driver ce)) ''/proc/self/ns/net'' w1 = (Ok hfd, w2)" and
    new: "sock_new (os_nl (de_os (ce_driver ce))) w2 = (Ok t, w3)" and
    ex: "exec_netns (de_os (ce_driver ce)) hfd fd (attempt (wrapc ''netns netlink socket'' (sock_new (os_nl (de_os (ce_driver ce)))))) w3
       = (Ok (Ok t'), w')" and
    res: "hostns = \<lparr>ns_fd = hfd, ns_netlink = socket_of t lib\<rparr>" "netns = \<lparr>ns_fd = fd, ns_netlink = socket_of t' lib\<rparr>"
    by (auto simp: open_netlink_sockets_def open_netlink_socket_def comp_Ok)
  obtain w5 w6 where "sock_new (os_nl (de_os (ce_driver ce))) w5 = (Ok t', w6)"
    using ex by (rule exec_netns_runs_in_netns) (simp add: attempt_Ok_iff comp_Ok)
  then have "sock_reads cur (ns_netlink hostns)" "sock_reads cur (ns_netlink netns)"
    using sock_new_opens(1) new by (simp_all add: res socket_of_reads)
  moreover have "cur w' = hfd" using ex by (rule exec_netns_Ok_in_host)
  moreover have "cur w1 = cur w" using op by (rule readsD[OF opens])
  ultimately show ?thesis using host by (auto simp: res)
qed

lemma setup_exec_ends:
  assumes "setup_exec ce path co w = (Ok (), w')"
  shows "\<exists>fd w0 w1. os_open (de_os (ce_driver ce)) ''/proc/self/ns/net'' w0 = (Ok fd, w1)
    \<and> cur w0 = cur w \<and> cur w' = fd"
proof -
  from assms obtain w1 opts w2 fw w3 port hostns netns w4 w5 ds w6 resp entries w7 w8 json where
    checks: "ns_checks ce path w = (Ok (), w1)" and load: "load_options ce (co_file co) w1 = (Ok opts, w2)"
    and fw: "command_firewall ce w2 = (Ok fw, w3)"
    and opened: "open_netlink_sockets (de_os (ce_driver ce)) (de_lib (ce_driver ce)) path w3 = (Ok (hostns, netns), w4)"
    and up: "set_up (ns_netlink netns) (LinkID 1) w4 = (Ok (), w5)"
    and valid: "validated_drivers ce (command_driver_info fw opts (ns_fd hostns) (ns_fd netns) path port)
      (co_plugin_directories co) (no_networks opts) (no_network_info opts) w5 = (Ok ds, w6)"
    and run: "setup_drivers (ce_driver ce) (ns_netlink hostns, ns_netlink netns) [] Map.empty [] ds w6 = (Ok (resp, entries), w7)"
    and dns: "apply_dns ce co port entries w7 = (Ok (), w8)" and print: "ce_println ce json w8 = (Ok (), w')"
    by (auto simp: setup_exec_def comp_Ok)
  note socks = open_netlink_sockets_opens[OF opened]
  have before: "reads cur (ns_checks ce path)" "reads cur (load_options ce (co_file co))"
    by (simp_all add: ns_checks_def load_options_def input_output)
  have "cur w3 = cur w" using readsD[OF before(1) checks] readsD[OF before(2) load] readsD[OF firewall_reads fw] by simp
  moreover have loopback: "reads cur (set_up (ns_netlink netns) (LinkID 1))" using socks by (simp add: sock_reads_def)
  have "cur w6 = ns_fd hostns" using socks readsD[OF loopback up] readsD[OF validated_drivers_reads valid] by simp
  moreover have "ends_in cur (ns_fd hostns)
      (setup_drivers (ce_driver ce) (ns_netlink hostns, ns_netlink netns) [] Map.empty [] ds)"
    using socks firewall_is_framed[OF fw]
    by (intro setup_drivers_ends_in) (auto dest!: validated_drivers_info[OF valid] simp: command_driver_info_def)
  then have "cur w7 = ns_fd hostns" using run \<open>cur w6 = ns_fd hostns\<close> by (auto simp: ends_in_def)
  then have "cur w' = ns_fd hostns" using readsD[OF apply_dns_reads dns] readsD[OF input_output(4) print] by simp
  ultimately show ?thesis using socks by auto
qed

end

section \<open>A machine with a plugin\<close>

text \<open>The quiet machine with an executable plugin whose answers are empty status blocks.\<close>

definition plugin_env :: "network_options \<Rightarrow> ref_world cmd_env" where
  "plugin_env opts = (quiet_env opts)\<lparr>ce_driver := (ce_driver (quiet_env opts))\<lparr>
     de_metadata := (\<lambda>_. retc (True, 0x49)),
     de_plugin := quiet_plugin\<lparr>pl_status_block := (\<lambda>_. Ok \<lparr>sb_dns_search_domains = None, sb_dns_server_ips = None, sb_interfaces = None\<rparr>)\<rparr>\<rparr>\<rparr>"

interpretation plugin_machine: machine "plugin_env opts" rw_cur
proof -
  have os: "de_os (ce_driver (plugin_env opts)) = quiet_os" by (simp add: plugin_env_def quiet_env_def)
  show "machine (plugin_env opts) rw_cur"
  proof (intro machine.intro machine_axioms.intro)
    show "netns_laws (de_os (ce_driver (plugin_env opts))) rw_cur"
      unfolding os using ref_os.netns_laws_axioms by (auto simp: netns_laws_def quiet_os_def)
    show "sysctl_reads rw_cur (de_os (ce_driver (plugin_env opts)))"
      unfolding os using os_ref_sysctl_reads by (simp add: sysctl_reads_def quiet_os_def)
  qed (auto simp: os quiet_os_def os_ref_def plugin_env_def quiet_env_def quiet_plugin_def quiet_fs_def quiet_ipt_def
      no_dbus_def grpc_down_def transport_reads_def quiet_transport_def fs_reads_def iptables_reads_def dbus_reads_def
      grpc_reads_def plugin_reads_def reads_def retc_def failc_def split: option.split)
qed

abbreviation plugin_options :: network_options where
  "plugin_options \<equiv> quiet_options [(''odd'', example_network\<lparr>n_driver := ''odd''\<rparr>)]"

lemma quiet_set_up: "set_up (socket_of quiet_transport lib) i w = (Ok (), w)"
  by (simp add: socket_of_def sock_set_up_def ack_request_def make_netlink_request_def nl_send_def nl_recv_def
      recv_loop.simps recv_inner.simps quiet_transport_def expect_netlink_result_def comp_simps Let_def)

lemma plugin_env_like_quiet:
  "load_options (plugin_env opts) = load_options (quiet_env opts)" "ce_env (plugin_env opts) = ce_env (quiet_env opts)"
  "command_firewall (plugin_env opts) = command_firewall (quiet_env opts)"
  "de_os (ce_driver (plugin_env opts)) = de_os (ce_driver (quiet_env opts))"
  "de_lib (ce_driver (plugin_env opts)) = de_lib (ce_driver (quiet_env opts))"
  by (simp_all add: load_options_def command_firewall_def plugin_env_def fun_eq_iff)

lemma plugin_setup_run:
  "setup_exec (plugin_env plugin_options) ''/ns''
     (quiet_cmd\<lparr>co_plugin_directories := Some [''/plugins'']\<rparr>) quiet_world = (Ok (), quiet_world)"
proof -
  let ?e = "plugin_env plugin_options"
  have "ns_checks ?e ''/ns'' quiet_world = (Ok (), quiet_world)"
    by (simp add: ns_checks_def plugin_env_def quiet_env_def comp_simps)
  moreover have "validated_drivers ?e (command_driver_info fw opts h n path port) (Some [''/plugins''])
      (no_networks plugin_options) (no_network_info plugin_options) quiet_world
      = (Ok [DPlugin ''/plugins/odd''
          (command_driver_info fw opts h n path port (example_network\<lparr>n_driver := ''odd''\<rparr>) example_options)], quiet_world)"
    for fw opts h n path port
    by (simp add: quiet_options_def get_network_driver_def const_defs unwrap_or_def plugin_env_def quiet_env_def path_join_def
        command_driver_info_def comp_simps Let_def)
  moreover have "setup_drivers (ce_driver ?e) socks [] Map.empty [] [DPlugin p info] quiet_world =
      (Ok ([network_name (DPlugin p info) \<mapsto> \<lparr>sb_dns_search_domains = None, sb_dns_server_ips = None, sb_interfaces = None\<rparr>], []), quiet_world)"
    for socks p info
    by (simp add: plugin_env_def quiet_env_def quiet_plugin_def plugin_setup_def exec_plugin_def plugin_outcome_def
      attempt_def comp_simps)
  moreover have "apply_dns ?e co port [] quiet_world = (Ok (), quiet_world)" for co port
    by (simp add: apply_dns_def plugin_env_def quiet_env_def quiet_fs_def comp_simps)
  moreover have "ce_println ?e out quiet_world = (Ok (), quiet_world)" "ce_to_json ?e resp = Ok []" for out resp
    by (simp_all add: plugin_env_def quiet_env_def retc_def)
  ultimately show ?thesis
    by (simp add: setup_exec_def comp_simps plugin_env_like_quiet quiet_parts quiet_set_up quiet_cmd_def)
qed

section \<open>The namespace a failed set-up is rolled back in\<close>

lemma bridge_teardown_reads:
  assumes "sock_reads obs host" and "sock_reads obs netns" and "firewall_frame (di_firewall info) obs"
  shows "reads obs (bridge_teardown lib sha info data (host, netns))"
proof -
  note [simp] = assms(1,2)[unfolded sock_reads_def] assms(3)[unfolded firewall_frame_def]
  have "reads obs (remove_link host netns br name)" for br name
    unfolding remove_link_def by (intro reads_intros) simp_all
  moreover have "reads obs (teardown_firewall lib sha info data c)" for c
    unfolding teardown_firewall_def by (auto intro!: reads_intros)
  ultimately show ?thesis
    unfolding bridge_teardown_def by (auto intro!: reads_intros split: prod.split)
qed

context machine
begin

lemma plugin_teardown_reads: "reads cur (plugin_teardown (de_plugin (ce_driver ce)) path info)"
  using plugins(1) unfolding plugin_teardown_def exec_plugin_def
  by (auto simp: plugin_reads_def attempt_def intro!: reads_intros)

lemma vlan_teardown_reads:
  assumes "sock_reads cur host" and "sock_reads cur netns"
  shows "reads cur (vlan_teardown sh (de_grpc (ce_driver ce)) (de_runtime (ce_driver ce)) lib info (host, netns))"
proof -
  note [simp] = assms[unfolded sock_reads_def] proxy_calls(2) proxy_calls(1)[unfolded grpc_reads_def]
  show ?thesis
    unfolding vlan_teardown_def release_dhcp_lease_def build_runtime_def client_drop_lease_def get_client_def Let_def prod.case
    by (auto intro!: reads_intros)
qed

lemma driver_teardown_reads:
  assumes "sock_reads cur host" and "sock_reads cur netns" and "firewall_frame (di_firewall (driver_info_of d)) cur"
  shows "reads cur (driver_teardown (ce_driver ce) d (host, netns))"
  using assms bridge_teardown_reads vlan_teardown_reads[OF assms(1,2)]
  by (cases d) (simp_all add: plugin_teardown_reads)

lemma tears_down_prefix:
  assumes "sock_reads cur host" and "sock_reads cur netns"
    and "\<forall>d\<in>set ds. firewall_frame (di_firewall (driver_info_of d)) cur"
    and "tears_down (ce_driver ce) (host, netns) (ds @ rest) w w'"
  shows "\<exists>v. tears_down (ce_driver ce) (host, netns) ds w v \<and> cur v = cur w
    \<and> tears_down (ce_driver ce) (host, netns) rest v w'"
  using assms(3,4)
proof (induction ds arbitrary: w)
  case (Cons d ds)
  obtain r w1 where run: "driver_teardown (ce_driver ce) d (host, netns) w = (r, w1)" by fastforce
  with readsD[OF driver_teardown_reads[OF assms(1,2)] run] Cons.prems Cons.IH[of w1] show ?case by auto
qed simp

lemma rollback_namespace:
  assumes "sock_reads cur host" and "sock_reads cur netns"
    and "\<forall>d\<in>set before. firewall_frame (di_firewall (driver_info_of d)) cur"
    and "tears_down (ce_driver ce) (host, netns) before w2 w3"
  shows "cur w3 = cur w2 \<and> (\<forall>b1 d b2. before = b1 @ d # b2 \<longrightarrow>
    (\<exists>v. tears_down (ce_driver ce) (host, netns) b1 w2 v \<and> cur v = cur w2
       \<and> tears_down (ce_driver ce) (host, netns) (d # b2) v w3))"
proof (intro conjI allI impI)
  show "cur w3 = cur w2" using tears_down_prefix[OF assms(1-3), of "[]" w2 w3] assms(4) by auto
next
  fix b1 d b2
  assume b: "before = b1 @ d # b2"
  with assms(3) have "\<forall>d\<in>set b1. firewall_frame (di_firewall (driver_info_of d)) cur" by simp
  from tears_down_prefix[OF assms(1,2) this, of "d # b2" w2 w3] assms(4) b
  show "\<exists>v. tears_down (ce_driver ce) (host, netns) b1 w2 v \<and> cur v = cur w2
       \<and> tears_down (ce_driver ce) (host, netns) (d # b2) v w3" by simp
qed

end

text \<open>A machine on which the sysctls of the container cannot be set.\<close>

definition denied_env :: "ref_world cmd_env" where
  "denied_env = (plugin_env plugin_options)\<lparr>ce_driver := (ce_driver (plugin_env plugin_options))
     \<lparr>de_os := quiet_os\<lparr>ctl_new := (\<lambda>_. failc (SysctlOther ''permission denied''))\<rparr>\<rparr>\<rparr>"

interpretation denied_machine: machine denied_env rw_cur
proof (intro machine.intro machine_axioms.intro)
  show "netns_laws (de_os (ce_driver denied_env)) rw_cur"
    using ref_os.netns_laws_axioms by (auto simp: netns_laws_def quiet_os_def denied_env_def)
  show "sysctl_reads rw_cur (de_os (ce_driver denied_env))"
    using os_ref_sysctl_reads by (simp add: sysctl_reads_def quiet_os_def denied_env_def)
qed (auto simp: denied_env_def quiet_os_def os_ref_def plugin_env_def quiet_env_def quiet_plugin_def quiet_fs_def quiet_ipt_def
    no_dbus_def grpc_down_def transport_reads_def quiet_transport_def fs_reads_def iptables_reads_def dbus_reads_def
    grpc_reads_def plugin_reads_def reads_def retc_def failc_def split: option.split)

definition forwarding_world :: ref_world where
  "forwarding_world = quiet_world\<lparr>rw_once := [''IPV4_FORWARD_ONCE'']\<rparr>"

abbreviation odd_driver :: "ref_world network_driver" where
  "odd_driver \<equiv> DPlugin ''/plugins/odd'' (example_info fwnone_driver)"

abbreviation bridge_driver :: "ref_world network_driver" where
  "bridge_driver \<equiv> DBridge (example_info fwnone_driver) (Some example_data)"

lemma denied_runs:
  "\<exists>r. driver_setup (ce_driver denied_env) odd_driver socks w = (Ok r, w)"
  "driver_teardown (ce_driver denied_env) odd_driver socks w = (Ok (), w)"
  "driver_setup (ce_driver denied_env) bridge_driver (host_sock_ref, netns_sock_ref) forwarding_world =
     (Err (Chain ''failed to set autoconf sysctl'' (Sysctl (SysctlOther ''permission denied''))), forwarding_world\<lparr>rw_cur := 4\<rparr>)"
  by (simp_all add: denied_env_def plugin_env_def quiet_env_def quiet_plugin_def plugin_setup_def plugin_teardown_def exec_plugin_def
      plugin_outcome_def attempt_def comp_simps)
    (simp add: bridge_run_defs quiet_os_def forwarding_world_def quiet_world_def Let_def example_defs encode_address_to_hex_def hex2_def wrap_def)

end
