(* ===== verification/Driver_Data.thy ===== *)
theory Driver_Data
  imports Commands
begin

text \<open>
  What validation (\<^verbatim>\<open>Bridge::validate\<close>, \<^verbatim>\<open>Vlan::validate\<close>) promises of the data
  a driver is set up with: \<open>driver_ready\<close>, the well-formedness of the model's driver type.
\<close>

section \<open>Well-formed addresses\<close>

text \<open>
  Addresses as the drivers use them: one entry of the report per address of the container, prefix
  lengths that exist for the family, the gateways those of the report (none on an internal macvlan or
  ipvlan network), and no static address with DHCP.
\<close>

definition net_ok :: "ip_net \<Rightarrow> bool" where
  "net_ok n \<longleftrightarrow> unat (net_prefix_len n) \<le> max_prefix (net_addr n)"

definition reported_gateways :: "net_address list \<Rightarrow> ip_addr list" where
  "reported_gateways nas = concat (map (\<lambda>na. case na_gateway na of None \<Rightarrow> [] | Some gw \<Rightarrow> [gw]) nas)"

definition ipam_ok :: "bool \<Rightarrow> ipam_addresses \<Rightarrow> bool" where
  "ipam_ok no_gateways ia \<longleftrightarrow>
     map na_ipnet (ia_net_addresses ia) = ia_container_addresses ia
     \<and> list_all net_ok (ia_container_addresses ia) \<and> list_all net_ok (ia_gateway_addresses ia)
     \<and> ia_nameservers ia = reported_gateways (ia_net_addresses ia)
     \<and> map net_addr (ia_gateway_addresses ia) = (if no_gateways then [] else ia_nameservers ia)
     \<and> (ia_dhcp_enabled ia \<longrightarrow> ia_container_addresses ia = [])"

lemma fold_res_inv:
  assumes "fold_res f xs s = Ok s'" and "P s" and "\<And>x s s'. x \<in> set xs \<Longrightarrow> P s \<Longrightarrow> f x s = Ok s' \<Longrightarrow> P s'"
  shows "P s'"
  using assms by (induction xs arbitrary: s) auto

context ipnet_laws
begin

lemma from_str_Ok_iff:
  "ipnet_from_str lib (show_ip ip @ ''/'' @ show_nat (unat p)) = Ok n \<longleftrightarrow> unat p \<le> max_prefix ip \<and> n = mk_net ip p"
  using from_str_ok[of p ip] from_str_err[of ip p] by (cases "unat p \<le> max_prefix ip") auto

lemma ipam_subnet_only_fits:
  assumes "ipam_subnet lib ips (idx, s) acc = Ok acc'"
  shows "idx < length ips \<and> prefix_fits (s, ips ! idx)"
  using assms
  by (auto simp: ipam_subnet_def prefix_fits_def gateway_fits_def new_Ok_iff from_str_Ok_iff[simplified] Let_def
      split: option.splits if_splits)

lemma ipam_extend_ok:
  assumes "ipam_ok False acc" and "\<not> ia_dhcp_enabled acc" and "prefix_fits (s, ip)"
  shows "ipam_ok False (ipam_extend acc [(s, ip)])"
  using assms
  by (auto simp: ipam_ok_def ipam_extend_def reported_gateways_def gateways_def net_ok_def prefix_fits_def gateway_fits_def
      split: option.splits)

lemma get_ipam_addresses_ok:
  assumes "get_ipam_addresses lib opts net = Ok ia"
  shows "ipam_ok False ia"
proof -
  have step: "ipam_ok False acc' \<and> \<not> ia_dhcp_enabled acc'"
    if "ipam_ok False acc \<and> \<not> ia_dhcp_enabled acc" and "ipam_subnet lib ips p acc = Ok acc'" for ips p acc acc'
  proof -
    obtain idx s where p: "p = (idx, s)" by fastforce
    then have fits: "idx < length ips \<and> prefix_fits (s, ips ! idx)" using ipam_subnet_only_fits that(2) by blast
    then have "acc' = ipam_extend acc [(s, ips ! idx)]" using ipam_subnet_fits that(2) p by simp
    then show ?thesis using ipam_extend_ok fits that(1) by (simp add: ipam_extend_def)
  qed
  have empty: "ipam_ok False (ipam_empty dhcp)" for dhcp
    by (simp add: ipam_ok_def ipam_empty_def reported_gateways_def)
  have "ipam_ok False ia \<and> \<not> ia_dhcp_enabled ia"
    if "fold_res (ipam_subnet lib ips) xs (ipam_empty False) = Ok ia" for ips xs
    using that
  proof (rule fold_res_inv)
    show "ipam_ok False (ipam_empty False) \<and> \<not> ia_dhcp_enabled (ipam_empty False)"
      using empty by (simp add: ipam_empty_def)
  qed (rule step)
  then show ?thesis
    using assms empty by (auto simp: get_ipam_addresses_def Let_def split: if_splits option.splits)
qed

end

section \<open>Well-formed drivers\<close>

fun driver_ready :: "'w network_driver \<Rightarrow> bool" where
  "driver_ready (DBridge info data) =
     (case data of
        None \<Rightarrow> False
      | Some d \<Rightarrow> bd_container_interface_name d = pn_interface_name (di_per_network_opts info)
          \<and> bd_container_interface_name d \<noteq> [] \<and> bd_bridge_interface_name d \<noteq> []
          \<and> pred_option (\<lambda>m. length m = 6) (bd_mac_address d) \<and> ipam_ok False (bd_ipam d))"
| "driver_ready (DVlan info data) =
     (case data of
        None \<Rightarrow> False
      | Some d \<Rightarrow> vd_container_interface_name d = pn_interface_name (di_per_network_opts info)
          \<and> vd_container_interface_name d \<noteq> []
          \<and> (case vd_kind d of
               KindMacVlan mac _ \<Rightarrow> n_driver (di_network info) = DRIVER_MACVLAN \<and> pred_option (\<lambda>m. length m = 6) mac
             | KindIpVlan mode \<Rightarrow> n_driver (di_network info) = DRIVER_IPVLAN \<and> unat mode \<le> 2)
          \<and> ipam_ok (n_internal (di_network info)) (vd_ipam d))"
| "driver_ready (DPlugin path info) = True"

lemma decode_address_length: "decode_address_from_hex s = Ok b \<Longrightarrow> length b = 6"
  by (auto simp: decode_address_from_hex_def split: res.splits if_splits)

lemma ipvlan_mode_range: "get_ipvlan_mode_from_string s = Ok m \<Longrightarrow> unat m \<le> 2"
  by (auto simp: get_ipvlan_mode_from_string_def IPVLAN_MODE_L2_def IPVLAN_MODE_L3_def IPVLAN_MODE_L3S_def split: if_splits)

lemma bridge_validate_ready:
  assumes "ipnet_laws lib" and "bridge_validate lib info = Ok d"
  shows "driver_ready (DBridge info (Some d))"
  using assms(2) ipnet_laws.get_ipam_addresses_ok[OF assms(1)] decode_address_length
  by (auto simp: bridge_validate_def get_interface_name_def decode_static_mac_def Let_def split: if_splits option.splits)

lemma vlan_validate_ready:
  assumes "ipnet_laws lib" and "vlan_validate lib info = Ok d"
  shows "driver_ready (DVlan info (Some d))"
proof -
  have "ipam_ok True (ia\<lparr>ia_gateway_addresses := []\<rparr>)" if "ipam_ok False ia" for ia
    using that by (simp add: ipam_ok_def)
  with assms(2) ipnet_laws.get_ipam_addresses_ok[OF assms(1)] decode_address_length ipvlan_mode_range show ?thesis
    by (cases "n_internal (di_network info)")
      (auto simp: vlan_validate_def vlan_kind_def Let_def split: if_splits option.splits)
qed

lemma driver_validate_ready:
  "ipnet_laws (de_lib de) \<Longrightarrow> driver_validate de d = Ok d' \<Longrightarrow> driver_ready d'"
  by (cases d) (auto simp del: driver_ready.simps(1,2) intro: bridge_validate_ready vlan_validate_ready)

text \<open>
  C17: every driver that passed validation is complete and well-formed, and no driver is left out or
  added.  A bridge or vlan driver has its data; the name of the interface in the container, and that of
  a bridge, are not empty (the host interface of a vlan driver may be); a hardware address has six
  bytes; the kind of link fits the driver; every address and gateway has a prefix length that exists for
  its family; the report lists exactly the configured addresses; and the configured gateways are those
  reported, except on an internal macvlan or ipvlan network, where none is configured although the
  report still lists them.  Nothing is required of a plugin.
\<close>

theorem validated_drivers_ready:
  assumes "ipnet_laws (de_lib (ce_driver ce))"
    and "validated_drivers ce mk dirs opts nets w = (Ok ds, w')"
  shows "list_all driver_ready ds \<and> length ds = length nets"
  using assms(2)
proof (induction nets arbitrary: w w' ds)
  case (Cons n nets)
  obtain name net where "n = (name, net)" by fastforce
  with Cons.prems obtain d0 d1 ds' w1 w2 where "driver_validate (ce_driver ce) d0 = Ok d1"
    and "validated_drivers ce mk dirs opts nets w1 = (Ok ds', w2)" and "ds = d1 # ds'"
    by (auto simp: comp_Ok split: option.splits)
  with Cons.IH[of w1 ds' w2] driver_validate_ready[OF assms(1)] show ?case by (auto simp: Cons)
qed (simp add: retc_def)

theorem validated_drivers_ready_witness:
  "\<exists>ds. validated_drivers (quiet_env (quiet_options [(''odd'', example_network)]))
     (command_driver_info fwnone_driver (quiet_options [(''odd'', example_network)]) 3 4 ''/ns'' 53) None
     [''odd'' \<mapsto> example_options] [(''odd'', example_network)] quiet_world = (Ok ds, quiet_world)
     \<and> length ds = 1 \<and> list_all driver_ready ds"
proof -
  let ?e = "quiet_env (quiet_options [(''odd'', example_network)])"
  let ?mk = "command_driver_info fwnone_driver (quiet_options [(''odd'', example_network)]) 3 4 ''/ns'' 53"
  have "is_ok (get_ipam_addresses ipnet_ref example_options example_network)" by code_simp
  then obtain ia where ia: "get_ipam_addresses ipnet_ref example_options example_network = Ok ia"
    by (cases "get_ipam_addresses ipnet_ref example_options example_network") auto
  have run: "\<exists>ds. validated_drivers ?e ?mk None [''odd'' \<mapsto> example_options] [(''odd'', example_network)] quiet_world
      = (Ok ds, quiet_world)"
    using ia
    by (simp add: get_network_driver_def bridge_validate_def command_driver_info_def quiet_env_def const_defs
        get_interface_name_def decode_static_mac_def parse_option_def example_defs comp_simps Let_def)
  moreover have "ipnet_laws (de_lib (ce_driver ?e))"
    by (simp add: quiet_env_def ipnet.ipnet_laws_axioms)
  ultimately show ?thesis using validated_drivers_ready by fastforce
qed

end
