(* ===== verification/Plugin_Process.thy ===== *)
theory Plugin_Process
  imports Drivers
begin

text \<open>
  A plugin run as a process: \<^verbatim>\<open>PluginDriver::exec_plugin\<close> on netavark's side of the pipes and
  \<^verbatim>\<open>PluginExec::exec\<close> on the other.  \<open>run_plugin\<close> is the process, over the
  machine and its standard output; the locale \<open>plugin_process\<close> is what the operating
  system and the JSON library do with it.  Netavark gets what the plugin's function returns.
\<close>

section \<open>The process\<close>

record plugin_json =
  pj_status :: "status_block \<Rightarrow> string"
  pj_error :: "string \<Rightarrow> string"
  pj_network :: "network \<Rightarrow> string"
  pj_info :: "plugin_info \<Rightarrow> string"
  pj_read_network :: "network_plugin_exec \<Rightarrow> (string, network) res"

definition on_machine :: "('w, 'e, 'a) comp \<Rightarrow> ('w \<times> string, 'e, 'a) comp" where
  "on_machine m = (\<lambda>(w, out). case m w of (r, w') \<Rightarrow> (r, (w', out)))"

definition emit :: "string \<Rightarrow> ('w \<times> string, 'e, unit) comp" where
  "emit s = (\<lambda>(w, out). (Ok (), (w, out @ s)))"

text \<open>Standard input holds the request, standard output collects what is written.\<close>

definition process_io :: "plugin_json \<Rightarrow> network_plugin_exec \<Rightarrow> ('w \<times> string) plugin_io" where
  "process_io js input =
     \<lparr>pio_read_network = liftc (pj_read_network js input), pio_read_exec = retc input,
      pio_write_network = (\<lambda>n. emit (pj_network js n)), pio_write_status = (\<lambda>st. emit (pj_status js st)),
      pio_write_info = (\<lambda>i. emit (pj_info js i)), pio_write_error = (\<lambda>e. emit (pj_error js e)),
      pio_println = (\<lambda>s. emit (s @ [CHR 0x0A]))\<rparr>"

definition process_prog :: "'w plugin_prog \<Rightarrow> ('w \<times> string) plugin_prog" where
  "process_prog pg =
     \<lparr>pg_create = (\<lambda>n. on_machine (pg_create pg n)), pg_setup = (\<lambda>ns x. on_machine (pg_setup pg ns x)),
      pg_teardown = (\<lambda>ns x. on_machine (pg_teardown pg ns x)), pg_info = pg_info pg\<rparr>"

definition run_plugin ::
  "plugin_json \<Rightarrow> 'w plugin_prog \<Rightarrow> string list \<Rightarrow> network_plugin_exec \<Rightarrow> 'w \<Rightarrow> (string, int) res \<times> 'w \<times> string" where
  "run_plugin js pg args input w = plugin_exec (process_prog pg) (process_io js input) args (w, [])"

section \<open>Both sides together\<close>

text \<open>What the plugin's own function answers to a request of netavark.\<close>

definition plugin_answer ::
  "'w plugin_prog \<Rightarrow> bool \<Rightarrow> string \<Rightarrow> network_plugin_exec \<Rightarrow> ('w, string, status_block option) comp" where
  "plugin_answer pg setup netns input =
     (if setup then bindc (pg_setup pg netns input) (\<lambda>st. retc (Some st))
      else seqc (pg_teardown pg netns input) (retc None))"

text \<open>
  A child process runs the plugin with its arguments and input; its output and exit code come back
  through the pipe and the wait.  JSON that one side writes, the other reads.
\<close>

locale plugin_process =
  fixes pl :: "'v plugin_sys" and mach :: "'v \<Rightarrow> 'w" and pg :: "'w plugin_prog" and js :: plugin_json
  assumes child_runs: "pl_spawn pl args v = (Ok child, v1) \<Longrightarrow> pl_send pl child input v1 = (Ok (), v2) \<Longrightarrow>
      run_plugin js pg args input (mach v) = (Ok code, w', out) \<Longrightarrow>
      \<exists>v3 v4. pl_read_to_end pl child v2 = (Ok out, v3) \<and> pl_wait pl child v3 = (Ok (Some code), v4) \<and> mach v4 = w'"
    and status_json: "pg_setup pg netns input w = (Ok st, w') \<Longrightarrow> pl_status_block pl (pj_status js st) = Ok st"
    and error_json: "pl_json_error pl (pj_error js e) = Ok e"
begin

lemma run_plugin_answer:
  assumes "plugin_answer pg setup netns input w = (r, w')" and "r \<noteq> Panic" and "r \<noteq> Hang"
  shows "run_plugin js pg [path, if setup then ''setup'' else ''teardown'', netns] input w =
    (case r of
       Ok (Some st) \<Rightarrow> (Ok 0, w', pj_status js st)
     | Ok None \<Rightarrow> (Ok 0, w', [])
     | Err e \<Rightarrow> (Ok 1, w', pj_error js e)
     | _ \<Rightarrow> (Panic, w', []))"
proof (cases "setup")
  case True
  obtain r1 w1 where "pg_setup pg netns input w = (r1, w1)" by fastforce
  with True assms show ?thesis
    by (cases r1) (auto simp: run_plugin_def plugin_exec_def inner_exec_def plugin_answer_def process_prog_def
        process_io_def on_machine_def emit_def netns_arg_def comp_simps)
next
  case False
  obtain r1 w1 where "pg_teardown pg netns input w = (r1, w1)" by fastforce
  with False assms show ?thesis
    by (cases r1) (auto simp: run_plugin_def plugin_exec_def inner_exec_def plugin_answer_def process_prog_def
        process_io_def on_machine_def emit_def netns_arg_def comp_simps)
qed

lemma exec_plugin_answer:
  assumes spawn: "pl_spawn pl [path, if setup then ''setup'' else ''teardown'', netns] v = (Ok child, v1)"
    and send: "pl_send pl child (plugin_input info) v1 = (Ok (), v2)"
    and answer: "plugin_answer pg setup netns (plugin_input info) (mach v) = (r, w')" and "r \<noteq> Panic" and "r \<noteq> Hang"
  shows "\<exists>v'. exec_plugin pl path info setup netns v =
      (map_err (\<lambda>e. Message (''exit code 1, message: '' @ e)) r, v') \<and> mach v' = w'"
proof -
  note run = run_plugin_answer[OF answer assms(4,5), of path]
  have json: "pl_status_block pl (pj_status js st) = Ok st" if "setup" and "r = Ok (Some st)" for st
    using answer that by (auto simp: plugin_answer_def comp_Ok intro: status_json)
  have shape: "r = Ok x \<Longrightarrow> (x \<noteq> None) = setup" for x
    using answer by (auto simp: plugin_answer_def comp_Ok split: if_splits)
  obtain code out where res: "run_plugin js pg [path, if setup then ''setup'' else ''teardown'', netns] (plugin_input info) (mach v)
      = (Ok code, w', out)" and code: "code = (case r of Ok _ \<Rightarrow> 0 | _ \<Rightarrow> 1)"
    and out: "out = (case r of Ok (Some st) \<Rightarrow> pj_status js st | Err e \<Rightarrow> pj_error js e | _ \<Rightarrow> [])"
    using run assms(4,5) by (cases r) (auto split: option.splits)
  from child_runs[OF spawn send res] obtain v3 v4 where "pl_read_to_end pl child v2 = (Ok out, v3)"
    and "pl_wait pl child v3 = (Ok (Some code), v4)" and "mach v4 = w'" by blast
  moreover have "plugin_outcome pl setup (Some code) (Ok out) = map_err (\<lambda>e. Message (''exit code 1, message: '' @ e)) r"
    using code out assms(4,5) json shape error_json
    by (cases r) (auto simp: plugin_outcome_def show_int_def show_nat.simps digit_char_def split: option.splits)
  ultimately have "exec_plugin pl path info setup netns v =
      (map_err (\<lambda>e. Message (''exit code 1, message: '' @ e)) r, v4)"
    using spawn send by (simp add: exec_plugin_def attempt_def comp_simps)
  with \<open>mach v4 = w'\<close> show ?thesis by blast
qed

end

section \<open>An executable process system\<close>

record 'w proc_world =
  pw_mach :: 'w
  pw_args :: "string list"
  pw_out :: string
  pw_code :: "int option"

text \<open>
  The child runs when its input is closed.  A panic exits with 101; a child that does not return
  keeps netavark waiting.
\<close>

definition process_sys ::
  "plugin_json \<Rightarrow> (string \<Rightarrow> (string, status_block) res) \<Rightarrow> (string \<Rightarrow> (string, string) res) \<Rightarrow> 'w plugin_prog \<Rightarrow>
     'w proc_world plugin_sys" where
  "process_sys js read_status read_error pg =
     \<lparr>pl_spawn = (\<lambda>args v. (Ok 1, v\<lparr>pw_args := args\<rparr>)),
      pl_send = (\<lambda>_ input v.
        case run_plugin js pg (pw_args v) input (pw_mach v) of
          (Ok code, w, out) \<Rightarrow> (Ok (), v\<lparr>pw_mach := w, pw_out := out, pw_code := Some code\<rparr>)
        | (Hang, w, out) \<Rightarrow> (Hang, v\<lparr>pw_mach := w\<rparr>)
        | (_, w, out) \<Rightarrow> (Ok (), v\<lparr>pw_mach := w, pw_out := out, pw_code := Some 101\<rparr>)),
      pl_read_to_end = (\<lambda>_ v. (Ok (pw_out v), v)), pl_wait = (\<lambda>_ v. (Ok (pw_code v), v)),
      pl_status_block = read_status, pl_json_error = read_error\<rparr>"

lemma process_sys_runs:
  assumes "\<And>netns input w st w'. pg_setup pg netns input w = (Ok st, w') \<Longrightarrow> read_status (pj_status js st) = Ok st"
    and "\<And>e. read_error (pj_error js e) = Ok e"
  shows "plugin_process (process_sys js read_status read_error pg) pw_mach pg js"
  using assms by unfold_locales (auto simp: process_sys_def)

end
