(* ===== verification/Example_Plugins.thy ===== *)
theory Example_Plugins
  imports Plugin_Process
begin

text \<open>
  \<^verbatim>\<open>examples\<close>: the plugins that come with the repository, and what netavark gets from a
  plugin that runs as a process.  \<open>eprintln\<close> writes to standard error; \<open>open_sockets\<close>
  is \<open>open_netlink_sockets\<close> in the plugin itself.
\<close>

section \<open>The plugins that always fail and that only talk\<close>

definition example_plugin_info :: plugin_info where
  "example_plugin_info = plugin_info_new ''0.1.0-dev'' API_VERSION None"

definition error_plugin :: "'w plugin_prog" where
  "error_plugin =
     \<lparr>pg_create = (\<lambda>_. failc ''create error''), pg_setup = (\<lambda>_ _. failc ''setup error''),
      pg_teardown = (\<lambda>_ _. failc ''teardown error''), pg_info = example_plugin_info\<rparr>"

definition empty_status :: status_block where
  "empty_status = \<lparr>sb_dns_search_domains = None, sb_dns_server_ips = None, sb_interfaces = None\<rparr>"

definition stderr_plugin :: "(string \<Rightarrow> ('w, string, unit) comp) \<Rightarrow> 'w plugin_prog" where
  "stderr_plugin eprintln =
     \<lparr>pg_create = (\<lambda>network. seqc (eprintln ''stderr create'') (retc network)),
      pg_setup = (\<lambda>_ _. seqc (eprintln ''stderr setup'') (retc empty_status)),
      pg_teardown = (\<lambda>_ _. eprintln ''stderr teardown''), pg_info = example_plugin_info\<rparr>"

section \<open>The plugin that moves a host device\<close>

definition ipv6_of_octets :: "8 word list \<Rightarrow> ipv6_addr" where
  "ipv6_of_octets a =
     (let seg = (\<lambda>i. push_bit 8 (ucast (a ! (2 * i))) OR ucast (a ! (2 * i + 1)))
      in Ipv6Addr (seg 0) (seg 1) (seg 2) (seg 3) (seg 4) (seg 5) (seg 6) (seg 7))"

definition netlink_ip :: "8 word list \<Rightarrow> (string, ip_addr) res" where
  "netlink_ip a =
     (if length a = 4 then Ok (V4 (Ipv4Addr (a ! 0) (a ! 1) (a ! 2) (a ! 3)))
      else if length a = 16 then Ok (V6 (ipv6_of_octets a))
      else Err (''invalid netlink address, length: '' @ show_nat (length a)))"

fun nla_subnets :: "ipnet_lib \<Rightarrow> 8 word \<Rightarrow> addr_nla list \<Rightarrow> (string, net_address list) res" where
  "nla_subnets lib prefix_len [] = Ok []"
| "nla_subnets lib prefix_len (ANlaAddress a # nlas) =
     bind_res (netlink_ip a) (\<lambda>ip.
     bind_res (ipnet_new lib ip prefix_len) (\<lambda>net.
     bind_res (nla_subnets lib prefix_len nlas) (\<lambda>subnets.
     Ok (\<lparr>na_gateway = None, na_ipnet = net\<rparr> # subnets))))"
| "nla_subnets lib prefix_len (_ # nlas) = nla_subnets lib prefix_len nlas"

fun link_subnets :: "ipnet_lib \<Rightarrow> 32 word \<Rightarrow> address_message list \<Rightarrow> (string, net_address list) res" where
  "link_subnets lib index [] = Ok []"
| "link_subnets lib index (address # addresses) =
     bind_res (if am_index address = index then nla_subnets lib (am_prefix_len address) (am_nlas address) else Ok [])
       (\<lambda>xs. bind_res (link_subnets lib index addresses) (\<lambda>ys. Ok (xs @ ys)))"

fun link_mac :: "link_nla list \<Rightarrow> string \<Rightarrow> string" where
  "link_mac [] mac = mac"
| "link_mac (NlaAddress addr # nlas) mac = link_mac nlas (encode_address_to_hex addr)"
| "link_mac (_ # nlas) mac = link_mac nlas mac"

definition host_device_create :: "network \<Rightarrow> ('w, string, network) comp" where
  "host_device_create network =
     (if unwrap_or (n_network_interface network) [] = [] then failc ''no network interface is specified'' else retc network)"

definition host_device_setup ::
  "(status \<Rightarrow> string) \<Rightarrow> ipnet_lib \<Rightarrow> (string \<Rightarrow> ('w, 'w namespace_options \<times> 'w namespace_options) ncomp) \<Rightarrow>
     string \<Rightarrow> network_plugin_exec \<Rightarrow> ('w, string, status_block) comp" where
  "host_device_setup sh lib open_sockets netns_path opts =
     bindc (map_errc (display sh) (open_sockets netns_path)) (\<lambda>(host, netns).
     let name = unwrap_or (n_network_interface (npe_network opts)) [] in
     bindc (map_errc (display sh) (get_link (ns_netlink host) (LinkName name))) (\<lambda>link.
     bindc (map_errc (display sh) (dump_addresses (ns_netlink host))) (\<lambda>addresses.
     bindc (liftc (link_subnets lib (lm_index link) addresses)) (\<lambda>subnets.
     seqc (map_errc (display sh) (set_link_ns (ns_netlink host) (lm_index link) (ns_fd netns)))
       (retc (empty_status\<lparr>sb_interfaces :=
          Some [name \<mapsto> \<lparr>ni_mac_address = link_mac (lm_nlas link) [], ni_subnets = Some subnets\<rparr>]\<rparr>))))))"

definition host_device_teardown ::
  "(status \<Rightarrow> string) \<Rightarrow> (string \<Rightarrow> ('w, 'w namespace_options \<times> 'w namespace_options) ncomp) \<Rightarrow>
     string \<Rightarrow> network_plugin_exec \<Rightarrow> ('w, string, unit) comp" where
  "host_device_teardown sh open_sockets netns_path opts =
     bindc (map_errc (display sh) (open_sockets netns_path)) (\<lambda>(host, netns).
     let name = unwrap_or (n_network_interface (npe_network opts)) [] in
     bindc (map_errc (display sh) (get_link (ns_netlink netns) (LinkName name))) (\<lambda>link.
     map_errc (display sh) (set_link_ns (ns_netlink netns) (lm_index link) (ns_fd host))))"

definition host_device_plugin :: "(status \<Rightarrow> string) \<Rightarrow> 'w os \<Rightarrow> ipnet_lib \<Rightarrow> 'w plugin_prog" where
  "host_device_plugin sh os lib =
     \<lparr>pg_create = host_device_create, pg_setup = host_device_setup sh lib (open_netlink_sockets os lib),
      pg_teardown = host_device_teardown sh (open_netlink_sockets os lib), pg_info = example_plugin_info\<rparr>"

section \<open>What netavark gets from a plugin\<close>

text \<open>JSON for these plugins: an error is its text, the only status is empty.\<close>

definition example_json :: plugin_json where
  "example_json = \<lparr>pj_status = (\<lambda>_. ''{}''), pj_error = (\<lambda>e. e), pj_network = n_name, pj_info = pi_version,
     pj_read_network = (\<lambda>_. Err ''missing field'')\<rparr>"

abbreviation example_process :: "'w plugin_prog \<Rightarrow> 'w proc_world plugin_sys" where
  "example_process \<equiv> process_sys example_json (\<lambda>_. Ok empty_status) Ok"

interpretation error_process: plugin_process "example_process error_plugin" pw_mach error_plugin example_json
  by (rule process_sys_runs) (simp_all add: error_plugin_def example_json_def failc_def)

interpretation stderr_process: plugin_process "example_process (stderr_plugin eprintln)" pw_mach "stderr_plugin eprintln" example_json
  by (rule process_sys_runs) (auto simp: stderr_plugin_def example_json_def comp_Ok)

text \<open>
  C11: running a plugin as a process gives netavark what the plugin's own function answers: a status
  block arrives unchanged, an error becomes exit code 1 with the plugin's message, and the plugin's
  effect on the machine is the effect of its function, for set-up and tear-down alike.
\<close>

theorem plugin_answer_arrives:
  assumes "plugin_process pl mach pg js"
    and "pl_spawn pl [path, if setup then ''setup'' else ''teardown'', netns] v = (Ok child, v1)"
    and "pl_send pl child (plugin_input info) v1 = (Ok (), v2)"
    and "plugin_answer pg setup netns (plugin_input info) (mach v) = (r, w')" and "r \<noteq> Panic" and "r \<noteq> Hang"
  shows "\<exists>v'. exec_plugin pl path info setup netns v =
      (map_err (\<lambda>e. Message (''exit code 1, message: '' @ e)) r, v') \<and> mach v' = w'"
  using plugin_process.exec_plugin_answer[OF assms] .

theorem plugin_answer_arrives_witness:
  "fst (plugin_setup (example_process error_plugin) ''/plugins/error-plugin'' (example_info fwnone_driver)
     \<lparr>pw_mach = (), pw_args = [], pw_out = [], pw_code = None\<rparr>) =
   Err (Chain (plugin_failed ''/plugins/error-plugin'') (Message ''exit code 1, message: setup error''))"
proof -
  let ?v = "\<lparr>pw_mach = (), pw_args = [], pw_out = [], pw_code = None\<rparr>"
  let ?info = "example_info (fwnone_driver :: unit proc_world firewall_driver)"
  let ?args = "[''/plugins/error-plugin'', ''setup'', di_netns_path ?info]"
  obtain v2 where "pl_send (example_process error_plugin) 1 (plugin_input ?info) (?v\<lparr>pw_args := ?args\<rparr>) = (Ok (), v2)"
    by (simp add: process_sys_def run_plugin_def plugin_exec_def inner_exec_def process_prog_def process_io_def
        error_plugin_def on_machine_def emit_def netns_arg_def comp_simps)
  then obtain v' where "exec_plugin (example_process error_plugin) ''/plugins/error-plugin'' ?info True (di_netns_path ?info) ?v
      = (Err (Message (''exit code 1, message: '' @ ''setup error'')), v')"
    using plugin_answer_arrives[OF error_process.plugin_process_axioms, of "''/plugins/error-plugin''" True "di_netns_path ?info" ?v
        1 "?v\<lparr>pw_args := ?args\<rparr>" ?info v2 "Err ''setup error''" "()"]
    by (auto simp: process_sys_def plugin_answer_def error_plugin_def comp_simps)
  then show ?thesis by (simp add: plugin_setup_def comp_simps wrap_def)
qed

section \<open>A host device goes to the container and comes back\<close>

text \<open>
  \<open>links w N\<close> are the links of namespace \<open>N\<close> with their indices.  A socket of a
  namespace finds the links that are there, and moves a link to the namespace of a descriptor, where
  it keeps its name.
\<close>

definition places :: "('w \<Rightarrow> 'n \<Rightarrow> string \<rightharpoonup> 32 word) \<Rightarrow> (int \<Rightarrow> 'n) \<Rightarrow> 'n \<Rightarrow> 'w nl_socket \<Rightarrow> bool" where
  "places links ns_of N s \<longleftrightarrow>
     (\<forall>name w l w'. get_link s (LinkName name) w = (Ok l, w') \<longrightarrow> links w' = links w \<and> links w N name = Some (lm_index l))
     \<and> reads links (dump_addresses s)
     \<and> (\<forall>i fd w w' name. set_link_ns s i fd w = (Ok (), w') \<longrightarrow> links w N name = Some i \<longrightarrow> ns_of fd \<noteq> N \<longrightarrow>
          (\<exists>j. links w' = (links w)(N := (links w N)(name := None), ns_of fd := (links w (ns_of fd))(name \<mapsto> j))))"

lemma placesD:
  assumes "places links ns_of N s"
  shows "get_link s (LinkName name) w = (Ok l, w') \<Longrightarrow> links w' = links w"
    and "get_link s (LinkName name) w = (Ok l, w') \<Longrightarrow> links w N name = Some (lm_index l)"
    and "dump_addresses s w = (r, w') \<Longrightarrow> links w' = links w"
    and "set_link_ns s i fd w = (Ok (), w') \<Longrightarrow> links w N name = Some i \<Longrightarrow> ns_of fd \<noteq> N \<Longrightarrow>
      \<exists>j. links w' = (links w)(N := (links w N)(name := None), ns_of fd := (links w (ns_of fd))(name \<mapsto> j))"
  using assms unfolding places_def by (blast, blast, blast dest: readsD, blast)

locale link_placement =
  fixes open_sockets :: "string \<Rightarrow> ('w, 'w namespace_options \<times> 'w namespace_options) ncomp"
    and links :: "'w \<Rightarrow> 'n \<Rightarrow> string \<rightharpoonup> 32 word" and ns_of :: "int \<Rightarrow> 'n" and host_ns netns_ns :: 'n
  assumes namespaces_differ: "host_ns \<noteq> netns_ns"
    and opened: "open_sockets path w = (Ok (host, netns), w') \<Longrightarrow>
      links w' = links w \<and> ns_of (ns_fd host) = host_ns \<and> ns_of (ns_fd netns) = netns_ns
      \<and> places links ns_of host_ns (ns_netlink host) \<and> places links ns_of netns_ns (ns_netlink netns)"
begin

abbreviation device :: "network_plugin_exec \<Rightarrow> string" where
  "device opts \<equiv> unwrap_or (n_network_interface (npe_network opts)) []"

lemma setup_moves_device:
  assumes "host_device_setup sh lib open_sockets path opts w = (Ok st, w')"
  shows "device opts \<in> dom (links w host_ns) \<and> (\<exists>j. links w' =
    (links w)(host_ns := (links w host_ns)(device opts := None), netns_ns := (links w netns_ns)(device opts \<mapsto> j)))"
proof -
  from assms obtain host netns w1 l w2 addrs w3 where op: "open_sockets path w = (Ok (host, netns), w1)"
    and get: "get_link (ns_netlink host) (LinkName (device opts)) w1 = (Ok l, w2)"
    and dump: "dump_addresses (ns_netlink host) w2 = (Ok addrs, w3)"
    and set: "set_link_ns (ns_netlink host) (lm_index l) (ns_fd netns) w3 = (Ok (), w')"
    by (auto simp: host_device_setup_def comp_Ok Let_def)
  note o = opened[OF op]
  then have pl: "places links ns_of host_ns (ns_netlink host)" by blast
  have l: "links w2 = links w" "links w host_ns (device opts) = Some (lm_index l)"
    using o placesD(1,2)[OF pl get] by simp_all
  moreover have "links w3 = links w2" by (rule placesD(3)[OF pl dump])
  ultimately show ?thesis
    using placesD(4)[OF pl set, of "device opts"] o namespaces_differ by auto
qed

lemma teardown_moves_back:
  assumes "host_device_teardown sh open_sockets path opts w = (Ok (), w')"
  shows "device opts \<in> dom (links w netns_ns) \<and> (\<exists>j. links w' =
    (links w)(netns_ns := (links w netns_ns)(device opts := None), host_ns := (links w host_ns)(device opts \<mapsto> j)))"
proof -
  from assms obtain host netns w1 l w2 where op: "open_sockets path w = (Ok (host, netns), w1)"
    and get: "get_link (ns_netlink netns) (LinkName (device opts)) w1 = (Ok l, w2)"
    and set: "set_link_ns (ns_netlink netns) (lm_index l) (ns_fd host) w2 = (Ok (), w')"
    by (auto simp: host_device_teardown_def comp_Ok Let_def)
  note o = opened[OF op]
  then have pl: "places links ns_of netns_ns (ns_netlink netns)" by blast
  have "links w2 = links w" "links w netns_ns (device opts) = Some (lm_index l)"
    using o placesD(1,2)[OF pl get] by simp_all
  then show ?thesis
    using placesD(4)[OF pl set, of "device opts"] o namespaces_differ by auto
qed

text \<open>Set-up moves the device into the container and tear-down moves it back; no other link moves.\<close>

lemma device_round_trip:
  assumes "host_device_setup sh lib open_sockets path opts w = (Ok st, w1)"
    and "host_device_teardown sh open_sockets path opts w1 = (Ok (), w2)"
    and "device opts \<notin> dom (links w netns_ns)"
  shows "device opts \<notin> dom (links w1 host_ns) \<and> device opts \<in> dom (links w1 netns_ns)
    \<and> dom (links w2 host_ns) = dom (links w host_ns) \<and> links w2 netns_ns = links w netns_ns
    \<and> (\<forall>N. N \<noteq> host_ns \<longrightarrow> N \<noteq> netns_ns \<longrightarrow> links w2 N = links w N)"
  using setup_moves_device[OF assms(1)] teardown_moves_back[OF assms(2)] assms(3) namespaces_differ
  by (auto simp: fun_upd_idem_iff domIff split: if_splits)

end

text \<open>One device, which is on the host or in the container.\<close>

definition device_sock :: "bool \<Rightarrow> bool nl_socket" where
  "device_sock N = (sock_ref [] [])
     \<lparr>get_link := (\<lambda>i here. if i = LinkName ''eno2'' \<and> here = N then (Ok (LinkMessage 5 0 0 [NlaAddress [1, 2, 3, 4, 5, 6]]), here)
        else (Err (Netlink (NlError (- 19) ''No such device'')), here)),
      set_link_ns := (\<lambda>i fd here. if i = 5 \<and> here = N then (Ok (), fd = 3) else (Err (Netlink (NlError (- 19) [])), here))\<rparr>"

definition device_sockets :: "string \<Rightarrow> (bool, bool namespace_options \<times> bool namespace_options) ncomp" where
  "device_sockets path = retc (\<lparr>ns_fd = 3, ns_netlink = device_sock True\<rparr>, \<lparr>ns_fd = 4, ns_netlink = device_sock False\<rparr>)"

interpretation one_device: link_placement device_sockets
  "\<lambda>here N. if here = N then [''eno2'' \<mapsto> 5] else Map.empty" "\<lambda>fd. fd = 3" True False
  by unfold_locales
    (auto simp: device_sockets_def places_def device_sock_def sock_ref_def fun_eq_iff comp_Ok split: if_splits)

lemma device_round_trip_example:
  "\<exists>st. host_device_setup status_msg ipnet_ref device_sockets ''/ns''
      ((plugin_input (example_info fwnone_driver))\<lparr>npe_network := example_network\<lparr>n_network_interface := Some ''eno2''\<rparr>\<rparr>) True
      = (Ok st, False)"
  by (simp add: host_device_setup_def device_sockets_def device_sock_def sock_ref_def unwrap_or_def comp_simps Let_def)

end
