(* ===== verification/Dns_Processes.thy ===== *)
theory Dns_Processes
  imports Aardvark "HOL-Library.Multiset"
begin

text \<open>
  Several netavark processes at work on the files of the name server (\<^verbatim>\<open>src/dns/aardvark.rs\<close>).

  \<open>Aardvark\<close> runs each operation as a whole.  Here \<open>commit_entries\<close> and \<open>delete_entry\<close> are
  cut into their system calls: a process is a program counter (\<open>pc\<close>) that says which call comes
  next, \<open>proc_step\<close> makes that call, and \<open>sys_step\<close> lets any process make its next call or fail
  in it.  Files are inodes behind names and a handle has a position or appends, because a
  process may hold a file that another one truncates, extends or removes.
\<close>

section \<open>Files as processes share them\<close>

record disk =
  dk_names :: "string \<rightharpoonup> nat"
  dk_data :: "nat \<Rightarrow> string"
  dk_next :: nat
  dk_lock :: "nat option"

text \<open>An open file: its inode, and its position unless it was opened in append mode.\<close>

datatype handle = Handle (h_inode: nat) (h_pos: "nat option")

definition contents :: "disk \<Rightarrow> string \<rightharpoonup> string" where
  "contents d p = map_option (dk_data d) (dk_names d p)"

definition create_file :: "string \<Rightarrow> disk \<Rightarrow> disk" where
  "create_file p d =
     d\<lparr>dk_names := (dk_names d)(p \<mapsto> dk_next d), dk_data := (dk_data d)(dk_next d := []), dk_next := Suc (dk_next d)\<rparr>"

text \<open>Writing at a position: what lies behind the data stays, a gap before it reads as zero bytes.\<close>

definition overwrite :: "nat \<Rightarrow> string \<Rightarrow> string \<Rightarrow> string" where
  "overwrite n s c = take n (c @ replicate (n - length c) (CHR 0x00)) @ s @ drop (n + length s) c"

fun write_all :: "handle \<Rightarrow> string \<Rightarrow> disk \<Rightarrow> handle \<times> disk" where
  "write_all (Handle i None) s d = (Handle i None, d\<lparr>dk_data := (dk_data d)(i := dk_data d i @ s)\<rparr>)"
| "write_all (Handle i (Some n)) s d =
     (Handle i (Some (n + length s)), d\<lparr>dk_data := (dk_data d)(i := overwrite n s (dk_data d i))\<rparr>)"

text \<open>\<^verbatim>\<open>File::create\<close>: the file is emptied in place when it is there.\<close>

definition open_truncate :: "string \<Rightarrow> disk \<Rightarrow> handle \<times> disk" where
  "open_truncate p d =
     (case dk_names d p of
        Some i \<Rightarrow> (Handle i (Some 0), d\<lparr>dk_data := (dk_data d)(i := [])\<rparr>)
      | None \<Rightarrow> (Handle (dk_next d) (Some 0), create_file p d))"

section \<open>Processes\<close>

datatype pc =
    OpenLock "aardvark_entry list"
  | WaitLock "aardvark_entry list"
  | CreateNew aardvark_entry "aardvark_entry list"
  | OpenAppend aardvark_entry "aardvark_entry list"
  | WriteHeader handle aardvark_entry "aardvark_entry list"
  | WriteEntry handle aardvark_entry "aardvark_entry list"
  | Unlock
  | ReadFile string string
  | Truncate string "string list"
  | WriteLines handle string "string list" bool
  | RemoveFile string
  | Finished
  | Failed

text \<open>The loop of \<open>commit_entries\<close>: the next entry, or the end of the loop.\<close>

fun next_entry :: "aardvark_entry list \<Rightarrow> pc" where
  "next_entry [] = Unlock"
| "next_entry (e # es) = CreateNew e es"

text \<open>A file is unlocked when the process that holds the lock closes it.\<close>

definition release :: "nat \<Rightarrow> disk \<Rightarrow> disk" where
  "release i d = (if dk_lock d = Some i then d\<lparr>dk_lock := None\<rparr> else d)"

text \<open>
  The next call of process \<open>i\<close>; \<open>None\<close> when it waits for the lock or has ended.  The lock is taken
  by \<open>commit_entries\<close> only.
\<close>

fun proc_step :: "aardvark \<Rightarrow> nat \<Rightarrow> pc \<Rightarrow> disk \<Rightarrow> (pc \<times> disk) option" where
  "proc_step a i (OpenLock es) d =
     Some (WaitLock es, if dk_names d (lock_path a) = None then create_file (lock_path a) d else d)"
| "proc_step a i (WaitLock es) d =
     (if dk_lock d = None then Some (next_entry es, d\<lparr>dk_lock := Some i\<rparr>) else None)"
| "proc_step a i (CreateNew e es) d =
     (let path = path_join (aa_config a) (ae_network_name e)
      in if dk_names d path = None
         then Some (WriteHeader (Handle (dk_next d) (Some 0)) e es, create_file path d)
         else Some (OpenAppend e es, d))"
| "proc_step a i (OpenAppend e es) d =
     (case dk_names d (path_join (aa_config a) (ae_network_name e)) of
        Some n \<Rightarrow> Some (WriteEntry (Handle n None) e es, d)
      | None \<Rightarrow> Some (Failed, release i d))"
| "proc_step a i (WriteHeader f e es) d =
     (let (f', d') = write_all f (header_line e @ [newline]) d in Some (WriteEntry f' e es, d'))"
| "proc_step a i (WriteEntry f e es) d =
     (let (f', d') = write_all f (entry_line e @ [newline]) d in Some (next_entry es, d'))"
| "proc_step a i Unlock d = Some (Finished, release i d)"
| "proc_step a i (ReadFile container_id network_name) d =
     (let path = path_join (aa_config a) network_name
      in case contents d path of
           Some c \<Rightarrow> Some (Truncate path (filter (\<lambda>line. \<not> str_contains container_id line) (split_terminator newline c)), d)
         | None \<Rightarrow> Some (Failed, d))"
| "proc_step a i (Truncate path kept) d =
     (let (f, d') = open_truncate path d
      in Some (WriteLines f path (concat (map (\<lambda>line. [line, [newline]]) kept)) (length kept \<le> 1), d'))"
| "proc_step a i (WriteLines f path (s # ss) rm) d =
     (let (f', d') = write_all f s d in Some (WriteLines f' path ss rm, d'))"
| "proc_step a i (WriteLines f path [] rm) d = Some (if rm then RemoveFile path else Finished, d)"
| "proc_step a i (RemoveFile path) d =
     (if dk_names d path = None then Some (Failed, d)
      else Some (Finished, d\<lparr>dk_names := (dk_names d)(path := None)\<rparr>))"
| "proc_step a i Finished d = None"
| "proc_step a i Failed d = None"

text \<open>A call that fails may have written a part of its data.\<close>

fun partly_written :: "nat \<Rightarrow> pc \<Rightarrow> disk \<Rightarrow> disk" where
  "partly_written k (WriteHeader f e es) d = snd (write_all f (take k (header_line e @ [newline])) d)"
| "partly_written k (WriteEntry f e es) d = snd (write_all f (take k (entry_line e @ [newline])) d)"
| "partly_written k (WriteLines f path (s # ss) rm) d = snd (write_all f (take k s) d)"
| "partly_written k _ d = d"

definition ended :: "pc \<Rightarrow> bool" where
  "ended p \<longleftrightarrow> p = Finished \<or> p = Failed"

inductive sys_step :: "aardvark \<Rightarrow> pc list \<times> disk \<Rightarrow> pc list \<times> disk \<Rightarrow> bool" for a where
  call: "i < length ps \<Longrightarrow> proc_step a i (ps ! i) d = Some (p', d') \<Longrightarrow> sys_step a (ps, d) (ps[i := p'], d')"
| fail: "i < length ps \<Longrightarrow> \<not> ended (ps ! i) \<Longrightarrow>
    sys_step a (ps, d) (ps[i := Failed], release i (partly_written k (ps ! i) d))"

inductive_cases sys_stepE: "sys_step a s t"

section \<open>Commits under the lock\<close>

text \<open>The disk: no two names for one inode, and new inodes are new.\<close>

definition disk_ok :: "disk \<Rightarrow> bool" where
  "disk_ok d \<longleftrightarrow> inj_on (dk_names d) (dom (dk_names d)) \<and> (\<forall>n\<in>ran (dk_names d). n < dk_next d)"

fun holds_lock :: "pc \<Rightarrow> bool" where
  "holds_lock (CreateNew e es) = True"
| "holds_lock (OpenAppend e es) = True"
| "holds_lock (WriteHeader f e es) = True"
| "holds_lock (WriteEntry f e es) = True"
| "holds_lock Unlock = True"
| "holds_lock _ = False"

definition agree :: "aardvark \<Rightarrow> disk \<Rightarrow> (string \<rightharpoonup> string) \<Rightarrow> bool" where
  "agree a d F \<longleftrightarrow> (\<forall>q. q \<noteq> lock_path a \<longrightarrow> contents d q = F q)"

definition opened :: "aardvark_entry \<Rightarrow> string option \<Rightarrow> string" where
  "opened e c = (case c of None \<Rightarrow> header_line e @ [newline] | Some s \<Rightarrow> s)"

text \<open>
  Where a process with the lock is: \<open>G\<close> is what its finished entries made of the files, and the
  handle it has open is the file of the entry at hand.
\<close>

fun at_entry :: "aardvark \<Rightarrow> (string \<rightharpoonup> string) \<Rightarrow> pc \<Rightarrow> disk \<Rightarrow> bool" where
  "at_entry a G (CreateNew e es) d = agree a d G"
| "at_entry a G (OpenAppend e es) d = (agree a d G \<and> dk_names d (net_file a (ae_network_name e)) \<noteq> None)"
| "at_entry a G (WriteHeader f e es) d =
     (G (net_file a (ae_network_name e)) = None \<and> agree a d (G(net_file a (ae_network_name e) \<mapsto> [])) \<and>
      dk_names d (net_file a (ae_network_name e)) = Some (h_inode f) \<and> h_pos f = Some 0)"
| "at_entry a G (WriteEntry f e es) d =
     (let p = net_file a (ae_network_name e); c = opened e (G p)
      in agree a d (G(p \<mapsto> c)) \<and> dk_names d p = Some (h_inode f) \<and> h_pos f \<in> {None, Some (length c)})"
| "at_entry a G Unlock d = agree a d G"
| "at_entry a G _ d = False"

fun entries_left :: "pc \<Rightarrow> aardvark_entry list" where
  "entries_left (CreateNew e es) = e # es"
| "entries_left (OpenAppend e es) = e # es"
| "entries_left (WriteHeader f e es) = e # es"
| "entries_left (WriteEntry f e es) = e # es"
| "entries_left (OpenLock es) = es"
| "entries_left (WaitLock es) = es"
| "entries_left _ = []"

lemma disk_okD: "disk_ok d \<Longrightarrow> dk_names d p = Some n \<Longrightarrow> n < dk_next d"
  by (auto simp: disk_ok_def ran_def)

lemma disk_ok_inj: "disk_ok d \<Longrightarrow> dk_names d p = Some n \<Longrightarrow> dk_names d q = Some n \<Longrightarrow> p = q"
  by (auto simp: disk_ok_def inj_on_def dom_def)

lemma contents_None: "contents d p = None \<longleftrightarrow> dk_names d p = None"
  by (simp add: contents_def)

lemma contents_create: "disk_ok d \<Longrightarrow> contents (create_file p d) = (contents d)(p \<mapsto> [])"
  by (auto simp: contents_def create_file_def fun_eq_iff option.map_comp intro!: option.map_cong dest: disk_okD)

lemma disk_ok_create: "disk_ok d \<Longrightarrow> disk_ok (create_file p d)"
  by (auto simp: disk_ok_def create_file_def inj_on_def ran_def dom_def less_Suc_eq)

lemma overwrite_end [simp]: "overwrite (length c) s c = c @ s"
  by (simp add: overwrite_def)

lemma overwrite_start [simp]: "overwrite 0 s [] = s"
  by (simp add: overwrite_def)

lemma write_all_names [simp]:
  "dk_names (snd (write_all f s d)) = dk_names d" "dk_next (snd (write_all f s d)) = dk_next d"
  "dk_lock (snd (write_all f s d)) = dk_lock d" "h_inode (fst (write_all f s d)) = h_inode f"
  by (cases f; cases "h_pos f"; simp)+

lemma write_all_lock: "write_all f s d = (f', d') \<Longrightarrow> dk_lock d' = dk_lock d"
  using write_all_names(3)[of f s d] by simp

lemma contents_write:
  assumes "disk_ok d" "dk_names d p = Some (h_inode f)" "h_pos f \<in> {None, Some (length c)}" "contents d p = Some c"
  shows "contents (snd (write_all f s d)) = (contents d)(p \<mapsto> c @ s)"
    and "h_pos (fst (write_all f s d)) \<in> {None, Some (length (c @ s))}"
  using assms
  by (cases f; force simp: contents_def fun_eq_iff intro!: option.map_cong dest: disk_ok_inj)+


lemma disk_ok_write: "disk_ok d \<Longrightarrow> disk_ok (snd (write_all f s d))"
  by (simp add: disk_ok_def)

lemma disk_ok_lock [simp]: "disk_ok (d\<lparr>dk_lock := l\<rparr>) = disk_ok d"
  by (simp add: disk_ok_def)

lemma agree_lock [simp]: "agree a (d\<lparr>dk_lock := l\<rparr>) F = agree a d F"
  by (simp add: agree_def contents_def)

lemma commit_file_opened: "commit_file a e G = G(net_file a (ae_network_name e) \<mapsto> opened e (G (net_file a (ae_network_name e))) @ entry_line e @ [newline])"
  by (simp add: commit_file_def opened_def Let_def)

lemma at_next_entry: "agree a d G \<Longrightarrow> at_entry a G (next_entry es) d"
  by (cases es) simp_all

lemma next_entry_simps [simp]: "holds_lock (next_entry es)" "entries_left (next_entry es) = es"
  by (cases es; simp)+

text \<open>One call of the process with the lock: the entries done and to be done together stay the same.\<close>

definition entry_progress :: "aardvark \<Rightarrow> nat \<Rightarrow> (string \<rightharpoonup> string) \<Rightarrow> pc \<Rightarrow> pc \<Rightarrow> disk \<Rightarrow> bool" where
  "entry_progress a i G p p' d' \<longleftrightarrow> disk_ok d' \<and> dk_lock d' = Some i \<and> holds_lock p' \<and>
     set (entries_left p') \<subseteq> set (entries_left p) \<and>
     (\<exists>G'. at_entry a G' p' d' \<and>
        fold (commit_file a) (entries_left p') G' = fold (commit_file a) (entries_left p) G)"

lemma entry_progressI:
  "disk_ok d' \<Longrightarrow> dk_lock d' = Some i \<Longrightarrow> holds_lock p' \<Longrightarrow> set (entries_left p') \<subseteq> set (entries_left p) \<Longrightarrow>
     at_entry a G' p' d' \<Longrightarrow> fold (commit_file a) (entries_left p') G' = fold (commit_file a) (entries_left p) G \<Longrightarrow>
     entry_progress a i G p p' d'"
  by (auto simp: entry_progress_def)

lemma header_progress:
  assumes "disk_ok d" "dk_lock d = Some i" "at_entry a G (WriteHeader f e es) d"
    and path: "net_file a (ae_network_name e) \<noteq> lock_path a"
    and w: "write_all f (header_line e @ [newline]) d = (f', d')"
  shows "entry_progress a i G (WriteHeader f e es) (WriteEntry f' e es) d'"
proof -
  let ?p = "net_file a (ae_network_name e)"
  from assms(3) path have c: "contents d ?p = Some []" by (simp add: agree_def)
  note wr = contents_write[OF assms(1) _ _ c, of f "header_line e @ [newline]", unfolded w]
  from assms(3) wr have "contents d' = (contents d)(?p \<mapsto> header_line e @ [newline])"
    and "h_pos f' \<in> {None, Some (length (header_line e @ [newline]))}" by simp_all
  moreover have "disk_ok d'" "dk_names d' = dk_names d" "dk_lock d' = dk_lock d" "h_inode f' = h_inode f"
    using disk_ok_write[OF assms(1)] write_all_names w by (metis fst_conv snd_conv)+
  ultimately show ?thesis using assms(2,3)
    by (intro entry_progressI[where G' = G]) (auto simp: opened_def agree_def Let_def)
qed

lemma entry_written_progress:
  assumes "disk_ok d" "dk_lock d = Some i" "at_entry a G (WriteEntry f e es) d"
    and path: "net_file a (ae_network_name e) \<noteq> lock_path a"
    and w: "write_all f (entry_line e @ [newline]) d = (f', d')"
  shows "entry_progress a i G (WriteEntry f e es) (next_entry es) d'"
proof -
  let ?p = "net_file a (ae_network_name e)" and ?c = "opened e (G (net_file a (ae_network_name e)))"
  from assms(3) path have c: "contents d ?p = Some ?c" by (simp add: agree_def Let_def)
  note wr = contents_write(1)[OF assms(1) _ _ c, of f "entry_line e @ [newline]", unfolded w]
  from assms(3) wr have "contents d' = (contents d)(?p \<mapsto> ?c @ entry_line e @ [newline])" by (simp add: Let_def)
  then have "agree a d' (commit_file a e G)" using assms(3) by (simp add: agree_def commit_file_opened Let_def)
  moreover have "disk_ok d'" "dk_lock d' = dk_lock d"
    using disk_ok_write[OF assms(1)] write_all_names w by (metis fst_conv snd_conv)+
  ultimately show ?thesis using assms(2)
    by (intro entry_progressI[where G' = "commit_file a e G"]) (auto intro!: at_next_entry)
qed

lemma locked_step:
  assumes "disk_ok d" "dk_lock d = Some i" "at_entry a G p d" "proc_step a i p d = Some (p', d')"
    and "\<forall>e\<in>set (entries_left p). net_file a (ae_network_name e) \<noteq> lock_path a"
  shows "entry_progress a i G p p' d' \<or>
    (p' = Finished \<and> entries_left p = [] \<and> disk_ok d' \<and> dk_lock d' = None \<and> agree a d' G)"
proof (cases p)
  case (CreateNew e es)
  let ?p = "net_file a (ae_network_name e)"
  have "dk_names (create_file ?p d) ?p = Some (dk_next d)" "dk_lock (create_file ?p d) = dk_lock d"
    by (simp_all add: create_file_def)
  moreover from assms(3,5) CreateNew have "G ?p = None \<longleftrightarrow> dk_names d ?p = None" by (simp add: agree_def flip: contents_None)
  ultimately show ?thesis using assms CreateNew
    by (intro disjI1 entry_progressI[where G' = G])
      (auto simp: Let_def agree_def contents_create disk_ok_create split: if_splits)
next
  case (OpenAppend e es)
  let ?p = "net_file a (ae_network_name e)"
  from assms(3) OpenAppend obtain n where n: "dk_names d ?p = Some n" by auto
  moreover have "G ?p = Some (dk_data d n)" using assms(3,5) OpenAppend n by (auto simp: agree_def contents_def dest!: spec[of _ ?p])
  ultimately show ?thesis using assms OpenAppend
    by (intro disjI1 entry_progressI[where G' = G]) (auto simp: Let_def agree_def opened_def contents_def)
next
  case (WriteHeader f e es)
  with assms header_progress show ?thesis by (auto simp: Let_def split: prod.splits)
next
  case (WriteEntry f e es)
  with assms entry_written_progress show ?thesis by (auto simp: Let_def split: prod.splits)
next
  case Unlock
  with assms show ?thesis by (auto simp: release_def)
qed (use assms in auto)


section \<open>All processes together\<close>

definition committed :: "aardvark \<Rightarrow> aardvark_entry list list \<Rightarrow> nat list \<Rightarrow> (string \<rightharpoonup> string) \<Rightarrow> (string \<rightharpoonup> string)" where
  "committed a ess order F = fold (commit_file a) (concat (map (\<lambda>i. ess ! i) order)) F"

definition proc_ok :: "aardvark_entry list \<Rightarrow> nat \<Rightarrow> pc \<Rightarrow> disk \<Rightarrow> bool" where
  "proc_ok es i p d \<longleftrightarrow> (holds_lock p \<longleftrightarrow> dk_lock d = Some i) \<and> set (entries_left p) \<subseteq> set es \<and>
     (p = OpenLock es \<or> p = WaitLock es \<or> holds_lock p \<or> p = Finished)"

text \<open>
  The invariant: the processes that are done have done their work one after the other, in the
  order in which they got the lock, and the one with the lock is in the middle of its own.
\<close>

definition files_ok ::
  "aardvark \<Rightarrow> aardvark_entry list list \<Rightarrow> (string \<rightharpoonup> string) \<Rightarrow> nat list \<Rightarrow> pc list \<Rightarrow> disk \<Rightarrow> bool" where
  "files_ok a ess F order ps d \<longleftrightarrow>
     (case dk_lock d of
        None \<Rightarrow> agree a d (committed a ess order F)
      | Some i \<Rightarrow> \<exists>G. at_entry a G (ps ! i) d \<and>
          fold (commit_file a) (entries_left (ps ! i)) G = committed a ess (order @ [i]) F)"

definition commits_inv ::
  "aardvark \<Rightarrow> aardvark_entry list list \<Rightarrow> (string \<rightharpoonup> string) \<Rightarrow> pc list \<times> disk \<Rightarrow> bool" where
  "commits_inv a ess F s \<longleftrightarrow> (case s of (ps, d) \<Rightarrow>
     length ps = length ess \<and> disk_ok d \<and> (\<forall>i<length ps. proc_ok (ess ! i) i (ps ! i) d) \<and>
     (\<forall>i. dk_lock d = Some i \<longrightarrow> i < length ps) \<and>
     (\<exists>order. distinct order \<and> set order = {i. i < length ps \<and> ps ! i = Finished} \<and> files_ok a ess F order ps d))"

lemma committed_snoc [simp]:
  "committed a ess (order @ [i]) F = fold (commit_file a) (ess ! i) (committed a ess order F)"
  by (simp add: committed_def)

lemma finished_same:
  "i < length ps \<Longrightarrow> ps ! i \<noteq> Finished \<Longrightarrow> p \<noteq> Finished \<Longrightarrow>
     {j. j < length (ps[i := p]) \<and> ps[i := p] ! j = Finished} = {j. j < length ps \<and> ps ! j = Finished}"
  by (auto simp: nth_list_update split: if_splits)

lemma finished_insert:
  "i < length ps \<Longrightarrow>
     {j. j < length (ps[i := Finished]) \<and> ps[i := Finished] ! j = Finished} = insert i {j. j < length ps \<and> ps ! j = Finished}"
  by (auto simp: nth_list_update split: if_splits)

abbreviation paths_ok :: "aardvark \<Rightarrow> aardvark_entry list \<Rightarrow> bool" where
  "paths_ok a es \<equiv> \<forall>e\<in>set es. net_file a (ae_network_name e) \<noteq> lock_path a"

lemma at_entry_cong:
  assumes "\<And>q. q \<noteq> lock_path a \<Longrightarrow> dk_names d' q = dk_names d q"
    and "\<And>q. q \<noteq> lock_path a \<Longrightarrow> contents d' q = contents d q" and "paths_ok a (entries_left p)"
  shows "at_entry a G p d' = at_entry a G p d"
proof -
  have "agree a d' F = agree a d F" for F using assms(2) by (simp add: agree_def)
  with assms(1,3) show ?thesis by (cases p) (simp_all add: Let_def)
qed

lemma at_entry_holds: "at_entry a G p d \<Longrightarrow> holds_lock p"
  by (cases p) simp_all

lemma commits_invI:
  assumes "length ps = length ess" "disk_ok d" "\<And>i. i < length ps \<Longrightarrow> proc_ok (ess ! i) i (ps ! i) d"
    and "\<And>i. dk_lock d = Some i \<Longrightarrow> i < length ps" "distinct order"
    and "set order = {i. i < length ps \<and> ps ! i = Finished}" "files_ok a ess F order ps d"
  shows "commits_inv a ess F (ps, d)"
  using assms by (auto simp: commits_inv_def)

lemma commits_invE:
  assumes "commits_inv a ess F (ps, d)"
  obtains order where "length ps = length ess" "disk_ok d" "\<And>i. i < length ps \<Longrightarrow> proc_ok (ess ! i) i (ps ! i) d"
    and "\<And>i. dk_lock d = Some i \<Longrightarrow> i < length ps" "distinct order"
    and "set order = {i. i < length ps \<and> ps ! i = Finished}" "files_ok a ess F order ps d"
  using assms by (auto simp: commits_inv_def)

lemma proc_ok_cong: "dk_lock d' = Some i \<longleftrightarrow> dk_lock d = Some i \<Longrightarrow> proc_ok es i p d' = proc_ok es i p d"
  unfolding proc_ok_def by simp

lemma proc_ok_update:
  assumes "\<And>j. j < length ps \<Longrightarrow> proc_ok (ess ! j) j (ps ! j) d" and "proc_ok (ess ! i) i p d'"
    and "\<And>j. j \<noteq> i \<Longrightarrow> dk_lock d' = Some j \<longleftrightarrow> dk_lock d = Some j" and "j < length (ps[i := p])"
  shows "proc_ok (ess ! j) j (ps[i := p] ! j) d'"
  using assms proc_ok_cong[OF assms(3)] by (cases "j = i") simp_all

lemma proc_ok_simps:
  "proc_ok es i (OpenLock es') d \<longleftrightarrow> es' = es \<and> dk_lock d \<noteq> Some i"
  "proc_ok es i (WaitLock es') d \<longleftrightarrow> es' = es \<and> dk_lock d \<noteq> Some i"
  "proc_ok es i Finished d \<longleftrightarrow> dk_lock d \<noteq> Some i"
  "holds_lock p \<Longrightarrow> proc_ok es i p d \<longleftrightarrow> dk_lock d = Some i \<and> set (entries_left p) \<subseteq> set es"
  by (auto simp: proc_ok_def)

lemma open_lock_step:
  assumes inv: "commits_inv a ess F (ps, d)" and i: "i < length ps" "ps ! i = OpenLock es"
    and d': "d' = (if dk_names d (lock_path a) = None then create_file (lock_path a) d else d)"
    and paths: "\<And>i. i < length ess \<Longrightarrow> paths_ok a (ess ! i)"
  shows "commits_inv a ess F (ps[i := WaitLock es], d')"
  using inv
proof (rule commits_invE)
  fix order assume len: "length ps = length ess" and ok: "disk_ok d"
    and procs: "\<And>i. i < length ps \<Longrightarrow> proc_ok (ess ! i) i (ps ! i) d"
    and lock: "\<And>i. dk_lock d = Some i \<Longrightarrow> i < length ps"
    and ord: "distinct order" "set order = {i. i < length ps \<and> ps ! i = Finished}" and files: "files_ok a ess F order ps d"
  have lk: "dk_lock d' = dk_lock d" and ok': "disk_ok d'" using ok by (auto simp: d' disk_ok_create) (simp add: create_file_def)
  have same: "dk_names d' q = dk_names d q" "contents d' q = contents d q" if "q \<noteq> lock_path a" for q
    using that ok by (auto simp: d' contents_create) (simp add: create_file_def)
  then have ag: "agree a d' G = agree a d G" for G by (simp add: agree_def)
  have at: "at_entry a G (ps ! j) d' = at_entry a G (ps ! j) d" if "j < length ps" for G j
    using paths[of j] procs[OF that] that len by (intro at_entry_cong same) (auto simp: proc_ok_def)
  have other: "j \<noteq> i" if "dk_lock d = Some j" for j using procs[OF i(1)] that by (auto simp: i(2) proc_ok_simps)
  show ?thesis
  proof (rule commits_invI[where order = order])
    show "proc_ok (ess ! j) j (ps[i := WaitLock es] ! j) d'" if "j < length (ps[i := WaitLock es])" for j
      using procs[OF i(1)] that by (intro proc_ok_update[OF procs]) (simp_all add: lk i(2) proc_ok_simps)
    show "set order = {j. j < length (ps[i := WaitLock es]) \<and> ps[i := WaitLock es] ! j = Finished}"
      unfolding ord(2) by (rule finished_same[symmetric, OF i(1)]) (simp_all add: i(2))
    show "files_ok a ess F order (ps[i := WaitLock es]) d'"
      using files lk ag at lock other by (auto simp: files_ok_def split: option.splits)
  qed (use len ok' lock lk ord(1) in auto)
qed

lemma get_lock_step:
  assumes inv: "commits_inv a ess F (ps, d)" and i: "i < length ps" "ps ! i = WaitLock es" and free: "dk_lock d = None"
  shows "commits_inv a ess F (ps[i := next_entry es], d\<lparr>dk_lock := Some i\<rparr>)"
  using inv
proof (rule commits_invE)
  let ?ps = "ps[i := next_entry es]"
  fix order assume len: "length ps = length ess" and ok: "disk_ok d"
    and procs: "\<And>i. i < length ps \<Longrightarrow> proc_ok (ess ! i) i (ps ! i) d"
    and ord: "distinct order" "set order = {i. i < length ps \<and> ps ! i = Finished}" and files: "files_ok a ess F order ps d"
  have es: "es = ess ! i" using procs[OF i(1)] by (simp add: i(2) proc_ok_simps)
  have nf: "next_entry es \<noteq> Finished" by (cases es) simp_all
  show ?thesis
  proof (rule commits_invI[where order = order])
    show "proc_ok (ess ! j) j (?ps ! j) (d\<lparr>dk_lock := Some i\<rparr>)" if "j < length ?ps" for j
      using that by (intro proc_ok_update[OF procs]) (simp_all add: free es proc_ok_simps)
    show "set order = {j. j < length ?ps \<and> ?ps ! j = Finished}"
      unfolding ord(2) by (rule finished_same[symmetric, OF i(1)]) (simp_all add: i(2) nf)
    have "agree a d (committed a ess order F)" using files free by (simp add: files_ok_def)
    then show "files_ok a ess F order ?ps (d\<lparr>dk_lock := Some i\<rparr>)"
      using i es at_next_entry[of a "d\<lparr>dk_lock := Some i\<rparr>"] by (auto simp: files_ok_def)
  qed (use len ok i ord(1) in auto)
qed

lemma locked_call_step:
  assumes inv: "commits_inv a ess F (ps, d)" and i: "i < length ps" "holds_lock (ps ! i)"
    and call: "proc_step a i (ps ! i) d = Some (p', d')" and paths: "\<And>i. i < length ess \<Longrightarrow> paths_ok a (ess ! i)"
  shows "commits_inv a ess F (ps[i := p'], d')"
  using inv
proof (rule commits_invE)
  let ?ps = "ps[i := p']"
  fix order assume len: "length ps = length ess" and ok: "disk_ok d"
    and procs: "\<And>i. i < length ps \<Longrightarrow> proc_ok (ess ! i) i (ps ! i) d"
    and ord: "distinct order" "set order = {i. i < length ps \<and> ps ! i = Finished}" and files: "files_ok a ess F order ps d"
  have lk: "dk_lock d = Some i" using procs[OF i(1)] i(2) by (simp add: proc_ok_def)
  have running: "ps ! i \<noteq> Finished" using i(2) by (cases "ps ! i") simp_all
  obtain G where G: "at_entry a G (ps ! i) d"
    and left: "fold (commit_file a) (entries_left (ps ! i)) G = committed a ess (order @ [i]) F"
    using files lk by (auto simp: files_ok_def)
  have sub: "set (entries_left (ps ! i)) \<subseteq> set (ess ! i)" using procs[OF i(1)] by (simp add: proc_ok_def)
  then have "paths_ok a (entries_left (ps ! i))" using paths[of i] i(1) len by auto
  from locked_step[OF ok lk G call this] show ?thesis
  proof
    assume pr: "entry_progress a i G (ps ! i) p' d'"
    then obtain G' where G': "at_entry a G' p' d'" "fold (commit_file a) (entries_left p') G' = committed a ess (order @ [i]) F"
      using left by (auto simp: entry_progress_def)
    from pr have hold: "disk_ok d'" "dk_lock d' = Some i" "holds_lock p'" "set (entries_left p') \<subseteq> set (ess ! i)"
      using sub by (auto simp: entry_progress_def)
    then have nf: "p' \<noteq> Finished" by auto
    show ?thesis
    proof (rule commits_invI[where order = order])
      show "proc_ok (ess ! j) j (?ps ! j) d'" if "j < length ?ps" for j
        using that by (intro proc_ok_update[OF procs]) (simp_all add: hold lk proc_ok_simps)
      show "set order = {j. j < length ?ps \<and> ?ps ! j = Finished}"
        unfolding ord(2) by (rule finished_same[symmetric, OF i(1) running nf])
      show "files_ok a ess F order ?ps d'" using G' hold(2) i(1) by (auto simp: files_ok_def)
    qed (use len hold i ord(1) in auto)
  next
    assume fin: "p' = Finished \<and> entries_left (ps ! i) = [] \<and> disk_ok d' \<and> dk_lock d' = None \<and> agree a d' G"
    have new: "i \<notin> set order" using running by (simp add: ord(2))
    show ?thesis
    proof (rule commits_invI[where order = "order @ [i]"])
      show "proc_ok (ess ! j) j (?ps ! j) d'" if "j < length ?ps" for j
        using that by (intro proc_ok_update[OF procs]) (simp_all add: fin lk proc_ok_simps)
      show "set (order @ [i]) = {j. j < length ?ps \<and> ?ps ! j = Finished}"
        using finished_insert[OF i(1)] fin by (simp add: ord(2))
      show "files_ok a ess F (order @ [i]) ?ps d'" using left fin by (simp add: files_ok_def)
    qed (use len fin new ord(1) in auto)
  qed
qed


lemma commits_inv_step:
  assumes "sys_step a s t" "Failed \<in> set (fst s) \<or> commits_inv a ess F s"
    and paths: "\<And>i. i < length ess \<Longrightarrow> paths_ok a (ess ! i)"
  shows "Failed \<in> set (fst t) \<or> commits_inv a ess F t"
  using assms(1)
proof cases
  case (call i ps d p' d')
  show ?thesis
  proof (cases "Failed \<in> set ps")
    case True
    then obtain j where j: "j < length ps" "ps ! j = Failed" by (auto simp: in_set_conv_nth)
    with call(4) have "j \<noteq> i" by auto
    with j have "ps[i := p'] ! j = Failed" by simp
    with j call(2) show ?thesis by (metis fst_conv length_list_update nth_mem)
  next
    case False
    with assms(2) call(1) have inv: "commits_inv a ess F (ps, d)" by simp
    then have "proc_ok (ess ! i) i (ps ! i) d" using call(3) by (auto elim: commits_invE)
    then consider es where "ps ! i = OpenLock es" | es where "ps ! i = WaitLock es" | "holds_lock (ps ! i)" | "ps ! i = Finished"
      unfolding proc_ok_def by blast
    then show ?thesis
    proof cases
      case 1
      with open_lock_step[OF inv call(3) 1 _ paths] call(2,4) show ?thesis by simp
    next
      case 2
      with get_lock_step[OF inv call(3) 2] call(2,4) show ?thesis by (simp split: if_splits)
    next
      case 3
      with locked_call_step[OF inv call(3) 3 call(4) paths] call(2) show ?thesis by simp
    qed (use call(4) in simp)
  qed
next
  case (fail i ps d k)
  then show ?thesis by (simp add: set_update_memI)
qed

lemma commits_inv_start:
  assumes "disk_ok d" "dk_lock d = None"
  shows "commits_inv a ess (contents d) (map OpenLock ess, d)"
  using assms by (intro commits_invI[where order = "[]"]) (simp_all add: proc_ok_def files_ok_def committed_def agree_def)

lemma commits_inv_reach:
  assumes "(sys_step a)\<^sup>*\<^sup>* s t" "commits_inv a ess F s" and "\<And>i. i < length ess \<Longrightarrow> paths_ok a (ess ! i)"
  shows "Failed \<in> set (fst t) \<or> commits_inv a ess F t"
  using assms(1)
proof (induction rule: rtranclp_induct)
  case (step t u)
  from commits_inv_step[OF step(2,3) assms(3)] show ?case .
qed (use assms(2) in simp)

text \<open>A process that makes its calls without another one in between.\<close>

primrec run_calls :: "aardvark \<Rightarrow> nat \<Rightarrow> nat \<Rightarrow> pc \<times> disk \<Rightarrow> pc \<times> disk" where
  "run_calls a i 0 s = s"
| "run_calls a i (Suc k) s = (case proc_step a i (fst s) (snd s) of None \<Rightarrow> s | Some t \<Rightarrow> run_calls a i k t)"

lemma run_calls_star:
  assumes "run_calls a i k (p, d) = (p', d')" "i < length ps"
  shows "(sys_step a)\<^sup>*\<^sup>* (ps[i := p], d) (ps[i := p'], d')"
  using assms(1)
proof (induction k arbitrary: p d)
  case (Suc k)
  show ?case
  proof (cases "proc_step a i p d")
    case (Some s)
    obtain p1 d1 where s: "s = (p1, d1)" by (cases s)
    have "sys_step a (ps[i := p], d) (ps[i := p, i := p1], d1)" using Some s assms(2) by (intro sys_step.call) simp_all
    moreover have "(sys_step a)\<^sup>*\<^sup>* (ps[i := p1], d1) (ps[i := p'], d')" using Suc Some s by simp
    ultimately show ?thesis by (simp add: converse_rtranclp_into_rtranclp)
  qed (use Suc.prems in simp)
qed simp

text \<open>
  C8: processes that write entries at the same time do not disturb each other: however their
  system calls interleave, when all have succeeded the configuration files are what one
  commit after the other would have made of them, in some order, so that no entry is
  lost or doubled and every new file has its header line.
\<close>

theorem commits_serialise:
  assumes "(sys_step a)\<^sup>*\<^sup>* (map OpenLock ess, d) (ps, d')" and "set ps \<subseteq> {Finished}"
    and "disk_ok d" and "dk_lock d = None"
    and "\<forall>es\<in>set ess. \<forall>e\<in>set es. path_join (aa_config a) (ae_network_name e) \<noteq> lock_path a"
  shows "\<exists>ess'. mset ess' = mset ess \<and>
    (\<forall>q. q \<noteq> lock_path a \<longrightarrow> contents d' q = fold (commit_file a) (concat ess') (contents d) q)"
proof -
  have "Failed \<in> set (fst (ps, d')) \<or> commits_inv a ess (contents d) (ps, d')"
    using assms(5) nth_mem by (intro commits_inv_reach[OF assms(1) commits_inv_start[OF assms(3,4)]]) blast
  with assms(2) have "commits_inv a ess (contents d) (ps, d')" by auto
  then show ?thesis
  proof (rule commits_invE)
    fix order assume len: "length ps = length ess" and lock: "\<And>i. dk_lock d' = Some i \<Longrightarrow> i < length ps"
      and procs: "\<And>i. i < length ps \<Longrightarrow> proc_ok (ess ! i) i (ps ! i) d'"
      and ord: "distinct order" "set order = {i. i < length ps \<and> ps ! i = Finished}"
      and files: "files_ok a ess (contents d) order ps d'"
    have fin: "ps ! i = Finished" if "i < length ps" for i using assms(2) nth_mem[OF that] by auto
    then have "dk_lock d' = None" using lock procs by (metis not_Some_eq proc_ok_simps(3))
    then have ag: "agree a d' (committed a ess order (contents d))" using files by (simp add: files_ok_def)
    have "set order = set [0..<length ess]" using ord(2) fin len by auto
    then have "mset order = mset [0..<length ess]" using ord(1) by (metis distinct_upt set_eq_iff_mset_eq_distinct)
    then have "mset (map ((!) ess) order) = mset (map ((!) ess) [0..<length ess])" by simp
    then have "mset (map ((!) ess) order) = mset ess" by (simp only: map_nth)
    with ag show ?thesis by (intro exI[of _ "map ((!) ess) order"]) (simp add: agree_def committed_def)
  qed
qed

definition disk_empty :: disk where
  "disk_empty = \<lparr>dk_names = Map.empty, dk_data = (\<lambda>_. []), dk_next = 0, dk_lock = None\<rparr>"

definition second_entry :: aardvark_entry where
  "second_entry = example_entry\<lparr>ae_container_id := ''def''\<rparr>"

lemmas example_disk_defs = disk_empty_def second_entry_def example_entry_def example_aardvark_def path_join_def lock_path_def

text \<open>The second process overtakes the first, which already has opened the lock file.\<close>

lemma example_commits_run:
  "\<exists>d'. (sys_step example_aardvark)\<^sup>*\<^sup>* (map OpenLock [[example_entry], [second_entry]], disk_empty) ([Finished, Finished], d')"
proof -
  let ?a = example_aardvark
  obtain d1 d2 d3 where r1: "run_calls ?a 0 1 (OpenLock [example_entry], disk_empty) = (WaitLock [example_entry], d1)"
    and r2: "run_calls ?a 1 6 (OpenLock [second_entry], d1) = (Finished, d2)"
    and r3: "run_calls ?a 0 5 (WaitLock [example_entry], d2) = (Finished, d3)"
    by (simp add: example_disk_defs create_file_def eval_nat_numeral Let_def release_def)
  have "(sys_step ?a)\<^sup>*\<^sup>* ([OpenLock [example_entry], OpenLock [second_entry]], disk_empty) ([WaitLock [example_entry], OpenLock [second_entry]], d1)"
    using run_calls_star[OF r1, of "[OpenLock [example_entry], OpenLock [second_entry]]"] by simp
  also have "(sys_step ?a)\<^sup>*\<^sup>* \<dots> ([WaitLock [example_entry], Finished], d2)"
    using run_calls_star[OF r2, of "[WaitLock [example_entry], OpenLock [second_entry]]"] by simp
  also have "(sys_step ?a)\<^sup>*\<^sup>* \<dots> ([Finished, Finished], d3)"
    using run_calls_star[OF r3, of "[WaitLock [example_entry], Finished]"] by simp
  finally show ?thesis by auto
qed

theorem commits_serialise_witness:
  "\<exists>d' ess'. (sys_step example_aardvark)\<^sup>*\<^sup>* (map OpenLock [[example_entry], [second_entry]], disk_empty) ([Finished, Finished], d') \<and>
     mset ess' = mset [[example_entry], [second_entry]] \<and>
     contents d' ''/run/dns/podman'' = fold (commit_file example_aardvark) (concat ess') (contents disk_empty) ''/run/dns/podman''"
proof -
  obtain d' where run: "(sys_step example_aardvark)\<^sup>*\<^sup>* (map OpenLock [[example_entry], [second_entry]], disk_empty) ([Finished, Finished], d')"
    using example_commits_run ..
  have "\<exists>ess'. mset ess' = mset [[example_entry], [second_entry]] \<and>
    (\<forall>q. q \<noteq> lock_path example_aardvark \<longrightarrow> contents d' q = fold (commit_file example_aardvark) (concat ess') (contents disk_empty) q)"
    by (rule commits_serialise[OF run]) (simp_all add: example_disk_defs disk_ok_def)
  moreover have "''/run/dns/podman'' \<noteq> lock_path example_aardvark" by (simp add: example_disk_defs)
  ultimately show ?thesis using run by blast
qed

section \<open>All processes end\<close>

fun reads_left :: "pc \<Rightarrow> nat" where
  "reads_left (ReadFile c n) = 1"
| "reads_left _ = 0"

fun calls_left :: "pc \<Rightarrow> nat" where
  "calls_left (OpenLock es) = 4 * length es + 4"
| "calls_left (WaitLock es) = 4 * length es + 3"
| "calls_left (CreateNew e es) = 4 * length es + 6"
| "calls_left (OpenAppend e es) = 4 * length es + 5"
| "calls_left (WriteHeader f e es) = 4 * length es + 5"
| "calls_left (WriteEntry f e es) = 4 * length es + 4"
| "calls_left Unlock = 2"
| "calls_left (ReadFile c n) = 1"
| "calls_left (Truncate path kept) = 2 * length kept + 3"
| "calls_left (WriteLines f path ss rm) = length ss + 2"
| "calls_left (RemoveFile path) = 1"
| "calls_left Finished = 0"
| "calls_left Failed = 0"

lemma calls_left_next: "calls_left (next_entry es) = 4 * length es + 2" "reads_left (next_entry es) = 0"
  by (cases es; simp)+

lemma length_pieces: "length (concat (map (\<lambda>line. [line, [newline]]) kept)) = 2 * length kept"
  by (induction kept) auto

lemma proc_step_decreases:
  "proc_step a i p d = Some (p', d') \<Longrightarrow> reads_left p' < reads_left p \<or> reads_left p' = reads_left p \<and> calls_left p' < calls_left p"
  by (induction a i p d rule: proc_step.induct)
    (auto simp: Let_def calls_left_next length_pieces split: if_splits option.splits prod.splits)

lemma sum_list_update_less:
  fixes f :: "'a \<Rightarrow> nat"
  assumes "i < length xs"
  shows "f y < f (xs ! i) \<Longrightarrow> sum_list (map f (xs[i := y])) < sum_list (map f xs)"
    and "f y = f (xs ! i) \<Longrightarrow> sum_list (map f (xs[i := y])) = sum_list (map f xs)"
  using assms elem_le_sum_list[of i "map f xs"] by (simp_all add: map_update sum_list_update)

lemma sys_step_decreases:
  assumes "sys_step a s t"
  shows "(t, s) \<in> measures [\<lambda>(ps, d). sum_list (map reads_left ps), \<lambda>(ps, d). sum_list (map calls_left ps)]"
  using assms
proof cases
  case (call i ps d p' d')
  from proc_step_decreases[OF call(4)] call show ?thesis by (auto simp: sum_list_update_less)
next
  case (fail i ps d k)
  have "reads_left Failed < reads_left (ps ! i) \<or> reads_left Failed = reads_left (ps ! i) \<and> calls_left Failed < calls_left (ps ! i)"
    using fail(4) by (cases "ps ! i") (auto simp: ended_def)
  with fail show ?thesis by (auto simp: sum_list_update_less)
qed

definition lock_held :: "pc list \<Rightarrow> disk \<Rightarrow> bool" where
  "lock_held ps d \<longleftrightarrow> (\<forall>i. dk_lock d = Some i \<longleftrightarrow> i < length ps \<and> holds_lock (ps ! i))"

lemma proc_step_lock:
  "proc_step a i p d = Some (p', d') \<Longrightarrow> (dk_lock d = Some i \<longleftrightarrow> holds_lock p) \<Longrightarrow>
     (dk_lock d' = Some i \<longleftrightarrow> holds_lock p') \<and> (\<forall>j. j \<noteq> i \<longrightarrow> (dk_lock d' = Some j \<longleftrightarrow> dk_lock d = Some j))"
  by (induction a i p d rule: proc_step.induct)
    (auto simp: Let_def create_file_def release_def open_truncate_def dest!: write_all_lock
      split: if_splits option.splits prod.splits)


lemma partly_written_lock: "dk_lock (partly_written k p d) = dk_lock d"
  by (induction k p d rule: partly_written.induct) simp_all

lemma lock_held_step:
  assumes "sys_step a (ps, d) (ps', d')" "lock_held ps d"
  shows "lock_held ps' d'"
  using assms(1)
proof (cases rule: sys_step.cases)
  case (call i p')
  have "dk_lock d = Some i \<longleftrightarrow> holds_lock (ps ! i)" using assms(2) call(2) by (simp add: lock_held_def)
  from proc_step_lock[OF call(3) this] assms(2) call(1,2) show ?thesis
    unfolding lock_held_def by (metis length_list_update nth_list_update_eq nth_list_update_neq)
next
  case (fail i k)
  then have "dk_lock d' = Some j \<longleftrightarrow> j \<noteq> i \<and> dk_lock d = Some j" for j
    by (auto simp: release_def partly_written_lock)
  with assms(2) fail(1,3) show ?thesis unfolding lock_held_def
    by (metis holds_lock.simps(13) length_list_update nth_list_update_eq nth_list_update_neq)
qed

lemma lock_held_reach: "(sys_step a)\<^sup>*\<^sup>* (ps, d) (ps', d') \<Longrightarrow> lock_held ps d \<Longrightarrow> lock_held ps' d'"
  by (induction rule: rtranclp_induct2) (auto intro: lock_held_step)

lemma proc_stuck: "proc_step a i p d = None \<Longrightarrow> ended p \<or> (\<exists>es. p = WaitLock es) \<and> dk_lock d \<noteq> None"
  by (induction a i p d rule: proc_step.induct)
    (auto simp: Let_def ended_def split: if_splits option.splits prod.splits)

definition starts :: "pc \<Rightarrow> bool" where
  "starts p \<longleftrightarrow> (\<exists>es. p = OpenLock es) \<or> (\<exists>c n. p = ReadFile c n)"

text \<open>
  C15: processes that write and delete entries at the same time all come to an end: no
  run goes on forever, and as long as a process has not ended one of them can make its next call, so
  that nobody waits for a lock that is never released.
\<close>

theorem processes_end:
  assumes "(sys_step a)\<^sup>*\<^sup>* (ps0, d0) (ps, d)" and "list_all starts ps0" and "dk_lock d0 = None"
  shows "wf {(t, s). sys_step a s t} \<and>
    (list_all ended ps \<or> (\<exists>i < length ps. proc_step a i (ps ! i) d \<noteq> None))"
proof -
  have "wf {(t, s). sys_step a s t}" by (rule wf_subset[OF wf_measures]) (auto dest: sys_step_decreases)
  moreover have held: "lock_held ps d"
    using assms(2,3) by (intro lock_held_reach[OF assms(1)]) (auto simp: lock_held_def list_all_length starts_def)
  have "list_all ended ps" if none: "\<And>i. i < length ps \<Longrightarrow> proc_step a i (ps ! i) d = None"
  proof -
    have "dk_lock d = None"
    proof (rule ccontr)
      assume "dk_lock d \<noteq> None"
      with held obtain i where i: "i < length ps" "holds_lock (ps ! i)" by (auto simp: lock_held_def)
      with proc_stuck[OF none[OF i(1)]] show False by (cases "ps ! i") (auto simp: ended_def)
    qed
    with proc_stuck[OF none] show ?thesis by (auto simp: list_all_length)
  qed
  ultimately show ?thesis by blast
qed

theorem processes_end_witness:
  "\<exists>i < 2. proc_step example_aardvark i ([OpenLock [example_entry], ReadFile ''abc'' ''podman''] ! i) disk_empty \<noteq> None"
proof -
  let ?ps = "[OpenLock [example_entry], ReadFile ''abc'' ''podman'']"
  have "list_all ended ?ps \<or> (\<exists>i < length ?ps. proc_step example_aardvark i (?ps ! i) disk_empty \<noteq> None)"
    using processes_end[of example_aardvark ?ps disk_empty ?ps disk_empty] by (simp add: starts_def disk_empty_def)
  moreover have "\<not> list_all ended ?ps" by (simp add: ended_def)
  moreover have "length ?ps = 2" by simp
  ultimately show ?thesis by metis
qed

text \<open>
  A process that is not disturbed succeeds, and does to the files what \<open>commit_entries\<close> does.
\<close>

lemma locked_runs:
  assumes "disk_ok d" "dk_lock d = Some i" "at_entry a G p d" "paths_ok a (entries_left p)"
  shows "\<exists>k d'. run_calls a i k (p, d) = (Finished, d') \<and> agree a d' (fold (commit_file a) (entries_left p) G)"
  using assms
proof (induction "calls_left p" arbitrary: p d G rule: less_induct)
  case less
  have holds: "holds_lock p" using less.prems(3) by (rule at_entry_holds)
  then have "\<not> (ended p \<or> (\<exists>es. p = WaitLock es) \<and> dk_lock d \<noteq> None)" by (cases p) (simp_all add: ended_def)
  then have "proc_step a i p d \<noteq> None" using proc_stuck[of a i p d] by blast
  then obtain p' d' where call: "proc_step a i p d = Some (p', d')" by auto
  from locked_step[OF less.prems(1-3) call less.prems(4)] show ?case
  proof
    assume pr: "entry_progress a i G p p' d'"
    then obtain G' where G': "disk_ok d'" "dk_lock d' = Some i" "at_entry a G' p' d'" "set (entries_left p') \<subseteq> set (entries_left p)"
      "fold (commit_file a) (entries_left p') G' = fold (commit_file a) (entries_left p) G"
      by (auto simp: entry_progress_def)
    have "reads_left p = 0" using holds by (cases p) simp_all
    with proc_step_decreases[OF call] have "calls_left p' < calls_left p" by simp
    from less.hyps[OF this G'(1-3)] G'(4,5) less.prems(4) obtain k d2 where
      "run_calls a i k (p', d') = (Finished, d2)" "agree a d2 (fold (commit_file a) (entries_left p) G)" by auto
    with call show ?thesis by (intro exI[of _ "Suc k"] exI[of _ d2]) simp
  next
    assume "p' = Finished \<and> entries_left p = [] \<and> disk_ok d' \<and> dk_lock d' = None \<and> agree a d' G"
    with call show ?thesis by (intro exI[of _ 1] exI[of _ d']) simp
  qed
qed

lemma commit_alone:
  assumes "disk_ok d" "dk_lock d = None" "paths_ok a es"
  shows "\<exists>k d'. run_calls a i k (OpenLock es, d) = (Finished, d') \<and> agree a d' (fold (commit_file a) es (contents d))"
proof -
  define d1 where "d1 = (if dk_names d (lock_path a) = None then create_file (lock_path a) d else d)"
  have d1: "disk_ok d1" "dk_lock d1 = None" using assms by (auto simp: d1_def disk_ok_create) (simp add: create_file_def)
  have ag: "agree a d1 (contents d)" using assms(1) by (simp add: agree_def d1_def contents_create)
  have "at_entry a (contents d) (next_entry es) (d1\<lparr>dk_lock := Some i\<rparr>)" using ag by (intro at_next_entry) simp
  from locked_runs[OF _ _ this, of i] d1(1) assms(3) obtain k d' where
    "run_calls a i k (next_entry es, d1\<lparr>dk_lock := Some i\<rparr>) = (Finished, d')" "agree a d' (fold (commit_file a) es (contents d))" by auto
  moreover from this(1) have "run_calls a i (Suc (Suc k)) (OpenLock es, d) = (Finished, d')"
    using d1(2) by (simp add: d1_def[symmetric])
  ultimately show ?thesis by blast
qed

section \<open>Deleting takes no lock\<close>

lemma disk_data_idem [simp]: "dk_data d n = c \<Longrightarrow> d\<lparr>dk_data := (dk_data d)(n := c)\<rparr> = d"
  by (cases d) (simp add: fun_upd_idem)

lemma run_write_lines:
  "dk_data d n = c \<Longrightarrow>
     run_calls a i (length ss + k) (WriteLines (Handle n (Some (length c))) p ss rm, d) =
     run_calls a i k (WriteLines (Handle n (Some (length (c @ concat ss)))) p [] rm, d\<lparr>dk_data := (dk_data d)(n := c @ concat ss)\<rparr>)"
proof (induction ss arbitrary: c d)
  case (Cons s ss)
  from Cons.prems Cons.IH[of "d\<lparr>dk_data := (dk_data d)(n := c @ s)\<rparr>" "c @ s"] show ?case by (simp cong: if_cong)
qed simp

lemma concat_pieces: "concat (concat (map (\<lambda>line. [line, [newline]]) kept)) = file_of_lines kept"
  by (induction kept) (simp_all add: file_of_lines_def)

abbreviation kept_lines :: "string \<Rightarrow> string \<Rightarrow> string list" where
  "kept_lines cid c \<equiv> filter (\<lambda>line. \<not> str_contains cid line) (split_terminator newline c)"

lemma delete_rest_star:
  assumes "i < length ps" "dk_names d p = Some n"
  shows "\<exists>d'. (sys_step a)\<^sup>*\<^sup>* (ps[i := Truncate p kept], d) (ps[i := Finished], d') \<and>
    contents d' p = (if length kept \<le> 1 then None else Some (file_of_lines kept))"
proof -
  let ?d = "d\<lparr>dk_data := (dk_data d)(n := file_of_lines kept)\<rparr>"
  let ?fin = "if length kept \<le> 1 then ?d\<lparr>dk_names := (dk_names d)(p := None)\<rparr> else ?d"
  have "run_calls a i (Suc (length (concat (map (\<lambda>line. [line, [newline]]) kept)) + 2)) (Truncate p kept, d) = (Finished, ?fin)"
    using assms(2) run_write_lines[of "d\<lparr>dk_data := (dk_data d)(n := [])\<rparr>" n "[]" a i _ 2]
    by (simp add: open_truncate_def concat_pieces numeral_2_eq_2)
  from run_calls_star[OF this assms(1)]
  have "(sys_step a)\<^sup>*\<^sup>* (ps[i := Truncate p kept], d) (ps[i := Finished], ?fin)" .
  moreover have "contents ?fin p = (if length kept \<le> 1 then None else Some (file_of_lines kept))"
    using assms(2) by (simp add: contents_def)
  ultimately show ?thesis by blast
qed

lemma append_run:
  assumes "i < length ps" "ps ! i = OpenLock [e]" "disk_ok d" "dk_lock d = None"
    and p: "dk_names d (net_file a (ae_network_name e)) = Some n" "net_file a (ae_network_name e) \<noteq> lock_path a"
  shows "\<exists>d'. (sys_step a)\<^sup>*\<^sup>* (ps, d) (ps[i := Finished], d') \<and> dk_names d' (net_file a (ae_network_name e)) = Some n \<and>
    dk_data d' n = dk_data d n @ entry_line e @ [newline]"
proof -
  define d1 where "d1 = (if dk_names d (lock_path a) = None then create_file (lock_path a) d else d)"
  have d1: "dk_names d1 (net_file a (ae_network_name e)) = Some n" "dk_data d1 n = dk_data d n" "dk_lock d1 = None"
    using assms disk_okD[OF assms(3) p(1)] by (auto simp: d1_def create_file_def)
  let ?fin = "d1\<lparr>dk_data := (dk_data d1)(n := dk_data d1 n @ entry_line e @ [newline])\<rparr>"
  have "run_calls a i 5 (WaitLock [e], d1) = (Finished, ?fin)"
    using d1 by (simp add: eval_nat_numeral Let_def release_def)
  then have "run_calls a i (Suc 5) (OpenLock [e], d) = (Finished, ?fin)"
    by (simp only: run_calls.simps fst_conv snd_conv proc_step.simps option.case d1_def[symmetric])
  from run_calls_star[OF this assms(1)] have "(sys_step a)\<^sup>*\<^sup>* (ps, d) (ps[i := Finished], ?fin)"
    by (simp flip: assms(2))
  with d1 show ?thesis by (intro exI[of _ ?fin]) simp
qed

text \<open>
  C37: deleting an entry does not take the lock.  When another process adds its entry to the file
  after the deleting one has read it, both processes succeed and the file is left as if the entry had
  never been written.
\<close>

theorem delete_loses_commit:
  assumes "disk_ok d" and "dk_lock d = None"
    and "p = path_join (aa_config a) (ae_network_name e)" and "p \<noteq> lock_path a" and "contents d p = Some c"
  shows "\<exists>d'. (sys_step a)\<^sup>*\<^sup>* ([ReadFile cid (ae_network_name e), OpenLock [e]], d) ([Finished, Finished], d') \<and>
    contents d' p = (let kept = filter (\<lambda>line. \<not> str_contains cid line) (split_terminator newline c)
                     in if length kept \<le> 1 then None else Some (file_of_lines kept))"
proof -
  obtain n where n: "dk_names d p = Some n" using assms(5) by (auto simp: contents_def)
  let ?tr = "Truncate p (kept_lines cid c)"
  obtain d1 where d1: "(sys_step a)\<^sup>*\<^sup>* ([?tr, OpenLock [e]], d) ([?tr, Finished], d1)" "dk_names d1 p = Some n"
    using append_run[of 1 "[?tr, OpenLock [e]]" e d a n] assms n by auto
  obtain d2 where d2: "(sys_step a)\<^sup>*\<^sup>* ([?tr, Finished], d1) ([Finished, Finished], d2)"
    "contents d2 p = (if length (kept_lines cid c) \<le> 1 then None else Some (file_of_lines (kept_lines cid c)))"
    using delete_rest_star[of 0 "[?tr, Finished]" d1 p n a "kept_lines cid c"] d1(2) by auto
  have "(sys_step a)\<^sup>*\<^sup>* ([ReadFile cid (ae_network_name e), OpenLock [e]], d) ([Finished, Finished], d2)"
  proof (rule converse_rtranclp_into_rtranclp)
    show "sys_step a ([ReadFile cid (ae_network_name e), OpenLock [e]], d) ([?tr, OpenLock [e]], d)"
      using sys_step.call[of 0 "[ReadFile cid (ae_network_name e), OpenLock [e]]" a d ?tr d] assms(3,5) by (simp add: Let_def)
  qed (rule rtranclp_trans[OF d1(1) d2(1)])
  with d2(2) show ?thesis unfolding Let_def by blast
qed


definition listed_disk :: disk where
  "listed_disk = \<lparr>dk_names = [''/run/dns/podman'' \<mapsto> 0],
     dk_data = (\<lambda>_. file_of_lines [''10.88.0.1'', ''abc 10.88.0.2  web'']), dk_next = 1, dk_lock = None\<rparr>"

theorem delete_loses_commit_witness:
  "\<exists>d'. (sys_step example_aardvark)\<^sup>*\<^sup>* ([ReadFile ''abc'' ''podman'', OpenLock [second_entry]], listed_disk) ([Finished, Finished], d') \<and>
     contents d' ''/run/dns/podman'' = None"
proof -
  have c: "contents listed_disk ''/run/dns/podman'' = Some (file_of_lines [''10.88.0.1'', ''abc 10.88.0.2  web''])"
    by (simp add: contents_def listed_disk_def)
  have "split_terminator newline (file_of_lines [''10.88.0.1'', ''abc 10.88.0.2  web'']) = [''10.88.0.1'', ''abc 10.88.0.2  web'']"
    by (rule split_file_of_lines) (simp add: newline_def)
  moreover have "disk_ok listed_disk" "dk_lock listed_disk = None" by (simp_all add: disk_ok_def listed_disk_def)
  moreover have "''/run/dns/podman'' = path_join (aa_config example_aardvark) (ae_network_name second_entry)"
    "''/run/dns/podman'' \<noteq> lock_path example_aardvark" by (simp_all add: example_disk_defs)
  ultimately show ?thesis
    using delete_loses_commit[OF _ _ _ _ c, of example_aardvark second_entry "''abc''"]
    by (simp add: second_entry_def example_entry_def Let_def)
qed

end
