(* ===== verification/Build_Script.thy ===== *)
theory Build_Script
  imports Prelude
begin

text \<open>
  \<^verbatim>\<open>build.rs\<close>: the script cargo runs before the build.  It has the protobuf code generated and tells
  cargo the values \<^verbatim>\<open>netavark version\<close> reports.  The generator, chrono's calendar, git and the
  environment are the record \<open>build_sys\<close>.  A \<^verbatim>\<open>println!\<close> whose output is gone panics.
\<close>

record ('t, 'w) build_sys =
  bs_compile :: "(string \<times> string) list \<Rightarrow> string \<Rightarrow> string list \<Rightarrow> string list \<Rightarrow> ('w, string, unit) comp"
  bs_env :: "string \<rightharpoonup> string"
  bs_now :: "'w \<Rightarrow> 't"
  bs_from_timestamp_opt :: "int \<Rightarrow> 't option"
  bs_to_rfc3339 :: "'t \<Rightarrow> string"
  bs_git :: "string list \<Rightarrow> ('w, string, string) comp"
  bs_println :: "string \<Rightarrow> ('w, string, unit) comp"

section \<open>What the script uses of the standard library\<close>

text \<open>\<^verbatim>\<open>i64::from_str\<close>.\<close>

definition parse_i64 :: "string \<Rightarrow> (parse_int_error, int) res" where
  "parse_i64 s =
     (case s of
        [] \<Rightarrow> Err IntEmpty
      | c # cs \<Rightarrow>
          if c = CHR ''-'' \<and> cs \<noteq> []
          then (case parse_digits 10 9223372036854775808 0 cs of
                  Ok n \<Rightarrow> Ok (- int n)
                | Err IntPosOverflow \<Rightarrow> Err IntNegOverflow
                | Err e \<Rightarrow> Err e
                | Panic \<Rightarrow> Panic
                | Hang \<Rightarrow> Hang)
          else map_res id int (parse_uint 10 9223372036854775807 s))"

text \<open>\<^verbatim>\<open>String::from_utf8\<close> accepts the well-formed byte sequences: no overlong forms, no surrogates, nothing beyond U+10FFFF.\<close>

definition between :: "nat \<Rightarrow> nat \<Rightarrow> char \<Rightarrow> bool" where
  "between lo hi c \<longleftrightarrow> lo \<le> of_char c \<and> of_char c \<le> hi"

fun utf8_ok :: "string \<Rightarrow> bool" where
  "utf8_ok [] = True"
| "utf8_ok (a # s) =
     (if between 0 0x7F a then utf8_ok s
      else case s of
        b # s1 \<Rightarrow>
          if between 0xC2 0xDF a then between 0x80 0xBF b \<and> utf8_ok s1
          else (case s1 of
            c # s2 \<Rightarrow>
              if between 0xE0 0xEF a
              then between (if of_char a = (0xE0 :: nat) then 0xA0 else 0x80) (if of_char a = (0xED :: nat) then 0x9F else 0xBF) b \<and>
                   between 0x80 0xBF c \<and> utf8_ok s2
              else (case s2 of
                d # s3 \<Rightarrow>
                  between 0xF0 0xF4 a \<and>
                  between (if of_char a = (0xF0 :: nat) then 0x90 else 0x80) (if of_char a = (0xF4 :: nat) then 0x8F else 0xBF) b \<and>
                  between 0x80 0xBF c \<and> between 0x80 0xBF d \<and> utf8_ok s3
              | [] \<Rightarrow> False)
          | [] \<Rightarrow> False)
      | [] \<Rightarrow> False)"

definition unwrapc :: "('w, 'e, 'a) comp \<Rightarrow> ('w, 'e, 'a) comp" where
  "unwrapc m = matchc m retc (\<lambda>_. liftc Panic)"

section \<open>The script\<close>

definition type_attributes :: "(string \<times> string) list" where
  "type_attributes =
     [(''netavark_proxy.Lease'', ''#[derive(serde::Serialize)]''),
      (''netavark_proxy.DhcpV4Lease'', ''#[derive(serde::Serialize)]''),
      (''netavark_proxy.DhcpV6Lease'', ''#[derive(serde::Serialize)]''),
      (''netavark_proxy.IPResponse'', ''#[derive(serde::Serialize)]''),
      (''netavark_proxy.MacAddress'', ''#[derive(serde::Serialize)]''),
      (''netavark_proxy.NvIpv4Addr'', ''#[derive(serde::Serialize)]''),
      (''netavark_proxy.Lease'', ''#[derive(serde::Deserialize)]''),
      (''netavark_proxy.DhcpV4Lease'', ''#[derive(serde::Deserialize)]''),
      (''netavark_proxy.DhcpV6Lease'', ''#[derive(serde::Deserialize)]''),
      (''netavark_proxy.IPResponse'', ''#[derive(serde::Deserialize)]''),
      (''netavark_proxy.MacAddress'', ''#[derive(serde::Deserialize)]''),
      (''netavark_proxy.NvIpv4Addr'', ''#[derive(serde::Deserialize)]''),
      (''netavark_proxy.MacAddress'', ''#[derive(Eq)]''),
      (''netavark_proxy.MacAddress'', ''#[derive(Hash)]''),
      (''netavark_proxy.NetworkConfig'', ''#[derive(serde::Deserialize)]''),
      (''netavark_proxy.NetworkConfig'', ''#[derive(serde::Serialize)]'')]"

definition build_time :: "('t, 'w) build_sys \<Rightarrow> ('w, string, 't) comp" where
  "build_time sys w =
     (case bs_env sys ''SOURCE_DATE_EPOCH'' of
        Some val \<Rightarrow>
          (case parse_i64 val of
             Ok secs \<Rightarrow> (case bs_from_timestamp_opt sys secs of Some n \<Rightarrow> (Ok n, w) | None \<Rightarrow> (Ok (bs_now sys w), w))
           | _ \<Rightarrow> (Panic, w))
      | None \<Rightarrow> (Ok (bs_now sys w), w))"

definition git_commit :: "('t, 'w) build_sys \<Rightarrow> ('w, string, string) comp" where
  "git_commit sys =
     matchc (bs_git sys [''rev-parse'', ''HEAD'']) (\<lambda>out. if utf8_ok out then retc out else liftc Panic) (\<lambda>_. retc [])"

definition build_main :: "('t, 'w) build_sys \<Rightarrow> ('w, string, unit) comp" where
  "build_main sys =
     seqc (unwrapc (bs_compile sys type_attributes ''src/proto-build'' [''src/proto/proxy.proto''] [''proto'']))
    (seqc (unwrapc (bs_println sys ''cargo:rerun-if-changed=build.rs''))
    (bindc (build_time sys) (\<lambda>now.
     seqc (unwrapc (bs_println sys (''cargo:rustc-env=BUILD_TIMESTAMP='' @ bs_to_rfc3339 sys now)))
    (bindc (liftc (case bs_env sys ''TARGET'' of Some t \<Rightarrow> Ok t | None \<Rightarrow> Panic)) (\<lambda>target.
     seqc (unwrapc (bs_println sys (''cargo:rustc-env=BUILD_TARGET='' @ target)))
    (bindc (git_commit sys) (\<lambda>commit.
     unwrapc (bs_println sys (''cargo:rustc-env=GIT_COMMIT='' @ commit)))))))))"

section \<open>Reproducible builds\<close>

lemma show_nat_hd: "\<exists>c cs. show_nat n = c # cs \<and> c \<noteq> CHR ''-''"
proof -
  obtain c cs where s: "show_nat n = c # cs" using show_nat_nonempty[of n] by (cases "show_nat n") auto
  then obtain d where "d < 10" "c = digit_char d" using show_nat_chars[of c n] by auto
  then show ?thesis using s digit_char_not_sign[of d] by simp
qed

lemma parse_i64_show: "n \<le> 9223372036854775807 \<Longrightarrow> parse_i64 (show_nat n) = Ok (int n)"
  using show_nat_hd[of n] parse_uint_show_nat[of n] by (auto simp: parse_i64_def)

text \<open>
  When \<^verbatim>\<open>SOURCE_DATE_EPOCH\<close> is a number of seconds chrono has a date for, the script does the same
  whatever the clock says, and the time stamp is that date.
\<close>

lemma build_reproducible:
  assumes "bs_env sys ''SOURCE_DATE_EPOCH'' = Some (show_nat secs)" and "secs \<le> 9223372036854775807"
    and "bs_from_timestamp_opt sys (int secs) = Some date"
  shows "build_main (sys\<lparr>bs_now := clock\<rparr>) = build_main sys" and "build_time sys w = (Ok date, w)"
proof -
  have "build_time (sys\<lparr>bs_now := clock\<rparr>) = build_time sys"
    using assms by (simp add: fun_eq_iff build_time_def parse_i64_show)
  moreover have "git_commit (sys\<lparr>bs_now := clock\<rparr>) = git_commit sys" by (simp add: git_commit_def)
  ultimately show "build_main (sys\<lparr>bs_now := clock\<rparr>) = build_main sys" by (simp add: build_main_def)
  show "build_time sys w = (Ok date, w)" using assms by (simp add: build_time_def parse_i64_show)
qed

text \<open>A number chrono has no date for is passed over in silence: the build gets the time of the clock.\<close>

lemma build_time_out_of_range:
  "bs_env sys ''SOURCE_DATE_EPOCH'' = Some val \<Longrightarrow> parse_i64 val = Ok secs \<Longrightarrow> bs_from_timestamp_opt sys secs = None \<Longrightarrow>
     build_time sys w = (Ok (bs_now sys w), w)"
  by (simp add: build_time_def)

text \<open>An executable instance, and the lines of a build outside of a git repository.\<close>

definition build_ref :: "(int, string list) build_sys" where
  "build_ref =
     \<lparr>bs_compile = (\<lambda>_ _ _ _. retc ()), bs_env = [''SOURCE_DATE_EPOCH'' \<mapsto> ''7'', ''TARGET'' \<mapsto> ''x86_64-unknown-linux-gnu''],
      bs_now = (\<lambda>_. 0), bs_from_timestamp_opt = Some, bs_to_rfc3339 = (\<lambda>t. show_nat (nat t)),
      bs_git = (\<lambda>_. failc ''no git''), bs_println = (\<lambda>s out. (Ok (), out @ [s]))\<rparr>"

lemma build_ref_lines:
  "build_main build_ref [] = (Ok (),
     [''cargo:rerun-if-changed=build.rs'', ''cargo:rustc-env=BUILD_TIMESTAMP=7'',
      ''cargo:rustc-env=BUILD_TARGET=x86_64-unknown-linux-gnu'', ''cargo:rustc-env=GIT_COMMIT=''])"
  by (simp add: build_main_def build_ref_def build_time_def git_commit_def unwrapc_def comp_simps parse_i64_def
      to_digit_def show_nat.simps digit_char_def)

end
