(* ===== verification/Spec2Isabelle.thy ===== *)
theory Spec2Isabelle
  imports Host_Namespace Driver_Data Example_Plugins Dns_Processes Build_Script
begin

text \<open>
  Verification of netavark, the program that configures the network of containers: it reads a
  description of a container's networks, makes the interfaces, addresses and routes over netlink,
  installs firewall rules, writes the entries of the name server aardvark-dns, and reports what it
  did as JSON.  A second mode of the program, the DHCP proxy, obtains leases for containers.

  \<^bold>\<open>Method.\<close>  A function of the source is a function of the same name, on data of the same
  shape: structs are records, enums are datatypes, machine integers are words.  A fallible or
  effectful function is a computation \<^verbatim>\<open>state => outcome x state\<close> (\<open>Prelude\<close>), whose outcome
  is a value, an error, a panic (\<open>Panic\<close>: an index out of range, an unwrap of nothing) or no return
  (\<open>Hang\<close>).  \<^verbatim>\<open>?\<close> is \<open>bindc\<close> or \<open>seqc\<close>, \<^verbatim>\<open>match\<close> on a result is \<open>matchc\<close>, \<^verbatim>\<open>wrap\<close> is \<open>wrapc\<close>.
  Code outside the repository is a parameter: the kernel and its packets (\<open>nl_transport\<close>), system calls
  (\<open>os\<close>, \<open>fs\<close>), the iptables command (\<open>iptables\<close>), D-Bus (\<open>dbus\<close>), the DHCP library (\<open>mozim\<close>),
  gRPC (\<open>grpc\<close>), plugin processes (\<open>plugin_sys\<close>), serde, and the \<^verbatim>\<open>ipnet\<close> and \<^verbatim>\<open>sha2\<close> crates.
  What a theorem needs of a parameter is a locale (\<open>iptables_laws\<close>, \<open>firewalld_laws\<close>, \<open>fs_laws\<close>,
  \<open>netns_laws\<close>, \<open>ipnet_laws\<close>, \<open>machine\<close>) or a predicate (\<open>sock_reads\<close>, \<open>decodes\<close>, \<open>receives\<close>);
  each is shown to hold of an executable instance, which the witnesses run.

  \<^bold>\<open>Theories.\<close>  Paths are under \<^verbatim>\<open>src/src\<close>.

  \<^item> \<open>Prelude\<close>, \<open>Std_Net\<close>: outcomes, computations and their calculus (\<open>comp_simps\<close>, \<open>comp_Ok\<close>,
    \<open>reads\<close>, \<open>runs\<close>), text and number parsing, the part of \<^verbatim>\<open>std::net\<close> and \<^verbatim>\<open>ipnet\<close> the program uses.
  \<^item> \<open>Errors\<close> (\<^verbatim>\<open>error/mod.rs\<close>): the error type, chains, lists, exit codes.
  \<^item> \<open>Net_Types\<close> (\<^verbatim>\<open>network/types.rs\<close>, \<^verbatim>\<open>internal_types.rs\<close>, \<^verbatim>\<open>constants.rs\<close>): configuration and result.
  \<^item> \<open>Netlink\<close> (\<^verbatim>\<open>network/netlink.rs\<close>): requests and the receive loop over the bytes of datagrams.
    The inner loop terminates because each packet advances the offset; the outer one is a
    \<open>partial_function\<close>.  A datagram is cut to the buffer of 8192 bytes.  For datagrams that fit,
    \<open>recv_returns_iff\<close> shows that the loop over bytes computes the protocol on packets (\<open>answer\<close>) and
    returns exactly when a packet ends the exchange, \<open>dump_links_complete\<close> that a dump returns every
    link, \<open>add_route_outcome\<close> what each answer of the kernel leads to.
  \<^item> \<open>Core_Utils\<close> (\<^verbatim>\<open>network/core_utils.rs\<close>): options, address management, hardware addresses, hashes,
    sysctls, namespaces, default routes.
  \<^item> \<open>Varktables\<close>, \<open>Iptables\<close> (\<^verbatim>\<open>firewall/varktables\<close>, \<^verbatim>\<open>firewall/iptables.rs\<close>): chains and rules as data
    and what the driver does with them.  The theorems speak of the tables: set-up installs all rules,
    loses none and is idempotent; tear-down removes exactly the rules that are to go by their marks
    (\<open>to_go\<close>), and both together restore all rules that are not the network's own.  D-Bus is assumed
    to leave the tables alone: a firewalld that runs keeps its zones elsewhere (its nftables backend).
  \<^item> \<open>Firewalld\<close> (\<^verbatim>\<open>firewall/firewalld.rs\<close>): the driver over D-Bus values; the forwarding round trip.
  \<^item> \<open>Firewall\<close> (\<^verbatim>\<open>firewall/mod.rs\<close>, \<^verbatim>\<open>fwnone.rs\<close>): the driver interface, the choice of a driver, and
    that no driver touches what its calls do not (\<open>firewall_frame\<close>).
  \<^item> \<open>Aardvark\<close> (\<^verbatim>\<open>dns/aardvark.rs\<close>): the files of the name server, entry by entry and line by line.
    What the code relies on is \<open>fs_laws\<close>, extended by \<open>dns_process\<close> for the server's start; a
    container's entries, written for all its networks and taken out again, leave no trace.
  \<^item> \<open>Dns_Processes\<close> (\<^verbatim>\<open>dns/aardvark.rs\<close>): the same operations cut into their system calls, for any number
    of processes that run them at once on files with inodes and positions (\<open>sys_step\<close>).  Commits are
    serialised by the lock, all processes end, and a deletion, which takes no lock, can lose an entry.
    Reading a whole file and writing a whole buffer are one step each.
  \<^item> \<open>Driver_Info\<close>, \<open>Bridge\<close> (\<^verbatim>\<open>network/driver.rs\<close>, \<^verbatim>\<open>network/bridge.rs\<close>): bridge networks, with the
    namespace the process is in after each outcome.
  \<^item> \<open>Vlan\<close> (\<^verbatim>\<open>network/vlan.rs\<close>): macvlan and ipvlan networks.  The retry for a taken name is bounded
    by the three iterations of the source.
  \<^item> \<open>Drivers\<close> (\<^verbatim>\<open>network/plugin.rs\<close>, \<^verbatim>\<open>network/driver.rs\<close>, \<^verbatim>\<open>plugin.rs\<close>): plugins and the choice of a driver.
  \<^item> \<open>Dhcp_Lib\<close>, \<open>Dhcp_Ip\<close>, \<open>Dhcp_Service\<close>, \<open>Macvlan_Dhcp\<close> (\<^verbatim>\<open>dhcp_proxy/lib.rs\<close>, \<^verbatim>\<open>types.rs\<close>, \<^verbatim>\<open>ip.rs\<close>,
    \<^verbatim>\<open>dhcp_service.rs\<close>, \<^verbatim>\<open>proxy_conf.rs\<close>, \<^verbatim>\<open>network/macvlan_dhcp.rs\<close>): leases, their conversions, the client
    side in netavark and the configuration of the interface; both sides agree on the address.
  \<^item> \<open>Lease_Cache\<close> (\<^verbatim>\<open>dhcp_proxy/cache.rs\<close>): the cache of leases refines a map; the two writers at
    byte level.
  \<^item> \<open>Dhcp_Proxy\<close> (\<^verbatim>\<open>commands/dhcp_proxy.rs\<close>): the requests, and the server as a step relation
    (\<open>serve_step\<close>) in which requests, disconnecting clients and timeouts interleave.
  \<^item> \<open>Commands\<close> (\<^verbatim>\<open>commands/setup.rs\<close>, \<^verbatim>\<open>teardown.rs\<close>, \<^verbatim>\<open>update.rs\<close>, \<^verbatim>\<open>network/mod.rs\<close>,
    \<^verbatim>\<open>network/validation.rs\<close>, \<^verbatim>\<open>main.rs\<close>, \<^verbatim>\<open>dhcp_proxy_client\<close>): the commands.  A failed set-up is rolled
    back, a tear-down goes on after errors once the firewall is chosen and the sockets are open.
  \<^item> \<open>Driver_Data\<close>: what validation promises of a driver's data (\<open>driver_ready\<close>), the
    well-formedness every driver has before it is set up.
  \<^item> \<open>Plugin_Process\<close>, \<open>Example_Plugins\<close> (\<^verbatim>\<open>network/plugin.rs\<close> with \<^verbatim>\<open>plugin.rs\<close>, and \<^verbatim>\<open>src/examples\<close>): a
    plugin as a process on the other end of the pipes; both sides of the protocol together, and the
    plugins of the repository.
  \<^item> \<open>Build_Script\<close> (\<^verbatim>\<open>src/build.rs\<close>): what the build script tells cargo; when a build is reproducible.
  \<^item> \<open>Host_Namespace\<close>: the namespace of the process through a whole command; the theorems below.

  \<^bold>\<open>Deviations the theorems establish.\<close>  Some theorems state behaviour the source hardly intends:
  \<open>isolation_jump_lost\<close>, \<open>source_subnets_skipped\<close>, \<open>host_ip_forward_survives\<close>,
  \<open>veth_error_stays_in_netns\<close>, \<open>clearing_servers_not_notified\<close>, \<open>lease_file_gap\<close>,
  \<open>failed_setup_keeps_lease\<close>, \<open>rollback_where_setup_failed\<close>, \<open>delete_loses_commit\<close>, the
  early returns in \<open>teardown_collects_errors\<close> and \<open>teardown_command_goes_on\<close>, the wrap-around in \<open>port_range_end\<close> and the panic in
  \<open>dhcp_report_agrees\<close>.

  \<^bold>\<open>Not modelled.\<close>  Log messages; parsing of the command line; the JSON form of data (serde); the scheduling of tokio and tonic beyond the
  interleaving of whole requests, and the poisoning of locks, which needs a panic while a lock is held
  (\<open>proxy_stops_only_without_leases\<close> excludes the only one, an address with no lease in its list);
  the generated protobuf code; tests.  Iteration order of hash maps is the order of a list that stands for
  the map.  Integer overflow wraps, as in a release build.
\<close>

section \<open>The setup command\<close>

text \<open>
  C9: a setup command that succeeds ends in the network namespace it started in: the one it opened as
  its own while it still was there.  This holds for any number of networks of any driver, with any of
  the firewalls, whatever the kernel, the name server and the DHCP proxy answer.
\<close>

theorem setup_command_returns_to_host:
  assumes "machine ce cur" and "setup_exec ce path co w = (Ok (), w')"
  shows "\<exists>fd w0 w1. os_open (de_os (ce_driver ce)) ''/proc/self/ns/net'' w0 = (Ok fd, w1)
    \<and> cur w0 = cur w \<and> cur w' = fd"
  using machine.setup_exec_ends[OF assms] .

theorem setup_command_returns_to_host_witness:
  "\<exists>w'. setup_exec (plugin_env plugin_options) ''/ns''
     (quiet_cmd\<lparr>co_plugin_directories := Some [''/plugins'']\<rparr>) quiet_world = (Ok (), w') \<and> rw_cur w' = 3"
proof -
  obtain fd w0 w1 where "os_open (de_os (ce_driver (plugin_env plugin_options))) ''/proc/self/ns/net'' w0 = (Ok fd, w1)"
    and "rw_cur w0 = rw_cur quiet_world" and "rw_cur quiet_world = fd"
    using setup_command_returns_to_host[OF plugin_machine.machine_axioms plugin_setup_run] by blast
  then show ?thesis using plugin_setup_run by (auto simp: quiet_world_def)
qed

section \<open>The rollback\<close>

text \<open>
  C36: a failed set-up is rolled back in whatever namespace the failing driver left the process: every
  tear-down of a network that was set up before it starts there, and so does the rest of the command.
  When a bridge network fails inside the container's namespace, the host's firewall rules are torn
  down there.
\<close>

theorem rollback_where_setup_failed:
  assumes "machine ce cur" and "sock_reads cur host" and "sock_reads cur netns"
    and "\<forall>d\<in>set before. firewall_frame (di_firewall (driver_info_of d)) cur"
    and "sets_up (ce_driver ce) (host, netns) before w w1"
    and "driver_setup (ce_driver ce) d (host, netns) w1 = (Err e, w2)"
    and "tears_down (ce_driver ce) (host, netns) before w2 w3"
  shows "setup_drivers (ce_driver ce) (host, netns) [] Map.empty [] (before @ d # rest) w = (Err e, w3)
    \<and> cur w3 = cur w2 \<and> (\<forall>b1 d' b2. before = b1 @ d' # b2 \<longrightarrow>
      (\<exists>v. tears_down (ce_driver ce) (host, netns) b1 w2 v \<and> cur v = cur w2
         \<and> tears_down (ce_driver ce) (host, netns) (d' # b2) v w3))"
  using setup_drivers_fails[OF assms(5,6), of "[]" w3] machine.rollback_namespace[OF assms(1-4,7)] assms(7) by simp

theorem rollback_where_setup_failed_witness:
  "\<exists>w3. setup_drivers (ce_driver denied_env) (host_sock_ref, netns_sock_ref) [] Map.empty [] ([odd_driver] @ bridge_driver # [])
     forwarding_world = (Err (Chain ''failed to set autoconf sysctl'' (Sysctl (SysctlOther ''permission denied''))), w3)
     \<and> rw_cur forwarding_world = 3 \<and> rw_cur w3 = 4"
proof -
  obtain r where "driver_setup (ce_driver denied_env) odd_driver (host_sock_ref, netns_sock_ref) forwarding_world = (Ok r, forwarding_world)"
    using denied_runs(1) by blast
  then have "sets_up (ce_driver denied_env) (host_sock_ref, netns_sock_ref) [odd_driver] forwarding_world forwarding_world"
    by (simp del: driver_setup.simps)
  moreover have "tears_down (ce_driver denied_env) (host_sock_ref, netns_sock_ref) [odd_driver]
      (forwarding_world\<lparr>rw_cur := 4\<rparr>) (forwarding_world\<lparr>rw_cur := 4\<rparr>)"
    using denied_runs(2) by (simp del: driver_teardown.simps)
  moreover have "sock_reads rw_cur host_sock_ref" "sock_reads rw_cur netns_sock_ref"
    by (simp_all add: host_sock_ref_def netns_sock_ref_def sock_ref_reads)
  moreover have "\<forall>d\<in>set [odd_driver]. firewall_frame (di_firewall (driver_info_of d)) rw_cur"
    by (simp add: example_info_def fwnone.firewall_frame_axioms)
  ultimately have "setup_drivers (ce_driver denied_env) (host_sock_ref, netns_sock_ref) [] Map.empty [] ([odd_driver] @ bridge_driver # [])
     forwarding_world = (Err (Chain ''failed to set autoconf sysctl'' (Sysctl (SysctlOther ''permission denied''))), forwarding_world\<lparr>rw_cur := 4\<rparr>)
     \<and> rw_cur (forwarding_world\<lparr>rw_cur := 4\<rparr>) = rw_cur (forwarding_world\<lparr>rw_cur := 4\<rparr>)"
    using rollback_where_setup_failed[OF denied_machine.machine_axioms, of host_sock_ref netns_sock_ref "[odd_driver]",
        OF _ _ _ _ denied_runs(3), of forwarding_world] by blast
  then show ?thesis by (simp add: forwarding_world_def quiet_world_def del: setup_drivers.simps)
qed


end
